theory Spec2Isabelle
  imports Main
begin

text \<open>
  The multi-backend database layer of the employee-management backend: the registry of
  data stores with its health checks, its selection of the current store, its queries with
  retry and failover (src/services/backendRegistry.ts over src/config/backends.ts), and the
  in-memory mock database that stands in when no PostgreSQL store can be used.

  The registry is a mutable object whose asynchronous methods interleave at their
  \<open>await\<close>s. Here a method takes the registry and returns it updated; an asynchronous method
  is cut at its suspension points into functions that run without interruption; what
  arrives from outside (the time, the answer of a probe, the outcome of a driver call, the
  activities that run during a suspension) is a parameter.
\<close>

section \<open>Backend configuration (src/config/backends.ts)\<close>

datatype BackendType = POSTGRES | MOCK | FALLBACK

datatype BackendStatus = ONLINE | OFFLINE | DEGRADED | UNKNOWN

datatype SelectionStrategy = PRIORITY | ROUND_ROBIN | FAILOVER

text \<open>
  The interface \<open>BackendConfig\<close>. The fields \<open>id\<close> and \<open>type\<close> are written \<open>id'\<close> and
  \<open>type'\<close>. Numbers that count (the two counters, the two thresholds, the durations) are
  naturals, \<open>priority\<close> is an integer, a \<open>Date\<close> is a natural number of milliseconds.
\<close>

record BackendConfig =
  id' :: string
  name :: string
  type' :: BackendType
  connectionString :: "string option"
  priority :: int
  status :: BackendStatus
  lastChecked :: "nat option"
  failureCount :: nat
  maxFailures :: nat
  recoveryThreshold :: nat
  successCount :: nat
  healthCheckInterval :: nat
  timeout :: nat
  enabled :: bool

text \<open>
  A string or \<open>undefined\<close> or \<open>null\<close> in a condition: the empty string is falsy, as
  \<open>undefined\<close> and \<open>null\<close> are.
\<close>

definition truthy :: "string option \<Rightarrow> bool" where
  "truthy x = (case x of None \<Rightarrow> False | Some s \<Rightarrow> s \<noteq> [])"

text \<open>
  \<open>defaultBackends\<close>. Three values come from the process environment: the connection
  string of the primary store, the connection string of the backup store (the backup is
  enabled when \<open>BACKUP_DATABASE_URL\<close> is set and not empty) and whether
  \<open>DISABLE_MOCK_FALLBACK\<close> is \<open>'true'\<close>.
\<close>

definition defaultBackends :: "string option \<Rightarrow> string option \<Rightarrow> bool \<Rightarrow> BackendConfig list" where
  "defaultBackends neonUrl backupUrl disableMock =
    [ \<lparr> id' = ''primary'', name = ''Primary Neon PostgreSQL'', type' = POSTGRES,
        connectionString = neonUrl, priority = 1, status = UNKNOWN, lastChecked = None,
        failureCount = 0, maxFailures = 3, recoveryThreshold = 2, successCount = 0,
        healthCheckInterval = 30000, timeout = 10000, enabled = True \<rparr>,
      \<lparr> id' = ''backup'', name = ''Backup PostgreSQL'', type' = POSTGRES,
        connectionString = backupUrl, priority = 2, status = UNKNOWN, lastChecked = None,
        failureCount = 0, maxFailures = 3, recoveryThreshold = 2, successCount = 0,
        healthCheckInterval = 60000, timeout = 10000, enabled = truthy backupUrl \<rparr>,
      \<lparr> id' = ''mock'', name = ''Mock Database'', type' = MOCK,
        connectionString = None, priority = 999, status = ONLINE, lastChecked = None,
        failureCount = 0, maxFailures = 999, recoveryThreshold = 1, successCount = 999,
        healthCheckInterval = 300000, timeout = 1000, enabled = (\<not> disableMock) \<rparr> ]"

section \<open>The registry (src/services/backendRegistry.ts)\<close>

text \<open>
  A \<open>BackendInstance\<close>: \<open>pool\<close> says whether a connection pool was created; the health
  check timer is not modelled (timers only decide when a health check starts).
\<close>

record BackendInstance =
  config :: BackendConfig
  pool :: bool
  lastUsed :: nat

text \<open>
  The fields of the class \<open>BackendRegistry\<close>. The \<open>Map\<close> from id to instance is the list of
  its values in insertion order; the key of an instance is always its \<open>config.id\<close>.
\<close>

record Registry =
  backends :: "BackendInstance list"
  currentBackendId :: "string option"
  selectionStrategy :: SelectionStrategy
  roundRobinIndex :: nat
  initialized :: bool
  healthCheckRunning :: bool

text \<open>
  What the registry reads from outside itself: the module constant \<open>configuredBackends\<close>
  (only \<open>id\<close> and \<open>type\<close> of its entries are read after initialisation) and whether
  \<open>process.env.DISABLE_MOCK_FALLBACK\<close> is \<open>'true'\<close>.
\<close>

record Env =
  configuredBackends :: "BackendConfig list"
  disableMockFallback :: bool

definition getBackend :: "Registry \<Rightarrow> string \<Rightarrow> BackendInstance option" where
  "getBackend rs k = find (\<lambda>b. id' (config b) = k) (backends rs)"

fun modifyBackend :: "string \<Rightarrow> (BackendInstance \<Rightarrow> BackendInstance) \<Rightarrow> BackendInstance list \<Rightarrow> BackendInstance list" where
  "modifyBackend k f [] = []"
| "modifyBackend k f (b # bs) = (if id' (config b) = k then f b # bs else b # modifyBackend k f bs)"

definition modifyConfig :: "string \<Rightarrow> (BackendConfig \<Rightarrow> BackendConfig) \<Rightarrow> Registry \<Rightarrow> Registry" where
  "modifyConfig k f rs = rs\<lparr>backends := modifyBackend k (\<lambda>b. b\<lparr>config := f (config b)\<rparr>) (backends rs)\<rparr>"

definition setLastUsed :: "string \<Rightarrow> nat \<Rightarrow> Registry \<Rightarrow> Registry" where
  "setLastUsed k now rs = rs\<lparr>backends := modifyBackend k (\<lambda>b. b\<lparr>lastUsed := now\<rparr>) (backends rs)\<rparr>"

definition updateBackendStatus :: "Registry \<Rightarrow> string \<Rightarrow> BackendStatus \<Rightarrow> Registry" where
  "updateBackendStatus rs backendId st = modifyConfig backendId (\<lambda>c. c\<lparr>status := st\<rparr>) rs"

subsection \<open>Selection\<close>

definition withStatus :: "BackendStatus \<Rightarrow> BackendInstance list \<Rightarrow> BackendInstance list" where
  "withStatus st bs = filter (\<lambda>b. status (config b) = st) bs"

definition isPrimaryPostgres :: "BackendInstance \<Rightarrow> bool" where
  "isPrimaryPostgres b = (id' (config b) = ''primary'' \<and> type' (config b) = POSTGRES)"

definition byPriority :: "BackendInstance list \<Rightarrow> BackendInstance list" where
  "byPriority bs = sort_key (\<lambda>b. priority (config b)) bs"

text \<open>
  \<open>selectByPriority\<close>. \<open>xs.sort(cmp)[0]\<close> is the head of the stably sorted list, and
  \<open>undefined\<close> on the empty list. The un-awaited call \<open>this.checkBackendHealth(id)\<close> runs
  the synchronous part of the health check; it is the parameter \<open>chk\<close>, because the
  health check calls the selection again. The candidate is returned as it was read.
\<close>

definition selectByPriority ::
  "(Registry \<Rightarrow> string \<Rightarrow> Registry) \<Rightarrow> Env \<Rightarrow> Registry \<Rightarrow> BackendInstance list \<Rightarrow> BackendInstance option \<times> Registry" where
  "selectByPriority chk env rs bs =
    (let onlineBackends = withStatus ONLINE bs;
         degradedBackends = withStatus DEGRADED bs;
         unknownBackends = withStatus UNKNOWN bs;
         offlineBackends = withStatus OFFLINE bs;
         lastResort =
           (case byPriority offlineBackends of
              c # _ \<Rightarrow> (Some c, chk rs (id' (config c)))
            | [] \<Rightarrow> (None, rs))
     in case byPriority (filter isPrimaryPostgres onlineBackends) of
          c # _ \<Rightarrow> (Some c, rs)
        | [] \<Rightarrow>
     (case byPriority onlineBackends of
          c # _ \<Rightarrow> (Some c, rs)
        | [] \<Rightarrow>
     (case byPriority (filter isPrimaryPostgres degradedBackends) of
          c # _ \<Rightarrow> (Some c, rs)
        | [] \<Rightarrow>
     (case byPriority degradedBackends of
          c # _ \<Rightarrow> (Some c, rs)
        | [] \<Rightarrow>
     (case byPriority unknownBackends of
          c # _ \<Rightarrow> (Some c, chk rs (id' (config c)))
        | [] \<Rightarrow>
     (if \<not> disableMockFallback env then
        (case filter (\<lambda>b. type' (config b) = MOCK) bs of
           c # _ \<Rightarrow> (Some c, rs)
         | [] \<Rightarrow> lastResort)
      else lastResort))))))"

text \<open>\<open>selectByRoundRobin\<close>: \<open>sortedBackends[this.roundRobinIndex]\<close> is in range after the modulo.\<close>

definition selectByRoundRobin ::
  "(Registry \<Rightarrow> string \<Rightarrow> Registry) \<Rightarrow> Env \<Rightarrow> Registry \<Rightarrow> BackendInstance list \<Rightarrow> BackendInstance option \<times> Registry" where
  "selectByRoundRobin chk env rs bs =
    (let onlineBackends = withStatus ONLINE bs
     in if onlineBackends = [] then selectByPriority chk env rs bs
        else
          (let sortedBackends = byPriority onlineBackends;
               i = (roundRobinIndex rs + 1) mod length sortedBackends
           in (Some (sortedBackends ! i), rs\<lparr>roundRobinIndex := i\<rparr>)))"

definition mockBackendId :: "Env \<Rightarrow> string option" where
  "mockBackendId env = map_option id' (find (\<lambda>b. type' b = MOCK) (configuredBackends env))"

text \<open>\<open>selectBackend\<close>, at time \<open>now\<close>; it returns the selected id, or \<open>None\<close> for \<open>null\<close>.\<close>

definition selectBackend ::
  "(Registry \<Rightarrow> string \<Rightarrow> Registry) \<Rightarrow> Env \<Rightarrow> nat \<Rightarrow> Registry \<Rightarrow> string option \<times> Registry" where
  "selectBackend chk env now rs =
    (let enabledBackends = filter (\<lambda>b. enabled (config b)) (backends rs)
     in if enabledBackends = [] then (None, rs)
        else
          (let (selected, rs1) =
                 (case selectionStrategy rs of
                    PRIORITY \<Rightarrow> selectByPriority chk env rs enabledBackends
                  | ROUND_ROBIN \<Rightarrow> selectByRoundRobin chk env rs enabledBackends
                  | FAILOVER \<Rightarrow>
                      (case (if truthy (currentBackendId rs)
                             then getBackend rs (the (currentBackendId rs)) else None) of
                         Some currentBackend \<Rightarrow>
                           if enabled (config currentBackend) \<and>
                              (status (config currentBackend) = ONLINE \<or>
                               status (config currentBackend) = DEGRADED)
                           then (Some currentBackend, rs)
                           else selectByPriority chk env rs enabledBackends
                       | None \<Rightarrow> selectByPriority chk env rs enabledBackends));
               selectedId =
                 (case selected of
                    Some b \<Rightarrow> Some (id' (config b))
                  | None \<Rightarrow>
                      if \<not> disableMockFallback env \<and> truthy (mockBackendId env)
                      then map_option (\<lambda>b. id' (config b)) (getBackend rs1 (the (mockBackendId env)))
                      else None)
           in case selectedId of
                Some newBackendId \<Rightarrow>
                  (Some newBackendId, setLastUsed newBackendId now (rs1\<lparr>currentBackendId := Some newBackendId\<rparr>))
              | None \<Rightarrow> (None, rs1)))"

subsection \<open>Health checks\<close>

text \<open>
  \<open>checkBackendHealth\<close> as it runs when it is called while a health check is running
  (\<open>healthCheckRunning\<close> is set): a mock store is marked online, any other call returns at
  once. These are lines 131 to 145; the flag is set during every \<open>handleHealthCheckFailure\<close>.
\<close>

definition checkBackendHealthReentrant :: "Registry \<Rightarrow> string \<Rightarrow> Registry" where
  "checkBackendHealthReentrant rs backendId =
    (case getBackend rs backendId of
       None \<Rightarrow> rs
     | Some backend \<Rightarrow>
         if type' (config backend) = MOCK
         then modifyConfig backendId (\<lambda>c. c\<lparr>status := ONLINE\<rparr>) rs
         else rs)"

definition handleHealthCheckFailure :: "Env \<Rightarrow> nat \<Rightarrow> Registry \<Rightarrow> string \<Rightarrow> Registry" where
  "handleHealthCheckFailure env now rs backendId =
    (case getBackend rs backendId of
       None \<Rightarrow> rs
     | Some backend0 \<Rightarrow>
         (let rs1 = modifyConfig backendId
                      (\<lambda>c. c\<lparr>failureCount := failureCount c + 1, successCount := 0\<rparr>) rs;
              c = (config backend0)\<lparr>failureCount := failureCount (config backend0) + 1, successCount := 0\<rparr>
          in if failureCount c \<ge> maxFailures c \<and> status c \<noteq> OFFLINE then
               (let rs2 = updateBackendStatus rs1 backendId OFFLINE
                in if currentBackendId rs2 = Some backendId
                   then snd (selectBackend checkBackendHealthReentrant env now rs2)
                   else rs2)
             else if status c = ONLINE then updateBackendStatus rs1 backendId DEGRADED
             else rs1))"

text \<open>
  \<open>checkBackendHealth\<close> is asynchronous. \<open>checkBackendHealthStart\<close> is what it does up to its
  first \<open>await\<close>: it is \<open>Finished\<close> with the returned value when it never reaches one, and
  \<open>Pending\<close> when the probe of a PostgreSQL pool is in flight. \<open>checkBackendHealthFinish\<close>
  is the rest, once the probe has answered: \<open>healthy\<close> says that the race returned
  \<open>true\<close>; a rejected race and a race that returned \<open>false\<close> both reach
  \<open>handleHealthCheckFailure\<close>.
\<close>

datatype ProbeStart = Finished bool Registry | Pending Registry

definition checkBackendHealthStart :: "Env \<Rightarrow> nat \<Rightarrow> Registry \<Rightarrow> string \<Rightarrow> ProbeStart" where
  "checkBackendHealthStart env now rs backendId =
    (case getBackend rs backendId of
       None \<Rightarrow> Finished False rs
     | Some backend \<Rightarrow>
         if type' (config backend) = MOCK
         then Finished True (modifyConfig backendId (\<lambda>c. c\<lparr>status := ONLINE\<rparr>) rs)
         else if healthCheckRunning rs
         then Finished (status (config backend) = ONLINE) rs
         else
           (let rs1 = modifyConfig backendId (\<lambda>c. c\<lparr>lastChecked := Some now\<rparr>)
                        (rs\<lparr>healthCheckRunning := True\<rparr>)
            in if type' (config backend) = POSTGRES \<and> pool backend
               then Pending rs1
               else Finished False
                      ((handleHealthCheckFailure env now rs1 backendId)\<lparr>healthCheckRunning := False\<rparr>)))"

definition checkBackendHealthFinish :: "Env \<Rightarrow> nat \<Rightarrow> bool \<Rightarrow> Registry \<Rightarrow> string \<Rightarrow> bool \<times> Registry" where
  "checkBackendHealthFinish env now healthy rs backendId =
    (if healthy then
       (case getBackend rs backendId of
          None \<Rightarrow> (True, rs\<lparr>healthCheckRunning := False\<rparr>)
        | Some backend0 \<Rightarrow>
            (let rs1 = modifyConfig backendId
                         (\<lambda>c. c\<lparr>successCount := successCount c + 1, failureCount := 0\<rparr>) rs;
                 c = (config backend0)\<lparr>successCount := successCount (config backend0) + 1, failureCount := 0\<rparr>;
                 rs2 = (if successCount c \<ge> recoveryThreshold c \<and> status c \<noteq> ONLINE
                        then updateBackendStatus rs1 backendId ONLINE else rs1)
             in (True, rs2\<lparr>healthCheckRunning := False\<rparr>)))
     else (False, (handleHealthCheckFailure env now rs backendId)\<lparr>healthCheckRunning := False\<rparr>))"

text \<open>The awaited call: no other activity of the registry runs between start and finish.\<close>

definition checkBackendHealth :: "Env \<Rightarrow> nat \<Rightarrow> bool \<Rightarrow> Registry \<Rightarrow> string \<Rightarrow> bool \<times> Registry" where
  "checkBackendHealth env now healthy rs backendId =
    (case checkBackendHealthStart env now rs backendId of
       Finished r rs1 \<Rightarrow> (r, rs1)
     | Pending rs1 \<Rightarrow> checkBackendHealthFinish env now healthy rs1 backendId)"

text \<open>The un-awaited call, as the selection and the query make it.\<close>

definition triggerHealthCheck :: "Env \<Rightarrow> nat \<Rightarrow> Registry \<Rightarrow> string \<Rightarrow> Registry" where
  "triggerHealthCheck env now rs backendId =
    (case checkBackendHealthStart env now rs backendId of
       Finished r rs1 \<Rightarrow> rs1
     | Pending rs1 \<Rightarrow> rs1)"

subsection \<open>Error classification\<close>

text \<open>
  A thrown value is an \<open>Error\<close> with its message and its optional \<open>code\<close> property.
  A string is a list of characters of Latin-1, the 256 values of \<open>char\<close>; \<open>toLowerCase\<close> and
  \<open>includes\<close> (written \<open>includes'\<close>) are those of JavaScript there: the letters with a
  lower case are \<open>A\<close> to \<open>Z\<close> and the characters \<open>C0\<close> to \<open>DE\<close> except the multiplication
  sign \<open>D7\<close>.
\<close>

record JsError =
  message :: string
  code :: "string option"

definition upperCaseLetters :: string where
  "upperCaseLetters = ''ABCDEFGHIJKLMNOPQRSTUVWXYZ'' @
       [CHR 0xC0, CHR 0xC1, CHR 0xC2, CHR 0xC3, CHR 0xC4, CHR 0xC5, CHR 0xC6, CHR 0xC7,
        CHR 0xC8, CHR 0xC9, CHR 0xCA, CHR 0xCB, CHR 0xCC, CHR 0xCD, CHR 0xCE, CHR 0xCF,
        CHR 0xD0, CHR 0xD1, CHR 0xD2, CHR 0xD3, CHR 0xD4, CHR 0xD5, CHR 0xD6, CHR 0xD8,
        CHR 0xD9, CHR 0xDA, CHR 0xDB, CHR 0xDC, CHR 0xDD, CHR 0xDE]"

definition lowerCaseLetters :: string where
  "lowerCaseLetters = ''abcdefghijklmnopqrstuvwxyz'' @
       [CHR 0xE0, CHR 0xE1, CHR 0xE2, CHR 0xE3, CHR 0xE4, CHR 0xE5, CHR 0xE6, CHR 0xE7,
        CHR 0xE8, CHR 0xE9, CHR 0xEA, CHR 0xEB, CHR 0xEC, CHR 0xED, CHR 0xEE, CHR 0xEF,
        CHR 0xF0, CHR 0xF1, CHR 0xF2, CHR 0xF3, CHR 0xF4, CHR 0xF5, CHR 0xF6, CHR 0xF8,
        CHR 0xF9, CHR 0xFA, CHR 0xFB, CHR 0xFC, CHR 0xFD, CHR 0xFE]"

definition lowerChar :: "char \<Rightarrow> char" where
  "lowerChar c =
    (case map_of (zip upperCaseLetters lowerCaseLetters) c of
       Some l \<Rightarrow> l
     | None \<Rightarrow> c)"

definition toLowerCase :: "string \<Rightarrow> string" where
  "toLowerCase s = map lowerChar s"

fun startsWith :: "string \<Rightarrow> string \<Rightarrow> bool" where
  "startsWith s [] = True"
| "startsWith [] (p # ps) = False"
| "startsWith (c # cs) (p # ps) = (c = p \<and> startsWith cs ps)"

fun includes' :: "string \<Rightarrow> string \<Rightarrow> bool" where
  "includes' [] p = (p = [])"
| "includes' (c # cs) p = (startsWith (c # cs) p \<or> includes' cs p)"

definition transientErrorCodes :: "string list" where
  "transientErrorCodes =
    [''08000'', ''08003'', ''08006'', ''08001'', ''08004'', ''08007'', ''57P01'', ''57P02'',
     ''57P03'', ''53300'', ''53400'',
     ''55P03'', ''55006'', ''40001'', ''40P01'',
     ''53000'', ''53100'', ''53200'', ''54000'',
     ''P0001'', ''XX000'', ''XX001'']"

definition transientPatterns :: "string list" where
  "transientPatterns =
    [''connection'', ''timeout'', ''temporarily unavailable'', ''too many connections'',
     ''connection reset'', ''econnrefused'', ''etimedout'', ''connection terminated'',
     ''connection refused'', ''connection closed'', ''no connection'',
     ''network'', ''unreachable'', ''ehostunreach'', ''enetunreach'', ''network error'',
     ''network timeout'', ''network unreachable'', ''network connection'',
     ''too many clients'', ''max_connections'', ''connection limit'', ''server overloaded'',
     ''database is starting up'', ''database is shutting down'',
     ''try again'', ''retry'', ''temporarily'', ''overloaded'', ''temporary failure'',
     ''resource temporarily unavailable'', ''service unavailable'',
     ''compute node is starting'', ''compute node is restarting'',
     ''compute node is scaling'', ''connection pool is full'',
     ''database is currently not accepting connections'',
     ''the database system is starting up'',
     ''the database system is shutting down'']"

definition isTransientError :: "JsError \<Rightarrow> bool" where
  "isTransientError error =
    (let lowerErrorMessage = toLowerCase (message error);
         isTimeout = includes' lowerErrorMessage ''timeout'';
         isConnectionError = list_ex (\<lambda>pattern. includes' lowerErrorMessage pattern) transientPatterns;
         isDeadlockOrLockError = (includes' lowerErrorMessage ''deadlock'' \<or> includes' lowerErrorMessage ''lock'');
         hasTransientErrorCode =
           (case code error of
              None \<Rightarrow> False
            | Some errorCode \<Rightarrow> errorCode \<noteq> [] \<and> errorCode \<in> set transientErrorCodes)
     in isTimeout \<or> isConnectionError \<or> isDeadlockOrLockError \<or> hasTransientErrorCode)"

subsection \<open>Queries\<close>

text \<open>
  What lies outside the registry while a query runs. The calls of \<open>query\<close> suspend at the
  driver call and at the back-off delay; the suspension points of one call of \<open>query\<close> are
  numbered. \<open>driver k i\<close> is what the driver of store \<open>i\<close> answers at point \<open>k\<close> (for the mock
  store this is \<open>mockDatabase.query\<close>), \<open>interfere k\<close> is what the other activities of the
  process do to the registry during that suspension, \<open>clock k\<close> is the time there.
\<close>

datatype 'r DriverOutcome = Returned 'r | Threw JsError

record 'r World =
  driver :: "nat \<Rightarrow> string \<Rightarrow> 'r DriverOutcome"
  interfere :: "nat \<Rightarrow> Registry \<Rightarrow> Registry"
  clock :: "nat \<Rightarrow> nat"

text \<open>
  The \<open>DatabaseError\<close>s of \<open>query\<close>, by their message:
  \<open>No backend available for query\<close>, \<open>Selected backend \<dots> not found\<close>,
  \<open>Database query failed after \<dots> retries: \<dots>\<close>; \<open>Rejected\<close> is the error of the mock
  database, which the fallback lets through.
\<close>

datatype QueryError =
    NoBackendAvailable
  | BackendNotFound string
  | QueryFailed nat string
  | Rejected JsError

text \<open>What an observer of the drivers and the timers sees of one call.\<close>

datatype Action =
    Attempt string nat
  | Delay nat
  | Reselect "string option"
  | Fallback string

definition MAX_RETRIES :: nat where
  "MAX_RETRIES = 3"

definition RETRY_DELAY_MS :: nat where
  "RETRY_DELAY_MS = 500"

definition typeName :: "BackendType \<Rightarrow> string" where
  "typeName t = (case t of POSTGRES \<Rightarrow> ''postgres'' | MOCK \<Rightarrow> ''mock'' | FALLBACK \<Rightarrow> ''fallback'')"

text \<open>
  Lines 502 to 515: the selection when no store is current, and the lookup of the current
  store.
\<close>

definition queryEnter :: "Env \<Rightarrow> nat \<Rightarrow> Registry \<Rightarrow> (QueryError + BackendInstance) \<times> Registry" where
  "queryEnter env now rs =
    (let rs1 = (if \<not> truthy (currentBackendId rs)
                then snd (selectBackend (triggerHealthCheck env now) env now rs) else rs)
     in if \<not> truthy (currentBackendId rs1) then (Inl NoBackendAvailable, rs1)
        else
          (case getBackend rs1 (the (currentBackendId rs1)) of
             None \<Rightarrow> (Inl (BackendNotFound (the (currentBackendId rs1))), rs1)
           | Some backend \<Rightarrow> (Inr backend, setLastUsed (id' (config backend)) now rs1)))"

text \<open>
  Lines 554 to 558, the start of the \<open>catch\<close> block: the store is marked degraded and a
  health check is started without being awaited.
\<close>

definition queryFailed :: "Env \<Rightarrow> nat \<Rightarrow> Registry \<Rightarrow> BackendInstance \<Rightarrow> Registry" where
  "queryFailed env now rs backend =
    (let rs1 = updateBackendStatus rs (id' (config backend)) DEGRADED
     in triggerHealthCheck env now rs1 (id' (config backend)))"

text \<open>
  Lines 575 to 602, the \<open>catch\<close> block when it does not retry on the same store: it
  selects again and decides to retry on the newly selected store, to use the mock database,
  or to throw. Each decision carries what \<open>selectBackend\<close> returned.
\<close>

datatype CatchDecision =
    RetryNew "string option"
  | UseMock "string option" string
  | GiveUp "string option" QueryError

definition queryReselect :: "Env \<Rightarrow> nat \<Rightarrow> Registry \<Rightarrow> BackendInstance \<Rightarrow> JsError \<Rightarrow> nat \<Rightarrow> CatchDecision \<times> Registry" where
  "queryReselect env now rs backend error retryCount =
    (let (newBackendId, rs1) = selectBackend (triggerHealthCheck env now) env now rs
     in if truthy newBackendId \<and> newBackendId \<noteq> Some (id' (config backend))
        then (RetryNew newBackendId, rs1)
        else
          (let giveUp = (GiveUp newBackendId (QueryFailed retryCount (message error)), rs1)
           in if type' (config backend) \<noteq> MOCK \<and> \<not> disableMockFallback env then
                (if truthy (mockBackendId env) then
                   (case getBackend rs1 (the (mockBackendId env)) of
                      Some mockBackend \<Rightarrow>
                        if enabled (config mockBackend)
                        then (UseMock newBackendId (the (mockBackendId env)),
                              rs1\<lparr>currentBackendId := mockBackendId env\<rparr>)
                        else giveUp
                    | None \<Rightarrow> giveUp)
                 else giveUp)
              else giveUp))"

text \<open>
  The stores \<open>query\<close> has a driver for: a PostgreSQL store with a pool, and a mock store.
  For any other store it throws \<open>Unsupported backend type\<close> without calling anything.
\<close>

definition hasDriver :: "BackendInstance \<Rightarrow> bool" where
  "hasDriver backend =
    ((type' (config backend) = POSTGRES \<and> pool backend) \<or> type' (config backend) = MOCK)"

text \<open>
  \<open>query\<close>, started with \<open>retryCount\<close> at suspension point \<open>k\<close>. The recursion on the same
  store is bounded by \<open>MAX_RETRIES\<close>; nothing bounds the number of stores tried in turn, so
  \<open>fuel\<close> counts the calls \<open>this.query(text, params, 0)\<close> still allowed, and the result is
  \<open>None\<close> when they are used up. The query text and its parameters only reach the driver.
\<close>

function query ::
  "Env \<Rightarrow> 'r World \<Rightarrow> nat \<Rightarrow> nat \<Rightarrow> nat \<Rightarrow> Registry \<Rightarrow> (QueryError + 'r) option \<times> Action list \<times> Registry" where
  "query env w fuel retryCount k rs =
    (case queryEnter env (clock w k) rs of
       (Inl err, rs1) \<Rightarrow> (Some (Inl err), [], rs1)
     | (Inr backend, rs1) \<Rightarrow>
         (let bid = id' (config backend);
              called = hasDriver backend;
              outcome = (if called then driver w k bid
                         else Threw \<lparr>message = ''Unsupported backend type: '' @ typeName (type' (config backend)),
                                     code = None\<rparr>);
              attempt = (if called then [Attempt bid retryCount] else []);
              rs2 = (if called then interfere w k rs1 else rs1)
          in case outcome of
               Returned r \<Rightarrow> (Some (Inr r), attempt, rs2)
             | Threw error \<Rightarrow>
                 (let rs3 = queryFailed env (clock w (k + 1)) rs2 backend
                  in if isTransientError error \<and> retryCount < MAX_RETRIES then
                       (case query env w fuel (retryCount + 1) (k + 2) (interfere w (k + 1) rs3) of
                          (res, acts, rs4) \<Rightarrow>
                            (res, attempt @ [Delay (RETRY_DELAY_MS * 2 ^ retryCount)] @ acts, rs4))
                     else
                       (case queryReselect env (clock w (k + 1)) rs3 backend error retryCount of
                          (RetryNew newBackendId, rs4) \<Rightarrow>
                            (case fuel of
                               0 \<Rightarrow> (None, attempt @ [Reselect newBackendId], rs4)
                             | Suc fuel' \<Rightarrow>
                                 (case query env w fuel' 0 (k + 1) rs4 of
                                    (res, acts, rs5) \<Rightarrow> (res, attempt @ [Reselect newBackendId] @ acts, rs5)))
                        | (UseMock newBackendId m, rs4) \<Rightarrow>
                            (case driver w (k + 1) m of
                               Returned r \<Rightarrow>
                                 (Some (Inr r), attempt @ [Reselect newBackendId, Fallback m], rs4)
                             | Threw e \<Rightarrow>
                                 (Some (Inl (Rejected e)), attempt @ [Reselect newBackendId, Fallback m], rs4))
                        | (GiveUp newBackendId err, rs4) \<Rightarrow>
                            (Some (Inl err), attempt @ [Reselect newBackendId], rs4)))))"
  by pat_completeness auto
termination
  by (relation "measures [\<lambda>(env, w, fuel, retryCount, k, rs). fuel,
                          \<lambda>(env, w, fuel, retryCount, k, rs). MAX_RETRIES - retryCount]") auto

declare query.simps [simp del]

text \<open>
  Lines 560 to 602 again, as a function of the registry \<open>rs3\<close> that lines 554 to 558 leave:
  what a call of \<open>query\<close> whose attempt on \<open>backend\<close> threw \<open>error\<close> does from there.
\<close>

definition queryCatch ::
  "Env \<Rightarrow> 'r World \<Rightarrow> nat \<Rightarrow> nat \<Rightarrow> nat \<Rightarrow> BackendInstance \<Rightarrow> JsError \<Rightarrow> Registry \<Rightarrow>
   (QueryError + 'r) option \<times> Action list \<times> Registry" where
  "queryCatch env w fuel retryCount k backend error rs3 =
    (let attempt = (if hasDriver backend then [Attempt (id' (config backend)) retryCount] else [])
     in if isTransientError error \<and> retryCount < MAX_RETRIES then
          (case query env w fuel (retryCount + 1) (k + 2) (interfere w (k + 1) rs3) of
             (res, acts, rs4) \<Rightarrow>
               (res, attempt @ [Delay (RETRY_DELAY_MS * 2 ^ retryCount)] @ acts, rs4))
        else
          (case queryReselect env (clock w (k + 1)) rs3 backend error retryCount of
             (RetryNew newBackendId, rs4) \<Rightarrow>
               (case fuel of
                  0 \<Rightarrow> (None, attempt @ [Reselect newBackendId], rs4)
                | Suc fuel' \<Rightarrow>
                    (case query env w fuel' 0 (k + 1) rs4 of
                       (res, acts, rs5) \<Rightarrow> (res, attempt @ [Reselect newBackendId] @ acts, rs5)))
           | (UseMock newBackendId m, rs4) \<Rightarrow>
               (case driver w (k + 1) m of
                  Returned r \<Rightarrow>
                    (Some (Inr r), attempt @ [Reselect newBackendId, Fallback m], rs4)
                | Threw e \<Rightarrow>
                    (Some (Inl (Rejected e)), attempt @ [Reselect newBackendId, Fallback m], rs4))
           | (GiveUp newBackendId err, rs4) \<Rightarrow>
               (Some (Inl err), attempt @ [Reselect newBackendId], rs4)))"

subsection \<open>Management operations\<close>

text \<open>
  \<open>switchBackend\<close>; the health check is awaited, \<open>healthy\<close> is the answer of its probe
  when it runs one.
\<close>

definition switchBackend :: "Env \<Rightarrow> nat \<Rightarrow> bool \<Rightarrow> Registry \<Rightarrow> string \<Rightarrow> bool \<times> Registry" where
  "switchBackend env now healthy rs backendId =
    (case getBackend rs backendId of
       None \<Rightarrow> (False, rs)
     | Some backend \<Rightarrow>
         if \<not> enabled (config backend) then (False, rs)
         else
           (let (isHealthy, rs1) = checkBackendHealth env now healthy rs backendId
            in if \<not> isHealthy \<and> type' (config backend) \<noteq> MOCK then (False, rs1)
               else (True, setLastUsed backendId now (rs1\<lparr>currentBackendId := Some backendId\<rparr>))))"

definition setSelectionStrategy :: "Env \<Rightarrow> nat \<Rightarrow> Registry \<Rightarrow> SelectionStrategy \<Rightarrow> Registry" where
  "setSelectionStrategy env now rs strategy =
    snd (selectBackend (triggerHealthCheck env now) env now (rs\<lparr>selectionStrategy := strategy\<rparr>))"

definition setBackendEnabled :: "Env \<Rightarrow> nat \<Rightarrow> Registry \<Rightarrow> string \<Rightarrow> bool \<Rightarrow> bool \<times> Registry" where
  "setBackendEnabled env now rs backendId en =
    (case getBackend rs backendId of
       None \<Rightarrow> (False, rs)
     | Some backend \<Rightarrow>
         (let rs1 = modifyConfig backendId (\<lambda>c. c\<lparr>enabled := en\<rparr>) rs
          in if \<not> en \<and> currentBackendId rs1 = Some backendId
             then (True, snd (selectBackend (triggerHealthCheck env now) env now rs1))
             else (True, rs1)))"

subsection \<open>Construction\<close>

text \<open>\<open>Map.set\<close>: an existing key keeps its place.\<close>

fun setBackend :: "BackendInstance \<Rightarrow> BackendInstance list \<Rightarrow> BackendInstance list" where
  "setBackend x [] = [x]"
| "setBackend x (b # bs) = (if id' (config b) = id' (config x) then x # bs else b # setBackend x bs)"

text \<open>
  The constructor with \<open>initializeBackends\<close>, for the configured strategy: every enabled
  configuration gets an instance, with a pool when it is a PostgreSQL store with a
  non-empty connection string (creating a pool is taken not to throw), then a store is
  selected.
\<close>

definition initializeBackends :: "Env \<Rightarrow> SelectionStrategy \<Rightarrow> nat \<Rightarrow> Registry" where
  "initializeBackends env strategy now =
    (let bs = foldl (\<lambda>acc c.
                if \<not> enabled c then acc
                else setBackend \<lparr>config = c,
                                 pool = (type' c = POSTGRES \<and> truthy (connectionString c)),
                                 lastUsed = now\<rparr> acc) [] (configuredBackends env);
         rs0 = \<lparr>backends = bs, currentBackendId = None, selectionStrategy = strategy,
                roundRobinIndex = 0, initialized = True, healthCheckRunning = False\<rparr>
     in snd (selectBackend (triggerHealthCheck env now) env now rs0))"

subsection \<open>The registry as a transition system\<close>

text \<open>
  The activities of the process interleave at their suspension points. An event is one
  stretch of code that runs without suspension: a health check up to its probe (started by
  a timer, by the selection or by a failed query), the answer of the pending probe, the
  \<open>error\<close> event of a pool, the entry of \<open>query\<close> or \<open>getClient\<close> (which share their
  code), the start of their \<open>catch\<close> block and its re-selection, the commit of
  \<open>switchBackend\<close> after its health check, and the two setters.
\<close>

datatype Event =
    HealthCheckStarted nat string
  | ProbeAnswered nat string bool
  | PoolError string
  | QueryEntered nat
  | QueryFailedOn nat string
  | QueryReselected nat string JsError nat
  | SwitchCommitted nat string
  | StrategySet nat SelectionStrategy
  | EnabledSet nat string bool

fun step :: "Env \<Rightarrow> Registry \<Rightarrow> Event \<Rightarrow> Registry" where
  "step env rs (HealthCheckStarted now i) = triggerHealthCheck env now rs i"
| "step env rs (ProbeAnswered now i healthy) =
     (if healthCheckRunning rs then snd (checkBackendHealthFinish env now healthy rs i) else rs)"
| "step env rs (PoolError i) = updateBackendStatus rs i DEGRADED"
| "step env rs (QueryEntered now) = snd (queryEnter env now rs)"
| "step env rs (QueryFailedOn now i) =
     (case getBackend rs i of None \<Rightarrow> rs | Some backend \<Rightarrow> queryFailed env now rs backend)"
| "step env rs (QueryReselected now i error retryCount) =
     (case getBackend rs i of None \<Rightarrow> rs
      | Some backend \<Rightarrow> snd (queryReselect env now rs backend error retryCount))"
| "step env rs (SwitchCommitted now i) = setLastUsed i now (rs\<lparr>currentBackendId := Some i\<rparr>)"
| "step env rs (StrategySet now strategy) = setSelectionStrategy env now rs strategy"
| "step env rs (EnabledSet now i en) = snd (setBackendEnabled env now rs i en)"

definition run :: "Env \<Rightarrow> Registry \<Rightarrow> Event list \<Rightarrow> Registry" where
  "run env rs evs = foldl (step env) rs evs"

section \<open>Notions used in the statements\<close>

text \<open>
  \<open>c\<close> has the lowest priority number of \<open>cs\<close>, and is the first registered of those that
  have it.
\<close>

definition lowestPriority :: "BackendInstance \<Rightarrow> BackendInstance list \<Rightarrow> bool" where
  "lowestPriority c cs =
    (c \<in> set cs \<and> (\<forall>b\<in>set cs. priority (config c) \<le> priority (config b)) \<and>
     find (\<lambda>b. priority (config b) = priority (config c)) cs = Some c)"

definition pickedFrom :: "BackendInstance option \<Rightarrow> BackendInstance list \<Rightarrow> bool" where
  "pickedFrom r cs = (\<exists>c\<in>set cs. r = Some c \<and> lowestPriority c cs)"

text \<open>The selected id \<open>r\<close> is the id of the store of \<open>cs\<close> with the lowest priority number.\<close>

definition chosen :: "string option \<Rightarrow> BackendInstance list \<Rightarrow> bool" where
  "chosen r cs = (\<exists>c\<in>set cs. r = Some (id' (config c)) \<and> lowestPriority c cs)"

definition enabledBackends :: "Registry \<Rightarrow> BackendInstance list" where
  "enabledBackends rs = filter (\<lambda>b. enabled (config b)) (backends rs)"

definition mocksOf :: "BackendInstance list \<Rightarrow> BackendInstance list" where
  "mocksOf bs = filter (\<lambda>b. type' (config b) = MOCK) bs"

text \<open>The configuration of the store registered under \<open>k\<close>.\<close>

definition cfg :: "Registry \<Rightarrow> string \<Rightarrow> BackendConfig option" where
  "cfg rs k = map_option config (getBackend rs k)"

text \<open>
  What \<open>handleHealthCheckFailure\<close> does to the configuration of the store it is called on.
\<close>

definition failureStep :: "BackendConfig \<Rightarrow> BackendConfig" where
  "failureStep c =
    (let c1 = c\<lparr>failureCount := failureCount c + 1, successCount := 0\<rparr>
     in if maxFailures c1 \<le> failureCount c1 \<and> status c1 \<noteq> OFFLINE then c1\<lparr>status := OFFLINE\<rparr>
        else if status c1 = ONLINE then c1\<lparr>status := DEGRADED\<rparr>
        else c1)"

text \<open>
  A sequence of awaited health checks, each with its time, its store and the answer of its
  probe.
\<close>

definition recordOutcomes :: "Env \<Rightarrow> Registry \<Rightarrow> (nat \<times> string \<times> bool) list \<Rightarrow> Registry" where
  "recordOutcomes env rs os = foldl (\<lambda>r (now, backendId, healthy). snd (checkBackendHealth env now healthy r backendId)) rs os"

definition outcomesOn :: "string \<Rightarrow> (nat \<times> string \<times> bool) list \<Rightarrow> nat" where
  "outcomesOn X os = length (filter (\<lambda>(now, backendId, healthy). backendId = X) os)"

text \<open>Store k is current, registered, and has a driver.\<close>

definition serving :: "string \<Rightarrow> Registry \<Rightarrow> bool" where
  "serving k rs = (currentBackendId rs = Some k \<and>
     (case getBackend rs k of None \<Rightarrow> False | Some b \<Rightarrow> hasDriver b))"

text \<open>
  A health check is running, and store \<open>k\<close> has the configuration \<open>c\<close> up to its field
  \<open>enabled\<close>.
\<close>

definition probePending :: "string \<Rightarrow> BackendConfig \<Rightarrow> Registry \<Rightarrow> bool" where
  "probePending k c rs =
    (healthCheckRunning rs \<and>
     (cfg rs k = Some (c\<lparr>enabled := True\<rparr>) \<or> cfg rs k = Some (c\<lparr>enabled := False\<rparr>)))"

text \<open>At most one of the two counters of a configuration is not zero.\<close>

definition exclusive :: "BackendConfig \<Rightarrow> bool" where
  "exclusive c = (failureCount c = 0 \<or> successCount c = 0)"

definition countersExclusive :: "Registry \<Rightarrow> bool" where
  "countersExclusive rs = (\<forall>b\<in>set (backends rs). exclusive (config b))"

text \<open>
  The trace of a call, and the bound on its legs: \<open>attemptsWithin n as\<close> holds when the
  trace \<open>as\<close> has at most \<open>n\<close> attempts before its first selection and at most
  \<open>MAX_RETRIES + 1\<close> attempts between two selections and after the last one.
\<close>

definition traceOf :: "(QueryError + 'r) option \<times> Action list \<times> Registry \<Rightarrow> Action list" where
  "traceOf x = fst (snd x)"

fun attemptsWithin :: "nat \<Rightarrow> Action list \<Rightarrow> bool" where
  "attemptsWithin n [] = True"
| "attemptsWithin n (Attempt k r # as) = (0 < n \<and> attemptsWithin (n - 1) as)"
| "attemptsWithin n (Delay d # as) = attemptsWithin n as"
| "attemptsWithin n (Reselect x # as) = attemptsWithin (MAX_RETRIES + 1) as"
| "attemptsWithin n (Fallback m # as) = attemptsWithin n as"

text \<open>
  Stores and registries for the examples: \<open>store i t p st fc sc\<close> is an enabled store with
  id \<open>i\<close>, type \<open>t\<close>, priority \<open>p\<close>, status \<open>st\<close> and the counters \<open>fc\<close> and \<open>sc\<close>, the
  thresholds of the default configuration, and a pool when it is a PostgreSQL store.
\<close>

definition store :: "string \<Rightarrow> BackendType \<Rightarrow> int \<Rightarrow> BackendStatus \<Rightarrow> nat \<Rightarrow> nat \<Rightarrow> BackendInstance" where
  "store i t p st fc sc =
    \<lparr>config = \<lparr>id' = i, name = i, type' = t,
                connectionString = (if t = POSTGRES then Some (''postgres://'' @ i) else None),
                priority = p, status = st,
                lastChecked = None, failureCount = fc, maxFailures = 3, recoveryThreshold = 2,
                successCount = sc, healthCheckInterval = 30000, timeout = 10000, enabled = True\<rparr>,
      pool = (t = POSTGRES), lastUsed = 0\<rparr>"

definition registry :: "BackendInstance list \<Rightarrow> string option \<Rightarrow> SelectionStrategy \<Rightarrow> Registry" where
  "registry bs cur strategy =
    \<lparr>backends = bs, currentBackendId = cur, selectionStrategy = strategy, roundRobinIndex = 0,
      initialized = True, healthCheckRunning = False\<rparr>"

definition env0 :: Env where
  "env0 = \<lparr>configuredBackends = defaultBackends (Some ''postgres://neon'') None False,
           disableMockFallback = False\<rparr>"

definition rsC1 :: Registry where
  "rsC1 = registry [store ''replica'' POSTGRES 1 ONLINE 0 2, store ''primary'' POSTGRES 2 ONLINE 0 2]
            None PRIORITY"

definition rsW1 :: Registry where
  "rsW1 = registry [store ''primary'' POSTGRES 1 OFFLINE 3 0, store ''mock'' MOCK 999 OFFLINE 0 999]
            None PRIORITY"

definition rsC6 :: Registry where
  "rsC6 = registry [store ''primary'' POSTGRES 1 ONLINE 0 2, store ''mock'' MOCK 999 ONLINE 0 999]
            (Some ''primary'') ROUND_ROBIN"

definition rsW6 :: Registry where
  "rsW6 = registry [store ''primary'' POSTGRES 1 ONLINE 0 2, store ''backup'' POSTGRES 2 ONLINE 0 2,
                    store ''mock'' MOCK 999 DEGRADED 0 999]
            (Some ''primary'') ROUND_ROBIN"

definition rsW5 :: Registry where
  "rsW5 = registry [store ''primary'' POSTGRES 1 ONLINE 0 2, store ''backup'' POSTGRES 2 DEGRADED 0 1]
            (Some ''primary'') PRIORITY"

definition rsC7 :: Registry where
  "rsC7 = registry [store ''primary'' POSTGRES 1 DEGRADED 2 0, store ''mock'' MOCK 999 ONLINE 0 999]
            (Some ''primary'') PRIORITY"

definition rsW7 :: Registry where
  "rsW7 = registry [store ''primary'' POSTGRES 1 ONLINE 0 2, store ''backup'' POSTGRES 2 OFFLINE 3 0]
            (Some ''primary'') PRIORITY"

text \<open>A world without interference, for a given driver; two errors; an environment without mock fallback.\<close>

definition quiet :: "(nat \<Rightarrow> string \<Rightarrow> 'r DriverOutcome) \<Rightarrow> 'r World" where
  "quiet d = \<lparr>driver = d, interfere = (\<lambda>k rs. rs), clock = (\<lambda>k. 100 + k)\<rparr>"

definition syntaxError :: JsError where
  "syntaxError = \<lparr>message = ''syntax error'', code = Some ''42601''\<rparr>"

definition timeoutError :: JsError where
  "timeoutError = \<lparr>message = ''Query timeout after 10000ms'', code = None\<rparr>"

definition env1 :: Env where
  "env1 = \<lparr>configuredBackends = defaultBackends (Some ''postgres://neon'') None True,
           disableMockFallback = True\<rparr>"

definition rsC2 :: Registry where
  "rsC2 = registry [store ''primary'' POSTGRES 1 OFFLINE 3 0] (Some ''primary'') PRIORITY"

definition rsW2 :: Registry where
  "rsW2 = registry [store ''primary'' POSTGRES 1 ONLINE 0 2, store ''mock'' MOCK 999 ONLINE 0 999]
            (Some ''primary'') PRIORITY"

definition rsC8 :: Registry where
  "rsC8 = registry [store ''primary'' POSTGRES 1 DEGRADED 2 0] (Some ''primary'') PRIORITY"

definition rsC3 :: Registry where
  "rsC3 = registry [store ''primary'' POSTGRES 1 ONLINE 0 2] (Some ''primary'') PRIORITY"

definition rsC4 :: Registry where
  "rsC4 = snd (setBackendEnabled env1 0 rsC3 ''primary'' False)"

text \<open>
  A store with the threshold \<open>maxFailures = 0\<close>, and a PostgreSQL store without a pool (no
  connection string was configured for it).
\<close>

definition rsT0 :: Registry where
  "rsT0 = registry [(store ''primary'' POSTGRES 1 ONLINE 0 2)
                      \<lparr>config := (config (store ''primary'' POSTGRES 1 ONLINE 0 2))\<lparr>maxFailures := 0\<rparr>\<rparr>]
            (Some ''primary'') PRIORITY"

definition rsP :: Registry where
  "rsP = registry [(store ''primary'' POSTGRES 1 ONLINE 0 2)
                     \<lparr>config := (config (store ''primary'' POSTGRES 1 ONLINE 0 2))\<lparr>connectionString := None\<rparr>,
                      pool := False\<rparr>]
           (Some ''primary'') PRIORITY"

definition alwaysTimeout :: "nat World" where
  "alwaysTimeout = quiet (\<lambda>k i. Threw timeoutError)"

definition alwaysSyntaxError :: "nat World" where
  "alwaysSyntaxError = quiet (\<lambda>k i. Threw syntaxError)"

definition alwaysRows :: "nat World" where
  "alwaysRows = quiet (\<lambda>k i. Returned 42)"

section \<open>The mock database (src/config/mockDatabase.ts)\<close>

text \<open>
  The three interfaces of the sample data. Their fields carry the prefix \<open>e_\<close>, \<open>c_\<close> or
  \<open>d_\<close>; a \<open>Date\<close> is a natural number of milliseconds.
\<close>

record Employee =
  e_id :: string
  e_employee_id :: string
  e_name :: string
  e_trade :: string
  e_nationality :: string
  e_join_date :: nat
  e_date_of_birth :: "nat option"
  e_mobile_number :: string
  e_home_phone_number :: string
  e_email :: string
  e_company_id :: string
  e_company_name :: string
  e_created_at :: nat
  e_updated_at :: nat

record Company =
  c_id :: string
  c_name :: string
  c_location :: string
  c_created_at :: nat
  c_updated_at :: nat

record Document =
  d_id :: string
  d_employee_id :: string
  d_document_type :: string
  d_file_name :: string
  d_file_path :: string
  d_mime_type :: string
  d_expiry_date :: "nat option"
  d_created_at :: nat
  d_updated_at :: nat

record SampleData =
  employees :: "Employee list"
  companies :: "Company list"
  documents :: "Document list"

text \<open>\<open>sampleData\<close>, for the time \<open>loaded\<close> at which the module is evaluated.\<close>

definition sampleData :: "nat \<Rightarrow> SampleData" where
  "sampleData loaded =
    \<lparr>employees =
       [\<lparr>e_id = ''1'', e_employee_id = ''EMP001'', e_name = ''John Doe'', e_trade = ''Engineer'',
          e_nationality = ''USA'', e_join_date = 1673740800000, e_date_of_birth = Some 485395200000,
          e_mobile_number = ''+1234567890'', e_home_phone_number = ''+1987654321'',
          e_email = ''john.doe@example.com'', e_company_id = ''1'',
          e_company_name = ''Cub Technical Services'', e_created_at = loaded, e_updated_at = loaded\<rparr>,
        \<lparr>e_id = ''2'', e_employee_id = ''EMP002'', e_name = ''Jane Smith'', e_trade = ''Project Manager'',
          e_nationality = ''UK'', e_join_date = 1675987200000, e_date_of_birth = Some 650678400000,
          e_mobile_number = ''+1234567891'', e_home_phone_number = ''+1987654322'',
          e_email = ''jane.smith@example.com'', e_company_id = ''1'',
          e_company_name = ''Cub Technical Services'', e_created_at = loaded, e_updated_at = loaded\<rparr>,
        \<lparr>e_id = ''3'', e_employee_id = ''EMP003'', e_name = ''Ahmed Ali'', e_trade = ''Technician'',
          e_nationality = ''UAE'', e_join_date = 1677974400000, e_date_of_birth = Some 595123200000,
          e_mobile_number = ''+9715551234'', e_home_phone_number = ''+9715554321'',
          e_email = ''ahmed.ali@example.com'', e_company_id = ''2'',
          e_company_name = ''Cub Technical International'', e_created_at = loaded, e_updated_at = loaded\<rparr>],
     companies =
       [\<lparr>c_id = ''1'', c_name = ''Cub Technical Services'', c_location = ''Dubai, UAE'',
          c_created_at = loaded, c_updated_at = loaded\<rparr>,
        \<lparr>c_id = ''2'', c_name = ''Cub Technical International'', c_location = ''Abu Dhabi, UAE'',
          c_created_at = loaded, c_updated_at = loaded\<rparr>,
        \<lparr>c_id = ''3'', c_name = ''Cub Technical Maintenance'', c_location = ''Sharjah, UAE'',
          c_created_at = loaded, c_updated_at = loaded\<rparr>],
     documents =
       [\<lparr>d_id = ''1'', d_employee_id = ''1'', d_document_type = ''Passport'', d_file_name = ''passport.pdf'',
          d_file_path = ''/documents/1/passport.pdf'', d_mime_type = ''application/pdf'',
          d_expiry_date = Some 1831507200000, d_created_at = loaded, d_updated_at = loaded\<rparr>,
        \<lparr>d_id = ''2'', d_employee_id = ''1'', d_document_type = ''Visa'', d_file_name = ''visa.pdf'',
          d_file_path = ''/documents/1/visa.pdf'', d_mime_type = ''application/pdf'',
          d_expiry_date = Some 1705276800000, d_created_at = loaded, d_updated_at = loaded\<rparr>]\<rparr>"

text \<open>
  A query parameter (\<open>any\<close>) is \<open>undefined\<close>, \<open>null\<close>, a string or an integer. A row of a
  result is an employee, a company, a document, a count or the time. Of a \<open>QueryResult\<close>
  the fields \<open>oid\<close> and \<open>fields\<close> are always \<open>0\<close> and \<open>[]\<close> and are left out.
\<close>

datatype JsValue = JsUndefined | JsNull | JsString string | JsNumber int

datatype Row =
    EmployeeRow Employee
  | CompanyRow Company
  | DocumentRow Document
  | CountRow nat
  | NowRow nat

record QueryResult =
  rows :: "Row list"
  command :: string
  rowCount :: nat

text \<open>
  What a read handler throws: the \<open>TypeError\<close> of a method call on a value that has no
  such method.
\<close>

datatype MockError = TypeError

subsection \<open>Text matching\<close>

text \<open>
  The regular expressions of the read handlers all have the shape: a word, optional or
  required white space, possibly \<open>=\<close> and optional white space, then \<open>$\<close> and a captured
  run of digits, matched without regard to case at the leftmost position. The white space
  of \<open>\s\<close> among the 256 characters of \<open>char\<close> is tab to carriage return, the space and the
  no-break space; the digits of \<open>\d\<close> are \<open>0\<close> to \<open>9\<close>. No atom can start with what the one
  before it repeats, so matching greedily is matching.
\<close>

datatype Atom = Lit string | Ws0 | Ws1

definition isSpace :: "char \<Rightarrow> bool" where
  "isSpace c = (let n = (of_char c :: nat) in (9 \<le> n \<and> n \<le> 13) \<or> n = 32 \<or> n = 160)"

definition isDigit :: "char \<Rightarrow> bool" where
  "isDigit c = (let n = (of_char c :: nat) in 48 \<le> n \<and> n \<le> 57)"

fun matchAtoms :: "Atom list \<Rightarrow> string \<Rightarrow> string option" where
  "matchAtoms [] s = Some s"
| "matchAtoms (Lit p # as) s =
     (if length p \<le> length s \<and> toLowerCase (take (length p) s) = p
      then matchAtoms as (drop (length p) s) else None)"
| "matchAtoms (Ws0 # as) s = matchAtoms as (dropWhile isSpace s)"
| "matchAtoms (Ws1 # as) s =
     (case s of
        [] \<Rightarrow> None
      | c # cs \<Rightarrow> if isSpace c then matchAtoms as (dropWhile isSpace cs) else None)"

definition capture :: "Atom list \<Rightarrow> string \<Rightarrow> string option" where
  "capture as s =
    (case matchAtoms as s of
       None \<Rightarrow> None
     | Some rest \<Rightarrow> (case takeWhile isDigit rest of [] \<Rightarrow> None | d # ds \<Rightarrow> Some (d # ds)))"

fun match :: "Atom list \<Rightarrow> string \<Rightarrow> string option" where
  "match as [] = capture as []"
| "match as (c # cs) = (case capture as (c # cs) of Some ds \<Rightarrow> Some ds | None \<Rightarrow> match as cs)"

text \<open>\<open>/id\s*=\s*\$(\d+)/i\<close> and its like for another column; \<open>/limit\s+\$(\d+)/i\<close> and its like.\<close>

definition equalsParam :: "string \<Rightarrow> Atom list" where
  "equalsParam column = [Lit column, Ws0, Lit ''='', Ws0, Lit ''$'']"

definition spaceParam :: "string \<Rightarrow> Atom list" where
  "spaceParam word = [Lit word, Ws1, Lit ''$'']"

definition ilikeParam :: "Atom list" where
  "ilikeParam = [Lit ''ilike'', Ws0, Lit ''$'']"

text \<open>\<open>parseInt\<close> of a run of digits, and \<open>params[parseInt(m[1]) - 1]\<close>.\<close>

definition parseInt :: "string \<Rightarrow> nat" where
  "parseInt ds = foldl (\<lambda>n d. 10 * n + (of_char d - 48)) 0 ds"

definition paramAt :: "JsValue list \<Rightarrow> string \<Rightarrow> JsValue" where
  "paramAt params ds =
    (let paramIndex = int (parseInt ds) - 1
     in if 0 \<le> paramIndex \<and> paramIndex < int (length params) then params ! nat paramIndex
        else JsUndefined)"

definition jsTruthy :: "JsValue \<Rightarrow> bool" where
  "jsTruthy v = (case v of JsUndefined \<Rightarrow> False | JsNull \<Rightarrow> False
                 | JsString s \<Rightarrow> s \<noteq> [] | JsNumber n \<Rightarrow> n \<noteq> 0)"

text \<open>
  The page bounds are of type \<open>any\<close>: \<open>slice\<close> converts its two arguments with
  \<open>ToIntegerOrInfinity\<close>, and \<open>offset + limit\<close> is a sum of numbers, and the concatenation
  of the two operands as strings when one of them is a string. Two conversions of the
  language are parameters of the model: \<open>numberToString\<close> is \<open>ToString\<close> of a number,
  \<open>stringToInteger\<close> is \<open>ToIntegerOrInfinity\<close> of a string (zero for a string that is not
  a number).
\<close>

datatype JsInteger = MinusInfinity | Finite int | PlusInfinity

record Coercions =
  numberToString :: "int \<Rightarrow> string"
  stringToInteger :: "string \<Rightarrow> JsInteger"

definition toStringJs :: "Coercions \<Rightarrow> JsValue \<Rightarrow> string" where
  "toStringJs co v =
    (case v of JsUndefined \<Rightarrow> ''undefined'' | JsNull \<Rightarrow> ''null''
     | JsString s \<Rightarrow> s | JsNumber n \<Rightarrow> numberToString co n)"

text \<open>\<open>ToIntegerOrInfinity(v)\<close>: \<open>undefined\<close> is not a number, which gives zero; \<open>null\<close> is zero.\<close>

definition toInteger :: "Coercions \<Rightarrow> JsValue \<Rightarrow> JsInteger" where
  "toInteger co v =
    (case v of JsUndefined \<Rightarrow> Finite 0 | JsNull \<Rightarrow> Finite 0
     | JsString s \<Rightarrow> stringToInteger co s | JsNumber n \<Rightarrow> Finite n)"

text \<open>
  \<open>ToIntegerOrInfinity(a + b)\<close>: with no string among the operands, \<open>undefined\<close> makes the
  sum not a number.
\<close>

definition plusToInteger :: "Coercions \<Rightarrow> JsValue \<Rightarrow> JsValue \<Rightarrow> JsInteger" where
  "plusToInteger co a b =
    (case a of
       JsString s \<Rightarrow> stringToInteger co (s @ toStringJs co b)
     | JsNumber x \<Rightarrow>
         (case b of JsString t \<Rightarrow> stringToInteger co (numberToString co x @ t)
          | JsNumber y \<Rightarrow> Finite (x + y) | JsNull \<Rightarrow> Finite x | JsUndefined \<Rightarrow> Finite 0)
     | JsNull \<Rightarrow>
         (case b of JsString t \<Rightarrow> stringToInteger co (''null'' @ t)
          | JsNumber y \<Rightarrow> Finite y | JsNull \<Rightarrow> Finite 0 | JsUndefined \<Rightarrow> Finite 0)
     | JsUndefined \<Rightarrow>
         (case b of JsString t \<Rightarrow> stringToInteger co (''undefined'' @ t) | _ \<Rightarrow> Finite 0))"

text \<open>
  \<open>xs.slice(start, end)\<close> with both arguments given: a negative index counts from the end,
  and both are clamped to the list.
\<close>

definition relativeIndex :: "nat \<Rightarrow> JsInteger \<Rightarrow> nat" where
  "relativeIndex len i =
    (case i of
       MinusInfinity \<Rightarrow> 0
     | Finite r \<Rightarrow> (if r < 0 then nat (max (int len + r) 0) else nat (min r (int len)))
     | PlusInfinity \<Rightarrow> len)"

definition slice :: "'a list \<Rightarrow> JsInteger \<Rightarrow> JsInteger \<Rightarrow> 'a list" where
  "slice xs start end' =
    (let k = relativeIndex (length xs) start;
         final = relativeIndex (length xs) end'
     in take (final - k) (drop k xs))"

subsection \<open>The read handlers\<close>

definition getQueryLimit :: "string \<Rightarrow> JsValue list option \<Rightarrow> JsValue" where
  "getQueryLimit text params =
    (case (match (spaceParam ''limit'') text, params) of
       (Some ds, Some ps) \<Rightarrow> (if jsTruthy (paramAt ps ds) then paramAt ps ds else JsNumber 20)
     | _ \<Rightarrow> JsNumber 20)"

definition getQueryOffset :: "string \<Rightarrow> JsValue list option \<Rightarrow> JsValue" where
  "getQueryOffset text params =
    (case (match (spaceParam ''offset'') text, params) of
       (Some ds, Some ps) \<Rightarrow> (if jsTruthy (paramAt ps ds) then paramAt ps ds else JsNumber 0)
     | _ \<Rightarrow> JsNumber 0)"

text \<open>\<open>xs.slice(offset, offset + limit)\<close> with the page bounds of the query.\<close>

definition paginate :: "Coercions \<Rightarrow> string \<Rightarrow> JsValue list option \<Rightarrow> 'a list \<Rightarrow> 'a list" where
  "paginate co text params xs =
    (let limit = getQueryLimit text params;
         offset = getQueryOffset text params
     in slice xs (toInteger co offset) (plusToInteger co offset limit))"

definition selected :: "Row list \<Rightarrow> QueryResult" where
  "selected rs = \<lparr>rows = rs, command = ''SELECT'', rowCount = length rs\<rparr>"

text \<open>\<open>params[i].replace(/%/g, '').toLowerCase()\<close>: only a string has \<open>replace\<close>.\<close>

definition searchTermOf :: "JsValue \<Rightarrow> MockError + string" where
  "searchTermOf v =
    (case v of JsString s \<Rightarrow> Inr (toLowerCase (filter (\<lambda>c. c \<noteq> CHR ''%'') s)) | _ \<Rightarrow> Inl TypeError)"

definition handleEmployeeQuery ::
  "Coercions \<Rightarrow> SampleData \<Rightarrow> string \<Rightarrow> JsValue list option \<Rightarrow> MockError + QueryResult" where
  "handleEmployeeQuery co sd text params =
    (let lowerText = toLowerCase text;
         allEmployees = Inr (selected (map EmployeeRow (paginate co text params (employees sd))));
         bySearch =
           (case (if includes' lowerText ''where'' \<and> includes' lowerText ''ilike''
                  then match ilikeParam text else None, params) of
              (Some ds, Some ps) \<Rightarrow>
                (case searchTermOf (paramAt ps ds) of
                   Inl err \<Rightarrow> Inl err
                 | Inr searchTerm \<Rightarrow>
                     Inr (selected (map EmployeeRow
                       (paginate co text params
                          (filter (\<lambda>e. includes' (toLowerCase (e_name e)) searchTerm \<or>
                                        includes' (toLowerCase (e_employee_id e)) searchTerm \<or>
                                        includes' (toLowerCase (e_email e)) searchTerm \<or>
                                        includes' (toLowerCase (e_trade e)) searchTerm \<or>
                                        includes' (toLowerCase (e_nationality e)) searchTerm)
                             (employees sd))))))
            | _ \<Rightarrow> allEmployees);
         byCompany =
           (case (if includes' lowerText ''where'' \<and> includes' lowerText ''company_id =''
                  then match (equalsParam ''company_id'') text else None, params) of
              (Some ds, Some ps) \<Rightarrow>
                Inr (selected (map EmployeeRow
                  (paginate co text params
                     (filter (\<lambda>e. JsString (e_company_id e) = paramAt ps ds) (employees sd)))))
            | _ \<Rightarrow> bySearch);
         byId =
           (case (if includes' lowerText ''where'' \<and> includes' lowerText ''id =''
                  then match (equalsParam ''id'') text else None, params) of
              (Some ds, Some ps) \<Rightarrow>
                Inr (selected (case find (\<lambda>e. JsString (e_id e) = paramAt ps ds) (employees sd) of
                                 Some employee \<Rightarrow> [EmployeeRow employee] | None \<Rightarrow> []))
            | _ \<Rightarrow> byCompany)
     in if includes' lowerText ''count(*)''
        then Inr (selected [CountRow (length (employees sd))])
        else byId)"

definition handleCompanyQuery :: "SampleData \<Rightarrow> string \<Rightarrow> JsValue list option \<Rightarrow> QueryResult" where
  "handleCompanyQuery sd text params =
    (let lowerText = toLowerCase text
     in if includes' lowerText ''count(*)''
        then selected [CountRow (length (companies sd))]
        else
          (case (if includes' lowerText ''where'' \<and> includes' lowerText ''id =''
                 then match (equalsParam ''id'') text else None, params) of
             (Some ds, Some ps) \<Rightarrow>
               selected (case find (\<lambda>c. JsString (c_id c) = paramAt ps ds) (companies sd) of
                           Some company \<Rightarrow> [CompanyRow company] | None \<Rightarrow> [])
           | _ \<Rightarrow> selected (map CompanyRow (companies sd))))"

definition handleDocumentQuery :: "SampleData \<Rightarrow> string \<Rightarrow> JsValue list option \<Rightarrow> QueryResult" where
  "handleDocumentQuery sd text params =
    (let lowerText = toLowerCase text;
         byEmployee =
           (case (if includes' lowerText ''where'' \<and> includes' lowerText ''employee_id =''
                  then match (equalsParam ''employee_id'') text else None, params) of
              (Some ds, Some ps) \<Rightarrow>
                selected (map DocumentRow
                  (filter (\<lambda>d. JsString (d_employee_id d) = paramAt ps ds) (documents sd)))
            | _ \<Rightarrow> selected (map DocumentRow (documents sd)))
     in if includes' lowerText ''count(*)''
        then selected [CountRow (length (documents sd))]
        else
          (case (if includes' lowerText ''where'' \<and> includes' lowerText ''id =''
                 then match (equalsParam ''id'') text else None, params) of
             (Some ds, Some ps) \<Rightarrow>
               selected (case find (\<lambda>d. JsString (d_id d) = paramAt ps ds) (documents sd) of
                           Some document \<Rightarrow> [DocumentRow document] | None \<Rightarrow> [])
           | _ \<Rightarrow> byEmployee))"

subsection \<open>The dispatcher\<close>

text \<open>
  The nine handlers of INSERT, UPDATE and DELETE are the only code that assigns to
  \<open>sampleData\<close>. They are not modelled: \<open>mockQuery\<close> takes them as the parameter \<open>h\<close>, each
  a function of the time, the query and the data that returns a result or an error, and
  the new data.
\<close>

type_synonym WriteHandler =
  "nat \<Rightarrow> string \<Rightarrow> JsValue list option \<Rightarrow> SampleData \<Rightarrow> (MockError + QueryResult) \<times> SampleData"

record WriteHandlers =
  handleEmployeeInsert :: WriteHandler
  handleCompanyInsert :: WriteHandler
  handleDocumentInsert :: WriteHandler
  handleEmployeeUpdate :: WriteHandler
  handleCompanyUpdate :: WriteHandler
  handleDocumentUpdate :: WriteHandler
  handleEmployeeDelete :: WriteHandler
  handleCompanyDelete :: WriteHandler
  handleDocumentDelete :: WriteHandler

definition emptyResult :: QueryResult where
  "emptyResult = \<lparr>rows = [], command = [], rowCount = 0\<rparr>"

text \<open>\<open>mockDb.query\<close> at time \<open>now\<close> on the data \<open>sd\<close>: its result or the error it throws, and the data after it.\<close>

definition mockQuery ::
  "Coercions \<Rightarrow> WriteHandlers \<Rightarrow> nat \<Rightarrow> string \<Rightarrow> JsValue list option \<Rightarrow> SampleData \<Rightarrow>
   (MockError + QueryResult) \<times> SampleData" where
  "mockQuery co h now text params sd =
    (let lowerText = toLowerCase text
     in if includes' lowerText ''select'' then
          (if includes' lowerText ''employees'' then (handleEmployeeQuery co sd text params, sd)
           else if includes' lowerText ''companies'' then (Inr (handleCompanyQuery sd text params), sd)
           else if includes' lowerText ''documents'' then (Inr (handleDocumentQuery sd text params), sd)
           else if includes' lowerText ''now()'' then (Inr (selected [NowRow now]), sd)
           else (Inr emptyResult, sd))
        else if includes' lowerText ''insert'' then
          (if includes' lowerText ''employees'' then handleEmployeeInsert h now text params sd
           else if includes' lowerText ''companies'' then handleCompanyInsert h now text params sd
           else if includes' lowerText ''documents'' then handleDocumentInsert h now text params sd
           else (Inr emptyResult, sd))
        else if includes' lowerText ''update'' then
          (if includes' lowerText ''employees'' then handleEmployeeUpdate h now text params sd
           else if includes' lowerText ''companies'' then handleCompanyUpdate h now text params sd
           else if includes' lowerText ''documents'' then handleDocumentUpdate h now text params sd
           else (Inr emptyResult, sd))
        else if includes' lowerText ''delete'' then
          (if includes' lowerText ''employees'' then handleEmployeeDelete h now text params sd
           else if includes' lowerText ''companies'' then handleCompanyDelete h now text params sd
           else if includes' lowerText ''documents'' then handleDocumentDelete h now text params sd
           else (Inr emptyResult, sd))
        else (Inr emptyResult, sd))"

text \<open>A sequence of calls of \<open>mockDb.query\<close>, each with its time, its text and its parameters.\<close>

definition runQueries ::
  "Coercions \<Rightarrow> WriteHandlers \<Rightarrow> SampleData \<Rightarrow> (nat \<times> string \<times> JsValue list option) list \<Rightarrow> SampleData" where
  "runQueries co h sd qs = foldl (\<lambda>d (now, text, params). snd (mockQuery co h now text params d)) sd qs"

text \<open>
  The query of \<open>EmployeeModel.getAll\<close> (src/models/employee.ts), which reads all employees,
  and write handlers that change nothing.
\<close>

definition getAllText :: string where
  "getAllText = ''SELECT e.*, c.name as company_name FROM employees e LEFT JOIN companies c ON e.company_id = c.id ORDER BY e.name ASC LIMIT $1 OFFSET $2''"

definition idle :: WriteHandler where
  "idle now text params sd = (Inr emptyResult, sd)"

definition idleHandlers :: WriteHandlers where
  "idleHandlers =
    \<lparr>handleEmployeeInsert = idle, handleCompanyInsert = idle, handleDocumentInsert = idle,
      handleEmployeeUpdate = idle, handleCompanyUpdate = idle, handleDocumentUpdate = idle,
      handleEmployeeDelete = idle, handleCompanyDelete = idle, handleDocumentDelete = idle\<rparr>"
section \<open>Evaluation of the examples\<close>

lemma lowerChar_eval:
  "lowerChar c =
    (case map_of
       [(CHR ''A'', CHR ''a''), (CHR ''B'', CHR ''b''), (CHR ''C'', CHR ''c''), (CHR ''D'', CHR ''d''),
        (CHR ''E'', CHR ''e''), (CHR ''F'', CHR ''f''), (CHR ''G'', CHR ''g''), (CHR ''H'', CHR ''h''),
        (CHR ''I'', CHR ''i''), (CHR ''J'', CHR ''j''), (CHR ''K'', CHR ''k''), (CHR ''L'', CHR ''l''),
        (CHR ''M'', CHR ''m''), (CHR ''N'', CHR ''n''), (CHR ''O'', CHR ''o''), (CHR ''P'', CHR ''p''),
        (CHR ''Q'', CHR ''q''), (CHR ''R'', CHR ''r''), (CHR ''S'', CHR ''s''), (CHR ''T'', CHR ''t''),
        (CHR ''U'', CHR ''u''), (CHR ''V'', CHR ''v''), (CHR ''W'', CHR ''w''), (CHR ''X'', CHR ''x''),
        (CHR ''Y'', CHR ''y''), (CHR ''Z'', CHR ''z''), (CHR 0xC0, CHR 0xE0), (CHR 0xC1, CHR 0xE1),
        (CHR 0xC2, CHR 0xE2), (CHR 0xC3, CHR 0xE3), (CHR 0xC4, CHR 0xE4), (CHR 0xC5, CHR 0xE5),
        (CHR 0xC6, CHR 0xE6), (CHR 0xC7, CHR 0xE7), (CHR 0xC8, CHR 0xE8), (CHR 0xC9, CHR 0xE9),
        (CHR 0xCA, CHR 0xEA), (CHR 0xCB, CHR 0xEB), (CHR 0xCC, CHR 0xEC), (CHR 0xCD, CHR 0xED),
        (CHR 0xCE, CHR 0xEE), (CHR 0xCF, CHR 0xEF), (CHR 0xD0, CHR 0xF0), (CHR 0xD1, CHR 0xF1),
        (CHR 0xD2, CHR 0xF2), (CHR 0xD3, CHR 0xF3), (CHR 0xD4, CHR 0xF4), (CHR 0xD5, CHR 0xF5),
        (CHR 0xD6, CHR 0xF6), (CHR 0xD8, CHR 0xF8), (CHR 0xD9, CHR 0xF9), (CHR 0xDA, CHR 0xFA),
        (CHR 0xDB, CHR 0xFB), (CHR 0xDC, CHR 0xFC), (CHR 0xDD, CHR 0xFD), (CHR 0xDE, CHR 0xFE)] c of
       Some l \<Rightarrow> l
     | None \<Rightarrow> c)"
  by (simp add: lowerChar_def upperCaseLetters_def lowerCaseLetters_def)

lemma lowerChar_ascii:
  "lowerChar CHR '' '' = CHR '' ''" "lowerChar CHR ''!'' = CHR ''!''"
  "lowerChar CHR ''#'' = CHR ''#''" "lowerChar CHR ''$'' = CHR ''$''"
  "lowerChar CHR ''%'' = CHR ''%''" "lowerChar CHR ''&'' = CHR ''&''"
  "lowerChar CHR ''('' = CHR ''(''" "lowerChar CHR '')'' = CHR '')''"
  "lowerChar CHR ''*'' = CHR ''*''" "lowerChar CHR ''+'' = CHR ''+''"
  "lowerChar CHR '','' = CHR '',''" "lowerChar CHR ''-'' = CHR ''-''"
  "lowerChar CHR ''.'' = CHR ''.''" "lowerChar CHR ''/'' = CHR ''/''"
  "lowerChar CHR ''0'' = CHR ''0''" "lowerChar CHR ''1'' = CHR ''1''"
  "lowerChar CHR ''2'' = CHR ''2''" "lowerChar CHR ''3'' = CHR ''3''"
  "lowerChar CHR ''4'' = CHR ''4''" "lowerChar CHR ''5'' = CHR ''5''"
  "lowerChar CHR ''6'' = CHR ''6''" "lowerChar CHR ''7'' = CHR ''7''"
  "lowerChar CHR ''8'' = CHR ''8''" "lowerChar CHR ''9'' = CHR ''9''"
  "lowerChar CHR '':'' = CHR '':''" "lowerChar CHR '';'' = CHR '';''"
  "lowerChar CHR ''<'' = CHR ''<''" "lowerChar CHR ''='' = CHR ''=''"
  "lowerChar CHR ''>'' = CHR ''>''" "lowerChar CHR ''?'' = CHR ''?''"
  "lowerChar CHR ''@'' = CHR ''@''" "lowerChar CHR ''A'' = CHR ''a''"
  "lowerChar CHR ''B'' = CHR ''b''" "lowerChar CHR ''C'' = CHR ''c''"
  "lowerChar CHR ''D'' = CHR ''d''" "lowerChar CHR ''E'' = CHR ''e''"
  "lowerChar CHR ''F'' = CHR ''f''" "lowerChar CHR ''G'' = CHR ''g''"
  "lowerChar CHR ''H'' = CHR ''h''" "lowerChar CHR ''I'' = CHR ''i''"
  "lowerChar CHR ''J'' = CHR ''j''" "lowerChar CHR ''K'' = CHR ''k''"
  "lowerChar CHR ''L'' = CHR ''l''" "lowerChar CHR ''M'' = CHR ''m''"
  "lowerChar CHR ''N'' = CHR ''n''" "lowerChar CHR ''O'' = CHR ''o''"
  "lowerChar CHR ''P'' = CHR ''p''" "lowerChar CHR ''Q'' = CHR ''q''"
  "lowerChar CHR ''R'' = CHR ''r''" "lowerChar CHR ''S'' = CHR ''s''"
  "lowerChar CHR ''T'' = CHR ''t''" "lowerChar CHR ''U'' = CHR ''u''"
  "lowerChar CHR ''V'' = CHR ''v''" "lowerChar CHR ''W'' = CHR ''w''"
  "lowerChar CHR ''X'' = CHR ''x''" "lowerChar CHR ''Y'' = CHR ''y''"
  "lowerChar CHR ''Z'' = CHR ''z''" "lowerChar CHR ''['' = CHR ''[''"
  "lowerChar CHR '']'' = CHR '']''" "lowerChar CHR ''^'' = CHR ''^''"
  "lowerChar CHR ''_'' = CHR ''_''" "lowerChar CHR ''a'' = CHR ''a''"
  "lowerChar CHR ''b'' = CHR ''b''" "lowerChar CHR ''c'' = CHR ''c''"
  "lowerChar CHR ''d'' = CHR ''d''" "lowerChar CHR ''e'' = CHR ''e''"
  "lowerChar CHR ''f'' = CHR ''f''" "lowerChar CHR ''g'' = CHR ''g''"
  "lowerChar CHR ''h'' = CHR ''h''" "lowerChar CHR ''i'' = CHR ''i''"
  "lowerChar CHR ''j'' = CHR ''j''" "lowerChar CHR ''k'' = CHR ''k''"
  "lowerChar CHR ''l'' = CHR ''l''" "lowerChar CHR ''m'' = CHR ''m''"
  "lowerChar CHR ''n'' = CHR ''n''" "lowerChar CHR ''o'' = CHR ''o''"
  "lowerChar CHR ''p'' = CHR ''p''" "lowerChar CHR ''q'' = CHR ''q''"
  "lowerChar CHR ''r'' = CHR ''r''" "lowerChar CHR ''s'' = CHR ''s''"
  "lowerChar CHR ''t'' = CHR ''t''" "lowerChar CHR ''u'' = CHR ''u''"
  "lowerChar CHR ''v'' = CHR ''v''" "lowerChar CHR ''w'' = CHR ''w''"
  "lowerChar CHR ''x'' = CHR ''x''" "lowerChar CHR ''y'' = CHR ''y''"
  "lowerChar CHR ''z'' = CHR ''z''" "lowerChar CHR ''{'' = CHR ''{''"
  "lowerChar CHR ''|'' = CHR ''|''" "lowerChar CHR ''}'' = CHR ''}''"
  "lowerChar CHR ''~'' = CHR ''~''"
  by (simp_all add: lowerChar_eval)

lemma syntaxError_not_transient: "\<not> isTransientError syntaxError"
  by (simp add: isTransientError_def syntaxError_def toLowerCase_def lowerChar_ascii
      transientPatterns_def transientErrorCodes_def)

lemma timeoutError_transient: "isTransientError timeoutError"
  by (simp add: isTransientError_def timeoutError_def toLowerCase_def lowerChar_ascii)

lemmas eval_defs = queryEnter_def queryFailed_def queryReselect_def truthy_def hasDriver_def
  getBackend_def setLastUsed_def updateBackendStatus_def modifyConfig_def
  triggerHealthCheck_def checkBackendHealthStart_def selectBackend_def selectByPriority_def
  withStatus_def isPrimaryPostgres_def byPriority_def mockBackendId_def
  registry_def store_def quiet_def MAX_RETRIES_def RETRY_DELAY_MS_def Let_def

lemma message_timeoutError: "message timeoutError = ''Query timeout after 10000ms''"
  by (simp add: timeoutError_def)

lemma message_syntaxError: "message syntaxError = ''syntax error''"
  by (simp add: syntaxError_def)

section \<open>Properties of the selection\<close>

lemma filter_Cons_find: "filter P xs = c # ys \<Longrightarrow> find P xs = Some c"
  by (induction xs) (auto split: if_splits)

lemma byPriority_Nil [simp]: "(byPriority cs = []) = (cs = [])"
  by (cases cs) (auto simp: byPriority_def)

lemma byPriority_Cons:
  assumes "byPriority cs = c # rest"
  shows "lowestPriority c cs"
proof -
  let ?f = "\<lambda>b. priority (config b)"
  have s: "sort_key ?f cs = c # rest" using assms by (simp add: byPriority_def)
  have "set (sort_key ?f cs) = set cs" by simp
  with s have mem: "c \<in> set cs" and sub: "set cs = insert c (set rest)" by auto
  have "sorted (map ?f (sort_key ?f cs))" by (rule sorted_sort_key)
  with s have le: "\<forall>b\<in>set rest. ?f c \<le> ?f b" by simp
  have "filter (\<lambda>y. ?f y = ?f c) cs = filter (\<lambda>y. ?f y = ?f c) (sort_key ?f cs)"
    by (simp add: sort_key_stable)
  also have "\<dots> = c # filter (\<lambda>y. ?f y = ?f c) rest" using s by simp
  finally have "find (\<lambda>y. ?f y = ?f c) cs = Some c" by (rule filter_Cons_find)
  with mem sub le show ?thesis by (auto simp: lowestPriority_def)
qed

lemma byPriority_picked: "byPriority cs = c # rest \<Longrightarrow> pickedFrom (Some c) cs"
  using byPriority_Cons[of cs c rest] by (auto simp: pickedFrom_def lowestPriority_def)

lemma list_case_byPriority:
  "(case byPriority cs of [] \<Rightarrow> a | c # x \<Rightarrow> f c) = (if cs = [] then a else f (hd (byPriority cs)))"
proof (cases "byPriority cs")
  case Nil
  moreover from Nil have "cs = []" by simp
  ultimately show ?thesis by (simp del: byPriority_Nil)
next
  case (Cons c x)
  then have "cs \<noteq> []" by (auto simp: byPriority_def)
  with Cons show ?thesis by simp
qed

lemma hd_byPriority_picked: "cs \<noteq> [] \<Longrightarrow> pickedFrom (Some (hd (byPriority cs))) cs"
  by (cases "byPriority cs") (auto dest: byPriority_picked)

lemma sbp_1: "filter isPrimaryPostgres (withStatus ONLINE bs) \<noteq> [] \<Longrightarrow>
   pickedFrom (fst (selectByPriority chk env rs bs)) (filter isPrimaryPostgres (withStatus ONLINE bs))"
  by (simp add: selectByPriority_def Let_def list_case_byPriority hd_byPriority_picked)

lemma sbp_2: "filter isPrimaryPostgres (withStatus ONLINE bs) = [] \<Longrightarrow> withStatus ONLINE bs \<noteq> [] \<Longrightarrow>
   pickedFrom (fst (selectByPriority chk env rs bs)) (withStatus ONLINE bs)"
  by (simp add: selectByPriority_def Let_def list_case_byPriority hd_byPriority_picked)

lemma sbp_3: "withStatus ONLINE bs = [] \<Longrightarrow> filter isPrimaryPostgres (withStatus DEGRADED bs) \<noteq> [] \<Longrightarrow>
   pickedFrom (fst (selectByPriority chk env rs bs)) (filter isPrimaryPostgres (withStatus DEGRADED bs))"
  by (simp add: selectByPriority_def Let_def list_case_byPriority hd_byPriority_picked)

lemma sbp_4: "withStatus ONLINE bs = [] \<Longrightarrow> filter isPrimaryPostgres (withStatus DEGRADED bs) = [] \<Longrightarrow>
   withStatus DEGRADED bs \<noteq> [] \<Longrightarrow>
   pickedFrom (fst (selectByPriority chk env rs bs)) (withStatus DEGRADED bs)"
  by (simp add: selectByPriority_def Let_def list_case_byPriority hd_byPriority_picked)

lemma sbp_5: "withStatus ONLINE bs = [] \<Longrightarrow> withStatus DEGRADED bs = [] \<Longrightarrow>
   withStatus UNKNOWN bs \<noteq> [] \<Longrightarrow>
   pickedFrom (fst (selectByPriority chk env rs bs)) (withStatus UNKNOWN bs)"
  by (simp add: selectByPriority_def Let_def list_case_byPriority hd_byPriority_picked)

lemma sbp_6: "withStatus ONLINE bs = [] \<Longrightarrow> withStatus DEGRADED bs = [] \<Longrightarrow>
   withStatus UNKNOWN bs = [] \<Longrightarrow> \<not> disableMockFallback env \<Longrightarrow> mocksOf bs \<noteq> [] \<Longrightarrow>
   fst (selectByPriority chk env rs bs) = find (\<lambda>b. type' (config b) = MOCK) bs"
  unfolding mocksOf_def
  by (cases "filter (\<lambda>b. type' (config b) = MOCK) bs")
     (simp_all add: selectByPriority_def Let_def list_case_byPriority filter_Cons_find)

lemma sbp_7: "withStatus ONLINE bs = [] \<Longrightarrow> withStatus DEGRADED bs = [] \<Longrightarrow>
   withStatus UNKNOWN bs = [] \<Longrightarrow> disableMockFallback env \<or> mocksOf bs = [] \<Longrightarrow>
   withStatus OFFLINE bs \<noteq> [] \<Longrightarrow>
   pickedFrom (fst (selectByPriority chk env rs bs)) (withStatus OFFLINE bs)"
  unfolding mocksOf_def
  by (auto simp add: selectByPriority_def Let_def list_case_byPriority hd_byPriority_picked)

lemma statuses_exhaust: "withStatus ONLINE bs = [] \<Longrightarrow> withStatus DEGRADED bs = [] \<Longrightarrow>
   withStatus UNKNOWN bs = [] \<Longrightarrow> withStatus OFFLINE bs = [] \<Longrightarrow> bs = []"
proof (cases bs)
  case Nil then show ?thesis by simp
next
  case (Cons b bs')
  assume a: "withStatus ONLINE bs = []" "withStatus DEGRADED bs = []"
    "withStatus UNKNOWN bs = []" "withStatus OFFLINE bs = []"
  show ?thesis using a Cons by (cases "status (config b)") (simp_all add: withStatus_def)
qed

lemma pickedFrom_Some: "pickedFrom r cs \<Longrightarrow> \<exists>c. r = Some c"
  by (auto simp: pickedFrom_def)

lemma sbp_Some:
  assumes "bs \<noteq> []"
  shows "\<exists>c. fst (selectByPriority chk env rs bs) = Some c"
proof -
  let ?r = "fst (selectByPriority chk env rs bs)"
  consider (a) "filter isPrimaryPostgres (withStatus ONLINE bs) \<noteq> []"
    | (b) "filter isPrimaryPostgres (withStatus ONLINE bs) = []" "withStatus ONLINE bs \<noteq> []"
    | (c) "withStatus ONLINE bs = []" "filter isPrimaryPostgres (withStatus DEGRADED bs) \<noteq> []"
    | (d) "withStatus ONLINE bs = []" "filter isPrimaryPostgres (withStatus DEGRADED bs) = []"
          "withStatus DEGRADED bs \<noteq> []"
    | (e) "withStatus ONLINE bs = []" "withStatus DEGRADED bs = []" "withStatus UNKNOWN bs \<noteq> []"
    | (f) "withStatus ONLINE bs = []" "withStatus DEGRADED bs = []" "withStatus UNKNOWN bs = []"
          "\<not> disableMockFallback env" "mocksOf bs \<noteq> []"
    | (g) "withStatus ONLINE bs = []" "withStatus DEGRADED bs = []" "withStatus UNKNOWN bs = []"
          "disableMockFallback env \<or> mocksOf bs = []" "withStatus OFFLINE bs \<noteq> []"
    using statuses_exhaust[of bs] assms by blast
  then show ?thesis
  proof cases
    case a then show ?thesis using sbp_1 pickedFrom_Some by blast
  next
    case b then show ?thesis using sbp_2 pickedFrom_Some by blast
  next
    case c then show ?thesis using sbp_3 pickedFrom_Some by blast
  next
    case d then show ?thesis using sbp_4 pickedFrom_Some by blast
  next
    case e then show ?thesis using sbp_5 pickedFrom_Some by blast
  next
    case f
    then obtain m ms where "filter (\<lambda>b. type' (config b) = MOCK) bs = m # ms"
      by (cases "filter (\<lambda>b. type' (config b) = MOCK) bs") (auto simp: mocksOf_def)
    then have "find (\<lambda>b. type' (config b) = MOCK) bs = Some m" by (rule filter_Cons_find)
    with f show ?thesis using sbp_6[of bs env chk rs] by simp
  next
    case g then show ?thesis using sbp_7 pickedFrom_Some by blast
  qed
qed

lemma selectBackend_PRIORITY_fst:
  assumes "selectionStrategy rs = PRIORITY"
  shows "fst (selectBackend chk env now rs) =
     (if enabledBackends rs = [] then None
      else map_option (\<lambda>b. id' (config b)) (fst (selectByPriority chk env rs (enabledBackends rs))))"
proof (cases "enabledBackends rs = []")
  case True
  then show ?thesis by (simp add: selectBackend_def enabledBackends_def)
next
  case False
  then obtain c where c: "fst (selectByPriority chk env rs (enabledBackends rs)) = Some c"
    using sbp_Some by blast
  then obtain rs1 where "selectByPriority chk env rs (enabledBackends rs) = (Some c, rs1)"
    by (cases "selectByPriority chk env rs (enabledBackends rs)") auto
  with False assms c show ?thesis
    by (simp add: selectBackend_def enabledBackends_def)
qed

lemma pickedFrom_chosen: "pickedFrom r cs \<Longrightarrow> chosen (map_option (\<lambda>b. id' (config b)) r) cs"
  by (auto simp: pickedFrom_def chosen_def)

text \<open>
  C1, as amended. Under the strategy PRIORITY, \<open>selectBackend\<close> returns, over the enabled
  stores: the ONLINE PostgreSQL store with id \<open>primary\<close> when there is one, whatever its
  priority number; otherwise the ONLINE store with the lowest priority number (the first
  registered among equals, a mock store like any other); otherwise the same two steps over
  the DEGRADED stores; otherwise the UNKNOWN store with the lowest priority number;
  otherwise, unless the mock fallback is disabled, the first registered mock store, before
  any OFFLINE store; otherwise the OFFLINE store with the lowest priority number; and no
  store exactly when no store is enabled.
\<close>

theorem selectBackend_priority_order:
  assumes "selectionStrategy rs = PRIORITY"
  shows "let bs = enabledBackends rs;
             r = fst (selectBackend chk env now rs)
         in (if filter isPrimaryPostgres (withStatus ONLINE bs) \<noteq> []
               then chosen r (filter isPrimaryPostgres (withStatus ONLINE bs))
             else if withStatus ONLINE bs \<noteq> [] then chosen r (withStatus ONLINE bs)
             else if filter isPrimaryPostgres (withStatus DEGRADED bs) \<noteq> []
               then chosen r (filter isPrimaryPostgres (withStatus DEGRADED bs))
             else if withStatus DEGRADED bs \<noteq> [] then chosen r (withStatus DEGRADED bs)
             else if withStatus UNKNOWN bs \<noteq> [] then chosen r (withStatus UNKNOWN bs)
             else if \<not> disableMockFallback env \<and> mocksOf bs \<noteq> []
               then r = Some (id' (config (hd (mocksOf bs))))
             else if withStatus OFFLINE bs \<noteq> [] then chosen r (withStatus OFFLINE bs)
             else r = None \<and> bs = [])"
proof -
  let ?bs = "enabledBackends rs"
  let ?p = "fst (selectByPriority chk env rs ?bs)"
  let ?r = "fst (selectBackend chk env now rs)"
  have r: "?bs \<noteq> [] \<Longrightarrow> ?r = map_option (\<lambda>b. id' (config b)) ?p"
    using selectBackend_PRIORITY_fst[OF assms] by simp
  have ne: "\<And>st. withStatus st ?bs \<noteq> [] \<Longrightarrow> ?bs \<noteq> []" by (auto simp: withStatus_def)
  have ne': "\<And>st. filter isPrimaryPostgres (withStatus st ?bs) \<noteq> [] \<Longrightarrow> ?bs \<noteq> []"
    by (auto simp: withStatus_def)
  have nem: "mocksOf ?bs \<noteq> [] \<Longrightarrow> ?bs \<noteq> []" by (auto simp: mocksOf_def)
  have c1: "filter isPrimaryPostgres (withStatus ONLINE ?bs) \<noteq> [] \<Longrightarrow>
      chosen ?r (filter isPrimaryPostgres (withStatus ONLINE ?bs))"
    using r ne' sbp_1[of ?bs chk env rs] pickedFrom_chosen by fastforce
  have c2: "filter isPrimaryPostgres (withStatus ONLINE ?bs) = [] \<Longrightarrow> withStatus ONLINE ?bs \<noteq> [] \<Longrightarrow>
      chosen ?r (withStatus ONLINE ?bs)"
    using r ne sbp_2[of ?bs chk env rs] pickedFrom_chosen by fastforce
  have c3: "withStatus ONLINE ?bs = [] \<Longrightarrow> filter isPrimaryPostgres (withStatus DEGRADED ?bs) \<noteq> [] \<Longrightarrow>
      chosen ?r (filter isPrimaryPostgres (withStatus DEGRADED ?bs))"
    using r ne' sbp_3[of ?bs chk env rs] pickedFrom_chosen by fastforce
  have c4: "withStatus ONLINE ?bs = [] \<Longrightarrow> filter isPrimaryPostgres (withStatus DEGRADED ?bs) = [] \<Longrightarrow>
      withStatus DEGRADED ?bs \<noteq> [] \<Longrightarrow> chosen ?r (withStatus DEGRADED ?bs)"
    using r ne sbp_4[of ?bs chk env rs] pickedFrom_chosen by fastforce
  have c5: "withStatus ONLINE ?bs = [] \<Longrightarrow> withStatus DEGRADED ?bs = [] \<Longrightarrow>
      withStatus UNKNOWN ?bs \<noteq> [] \<Longrightarrow> chosen ?r (withStatus UNKNOWN ?bs)"
    using r ne sbp_5[of ?bs chk env rs] pickedFrom_chosen by fastforce
  have c6: "withStatus ONLINE ?bs = [] \<Longrightarrow> withStatus DEGRADED ?bs = [] \<Longrightarrow>
      withStatus UNKNOWN ?bs = [] \<Longrightarrow> \<not> disableMockFallback env \<Longrightarrow> mocksOf ?bs \<noteq> [] \<Longrightarrow>
      ?r = Some (id' (config (hd (mocksOf ?bs))))"
  proof -
    assume a: "withStatus ONLINE ?bs = []" "withStatus DEGRADED ?bs = []"
      "withStatus UNKNOWN ?bs = []" "\<not> disableMockFallback env" "mocksOf ?bs \<noteq> []"
    then obtain m ms where m: "filter (\<lambda>b. type' (config b) = MOCK) ?bs = m # ms"
      by (cases "filter (\<lambda>b. type' (config b) = MOCK) ?bs") (auto simp: mocksOf_def)
    then have "find (\<lambda>b. type' (config b) = MOCK) ?bs = Some m" by (rule filter_Cons_find)
    with a have "?p = Some m" using sbp_6[of ?bs env chk rs] by simp
    moreover have "hd (mocksOf ?bs) = m" using m by (simp add: mocksOf_def)
    ultimately show ?thesis using r nem a by simp
  qed
  have c7: "withStatus ONLINE ?bs = [] \<Longrightarrow> withStatus DEGRADED ?bs = [] \<Longrightarrow>
      withStatus UNKNOWN ?bs = [] \<Longrightarrow> disableMockFallback env \<or> mocksOf ?bs = [] \<Longrightarrow>
      withStatus OFFLINE ?bs \<noteq> [] \<Longrightarrow> chosen ?r (withStatus OFFLINE ?bs)"
    using r ne sbp_7[of ?bs env chk rs] pickedFrom_chosen by fastforce
  have c8: "withStatus ONLINE ?bs = [] \<Longrightarrow> withStatus DEGRADED ?bs = [] \<Longrightarrow>
      withStatus UNKNOWN ?bs = [] \<Longrightarrow> withStatus OFFLINE ?bs = [] \<Longrightarrow> ?r = None \<and> ?bs = []"
    using statuses_exhaust[of ?bs] selectBackend_PRIORITY_fst[OF assms, of chk env now] by simp
  have p0: "withStatus ONLINE ?bs = [] \<Longrightarrow> filter isPrimaryPostgres (withStatus ONLINE ?bs) = []"
    and p1: "withStatus DEGRADED ?bs = [] \<Longrightarrow> filter isPrimaryPostgres (withStatus DEGRADED ?bs) = []"
    by simp_all
  show ?thesis
    unfolding Let_def using c1 c2 c3 c4 c5 c6 c7 c8 p0 p1 by presburger
qed

text \<open>
  C1 as stated fails: with two enabled ONLINE PostgreSQL stores, \<open>replica\<close> of priority 1
  and \<open>primary\<close> of priority 2, the selection by priority returns \<open>primary\<close>, which does
  not have the lowest priority number of its partition.
\<close>

theorem selectBackend_priority_counterexample:
  "fst (selectBackend (triggerHealthCheck env0 0) env0 0 rsC1) = Some ''primary'' \<and>
   selectionStrategy rsC1 = PRIORITY \<and>
   enabledBackends rsC1 = [store ''replica'' POSTGRES 1 ONLINE 0 2, store ''primary'' POSTGRES 2 ONLINE 0 2] \<and>
   status (config (store ''replica'' POSTGRES 1 ONLINE 0 2)) = status (config (store ''primary'' POSTGRES 2 ONLINE 0 2)) \<and>
   type' (config (store ''replica'' POSTGRES 1 ONLINE 0 2)) = POSTGRES \<and>
   priority (config (store ''replica'' POSTGRES 1 ONLINE 0 2)) < priority (config (store ''primary'' POSTGRES 2 ONLINE 0 2))"
  by (simp add: selectBackend_def rsC1_def registry_def store_def selectByPriority_def withStatus_def
      isPrimaryPostgres_def byPriority_def enabledBackends_def Let_def)

text \<open>
  The amended statement at a registry whose stores are all OFFLINE: the mock store is
  returned before the PostgreSQL store of lower priority number.
\<close>

theorem selectBackend_priority_order_witness:
  "selectionStrategy rsW1 = PRIORITY \<and>
   fst (selectBackend (triggerHealthCheck env0 0) env0 0 rsW1) = Some ''mock''"
  using selectBackend_priority_order [of rsW1 "triggerHealthCheck env0 0" env0 0]
  by (simp add: rsW1_def registry_def store_def withStatus_def isPrimaryPostgres_def
      enabledBackends_def mocksOf_def env0_def Let_def)

lemma sbp_fst_indep: "fst (selectByPriority chk env rs bs) = fst (selectByPriority chk' env rs' bs)"
  by (simp add: selectByPriority_def Let_def list_case_byPriority split: list.splits)

lemma selectBackend_RR_online:
  assumes "selectionStrategy rs = ROUND_ROBIN" and "withStatus ONLINE (enabledBackends rs) \<noteq> []"
  shows "selectBackend chk env now rs =
    (let sortedBackends = byPriority (withStatus ONLINE (enabledBackends rs));
         i = (roundRobinIndex rs + 1) mod length sortedBackends;
         newId = id' (config (sortedBackends ! i))
     in (Some newId, setLastUsed newId now (rs\<lparr>roundRobinIndex := i, currentBackendId := Some newId\<rparr>)))"
proof -
  have "enabledBackends rs \<noteq> []" using assms(2) by (auto simp: withStatus_def)
  with assms show ?thesis
    by (simp add: selectBackend_def selectByRoundRobin_def enabledBackends_def Let_def)
qed

lemma byPriority_length [simp]: "length (byPriority cs) = length cs"
  by (simp add: byPriority_def)

lemma byPriority_set [simp]: "set (byPriority cs) = set cs"
  by (simp add: byPriority_def)

text \<open>
  C6, as amended. Under the strategy ROUND_ROBIN, \<open>selectBackend\<close> chooses among all the
  enabled ONLINE stores, PostgreSQL and mock alike: it moves the cursor to the next index
  modulo the length of their list sorted by priority and returns the entry there; it falls
  back to the selection by priority exactly when no enabled store is ONLINE.
\<close>

theorem selectBackend_round_robin:
  assumes "selectionStrategy rs = ROUND_ROBIN"
  shows "let on = withStatus ONLINE (enabledBackends rs);
             i = (roundRobinIndex rs + 1) mod length on;
             c = byPriority on ! i
         in if on \<noteq> []
            then fst (selectBackend chk env now rs) = Some (id' (config c)) \<and>
                 roundRobinIndex (snd (selectBackend chk env now rs)) = i \<and>
                 c \<in> set (enabledBackends rs) \<and> status (config c) = ONLINE \<and>
                 sorted (map (\<lambda>b. priority (config b)) (byPriority on)) \<and>
                 set (byPriority on) = set on \<and> length (byPriority on) = length on
            else fst (selectBackend chk env now rs) =
                 fst (selectBackend chk env now (rs\<lparr>selectionStrategy := PRIORITY\<rparr>))"
proof (cases "withStatus ONLINE (enabledBackends rs) = []")
  case True
  have "fst (selectBackend chk env now rs) =
        fst (selectBackend chk env now (rs\<lparr>selectionStrategy := PRIORITY\<rparr>))"
  proof (cases "enabledBackends rs = []")
    case True
    then show ?thesis by (simp add: selectBackend_def enabledBackends_def)
  next
    case False
    obtain c rs1 where 1: "selectByPriority chk env rs (enabledBackends rs) = (c, rs1)"
      by (cases "selectByPriority chk env rs (enabledBackends rs)") auto
    obtain c' rs1' where 2: "selectByPriority chk env (rs\<lparr>selectionStrategy := PRIORITY\<rparr>) (enabledBackends rs) = (c', rs1')"
      by (cases "selectByPriority chk env (rs\<lparr>selectionStrategy := PRIORITY\<rparr>) (enabledBackends rs)") auto
    have cc: "c = c'" using 1 2 sbp_fst_indep[of chk env rs "enabledBackends rs" chk "rs\<lparr>selectionStrategy := PRIORITY\<rparr>"] by simp
    obtain x where x: "c = Some x" using sbp_Some[OF False, of chk env rs] 1 by auto
    have e1: "selectByPriority chk env rs (enabledBackends rs) = (Some x, rs1)" using 1 x by simp
    have e2: "selectByPriority chk env (rs\<lparr>selectionStrategy := PRIORITY\<rparr>) (enabledBackends rs) = (Some x, rs1')"
      using 2 x cc by simp
    have e: "enabledBackends (rs\<lparr>selectionStrategy := PRIORITY\<rparr>) = enabledBackends rs"
      by (simp add: enabledBackends_def)
    have "fst (selectBackend chk env now rs) = Some (id' (config x))"
      using False assms True e1
      by (simp add: selectBackend_def selectByRoundRobin_def enabledBackends_def Let_def)
    moreover have "fst (selectBackend chk env now (rs\<lparr>selectionStrategy := PRIORITY\<rparr>)) = Some (id' (config x))"
      using False e2
      by (simp add: selectBackend_def enabledBackends_def Let_def)
    ultimately show ?thesis by simp
  qed
  with True show ?thesis by (simp add: Let_def)
next
  case False
  let ?on = "withStatus ONLINE (enabledBackends rs)"
  let ?i = "(roundRobinIndex rs + 1) mod length ?on"
  have i: "?i < length ?on" using False by simp
  then have "?i < length (byPriority ?on)" by simp
  then have "byPriority ?on ! ?i \<in> set (byPriority ?on)" by (rule nth_mem)
  then have mem: "byPriority ?on ! ?i \<in> set ?on" by simp
  then have m1: "byPriority ?on ! ?i \<in> set (enabledBackends rs)"
    and m2: "status (config (byPriority ?on ! ?i)) = ONLINE"
    by (auto simp: withStatus_def)
  have s: "sorted (map (\<lambda>b. priority (config b)) (byPriority ?on))"
    by (simp add: byPriority_def)
  have r: "roundRobinIndex (setLastUsed k now x) = roundRobinIndex x" for k x
    by (simp add: setLastUsed_def)
  show ?thesis using False m1 m2 s
    by (simp add: selectBackend_RR_online[OF assms False] Let_def r)
qed

text \<open>
  C6 as stated fails: with the PostgreSQL store \<open>primary\<close> and the mock store both ONLINE
  and the cursor at 0, the round robin returns the mock store.
\<close>

theorem selectBackend_round_robin_counterexample:
  "fst (selectBackend (triggerHealthCheck env0 0) env0 0 rsC6) = Some ''mock'' \<and>
   selectionStrategy rsC6 = ROUND_ROBIN \<and>
   getBackend rsC6 ''mock'' = Some (store ''mock'' MOCK 999 ONLINE 0 999) \<and>
   type' (config (store ''mock'' MOCK 999 ONLINE 0 999)) = MOCK \<and>
   filter (\<lambda>b. type' (config b) = POSTGRES) (withStatus ONLINE (enabledBackends rsC6)) =
     [store ''primary'' POSTGRES 1 ONLINE 0 2]"
  by (simp add: selectBackend_def rsC6_def registry_def store_def selectByRoundRobin_def withStatus_def
      byPriority_def enabledBackends_def getBackend_def Let_def)

text \<open>
  The amended statement with two PostgreSQL stores ONLINE and the mock store DEGRADED: from
  the cursor 0 the round robin goes to index 1 of the sorted list, the store \<open>backup\<close>.
\<close>

theorem selectBackend_round_robin_witness:
  "selectionStrategy rsW6 = ROUND_ROBIN \<and>
   fst (selectBackend (triggerHealthCheck env0 0) env0 0 rsW6) = Some ''backup'' \<and>
   roundRobinIndex (snd (selectBackend (triggerHealthCheck env0 0) env0 0 rsW6)) = 1"
  using selectBackend_round_robin [of rsW6 "triggerHealthCheck env0 0" env0 0]
  by (simp add: rsW6_def registry_def store_def withStatus_def byPriority_def
      enabledBackends_def Let_def)

section \<open>Properties of the health checks\<close>

lemma find_modifyBackend:
  assumes "\<And>b. id' (config (g b)) = id' (config b)"
  shows "find (\<lambda>b. id' (config b) = k') (modifyBackend k g bs) =
     (if k' = k then map_option g (find (\<lambda>b. id' (config b) = k) bs)
      else find (\<lambda>b. id' (config b) = k') bs)"
  using assms by (induction bs) auto

lemma cfg_modifyConfig:
  assumes "\<And>c. id' (f c) = id' c"
  shows "cfg (modifyConfig k f rs) k' = (if k' = k then map_option f (cfg rs k) else cfg rs k')"
  using assms
  by (simp add: cfg_def modifyConfig_def getBackend_def find_modifyBackend option.map_comp comp_def)

lemma cfg_setLastUsed [simp]: "cfg (setLastUsed k now rs) k' = cfg rs k'"
  by (simp add: cfg_def setLastUsed_def getBackend_def find_modifyBackend option.map_comp comp_def)

lemma cfg_fields [simp]:
  "cfg (rs\<lparr>currentBackendId := x\<rparr>) k = cfg rs k"
  "cfg (rs\<lparr>roundRobinIndex := i\<rparr>) k = cfg rs k"
  "cfg (rs\<lparr>healthCheckRunning := f\<rparr>) k = cfg rs k"
  "cfg (rs\<lparr>selectionStrategy := s\<rparr>) k = cfg rs k"
  by (simp_all add: cfg_def getBackend_def)

lemma cfg_updateBackendStatus:
  "cfg (updateBackendStatus rs k st) k' = (if k' = k then map_option (\<lambda>c. c\<lparr>status := st\<rparr>) (cfg rs k) else cfg rs k')"
  by (simp add: updateBackendStatus_def cfg_modifyConfig)

lemma getBackend_id: "getBackend rs k = Some b \<Longrightarrow> id' (config b) = k"
  by (auto simp: getBackend_def dest: find_Some_iff[THEN iffD1])

lemma reentrant_cfg:
  assumes "cfg rs X = Some c" "type' c \<noteq> MOCK"
  shows "cfg (checkBackendHealthReentrant rs j) X = Some c"
proof (cases "getBackend rs j")
  case None
  then show ?thesis using assms by (simp add: checkBackendHealthReentrant_def)
next
  case (Some b)
  show ?thesis
  proof (cases "j = X")
    case True
    with Some assms have "type' (config b) \<noteq> MOCK" by (simp add: cfg_def)
    with Some assms show ?thesis by (simp add: checkBackendHealthReentrant_def)
  next
    case False
    with Some assms show ?thesis
      by (simp add: checkBackendHealthReentrant_def cfg_modifyConfig)
  qed
qed

lemma sbp_snd_cases:
  "snd (selectByPriority chk env rs bs) = rs \<or> (\<exists>j. snd (selectByPriority chk env rs bs) = chk rs j)"
  by (auto simp add: selectByPriority_def Let_def list_case_byPriority split: list.splits)

lemma sbp_cfg:
  assumes "\<And>r j. cfg r X = Some c \<Longrightarrow> cfg (chk r j) X = Some c" "cfg rs X = Some c"
  shows "cfg (snd (selectByPriority chk env rs bs)) X = Some c"
  using sbp_snd_cases[of chk env rs bs] assms by auto

lemma srr_cfg:
  assumes "\<And>r j. cfg r X = Some c \<Longrightarrow> cfg (chk r j) X = Some c" "cfg rs X = Some c"
  shows "cfg (snd (selectByRoundRobin chk env rs bs)) X = Some c"
  using assms sbp_cfg[of X c chk rs env bs]
  by (simp add: selectByRoundRobin_def Let_def)

lemma selectBackend_cfg:
  assumes "\<And>r j. cfg r X = Some c \<Longrightarrow> cfg (chk r j) X = Some c" "cfg rs X = Some c"
  shows "cfg (snd (selectBackend chk env now rs)) X = Some c"
proof -
  let ?bs = "filter (\<lambda>b. enabled (config b)) (backends rs)"
  have 1: "cfg (snd (selectByPriority chk env rs ?bs)) X = Some c" using assms by (rule sbp_cfg)
  have 2: "cfg (snd (selectByRoundRobin chk env rs ?bs)) X = Some c" using assms by (rule srr_cfg)
  show ?thesis using 1 2 assms(2)
    by (auto simp: selectBackend_def Let_def split: prod.splits option.splits SelectionStrategy.splits if_splits)
qed


lemma cfg_getBackend: "cfg rs k = Some c \<Longrightarrow> \<exists>b. getBackend rs k = Some b \<and> config b = c"
  by (auto simp: cfg_def)

lemma hhcf_self:
  assumes c: "cfg rs X = Some c" and t: "type' c \<noteq> MOCK"
  shows "cfg (handleHealthCheckFailure env now rs X) X = Some (failureStep c)"
proof -
  from c obtain b where b: "getBackend rs X = Some b" "config b = c" using cfg_getBackend by blast
  let ?rs1 = "modifyConfig X (\<lambda>c. c\<lparr>failureCount := failureCount c + 1, successCount := 0\<rparr>) rs"
  let ?c1 = "c\<lparr>failureCount := failureCount c + 1, successCount := 0\<rparr>"
  have 1: "cfg ?rs1 X = Some ?c1" using c by (simp add: cfg_modifyConfig)
  have 2: "cfg (updateBackendStatus ?rs1 X st) X = Some (?c1\<lparr>status := st\<rparr>)" for st
    using 1 by (simp add: cfg_updateBackendStatus)
  have 3: "cfg (snd (selectBackend checkBackendHealthReentrant env now (updateBackendStatus ?rs1 X OFFLINE))) X
        = Some (?c1\<lparr>status := OFFLINE\<rparr>)"
    by (rule selectBackend_cfg) (use t 2 in \<open>auto intro: reentrant_cfg\<close>)
  show ?thesis using b 1 2 3
    by (simp add: handleHealthCheckFailure_def failureStep_def Let_def)
qed

lemma hhcf_other:
  assumes c: "cfg rs X = Some c" and t: "type' c \<noteq> MOCK" and ne: "Y \<noteq> X"
  shows "cfg (handleHealthCheckFailure env now rs Y) X = Some c"
proof (cases "getBackend rs Y")
  case None
  then show ?thesis using c by (simp add: handleHealthCheckFailure_def)
next
  case (Some b)
  let ?rs1 = "modifyConfig Y (\<lambda>c. c\<lparr>failureCount := failureCount c + 1, successCount := 0\<rparr>) rs"
  have 1: "cfg ?rs1 X = Some c" using c ne by (simp add: cfg_modifyConfig)
  have 2: "cfg (updateBackendStatus ?rs1 Y st) X = Some c" for st
    using 1 ne by (simp add: cfg_updateBackendStatus)
  have 3: "cfg (snd (selectBackend checkBackendHealthReentrant env now (updateBackendStatus ?rs1 Y OFFLINE))) X
        = Some c"
    by (rule selectBackend_cfg) (use t 2 in \<open>auto intro: reentrant_cfg\<close>)
  show ?thesis using Some 1 2 3
    by (simp add: handleHealthCheckFailure_def Let_def)
qed

lemma flag_modifyConfig [simp]: "healthCheckRunning (modifyConfig k f rs) = healthCheckRunning rs"
  by (simp add: modifyConfig_def)

lemma check_failure_self:
  assumes c: "cfg rs X = Some c" and t: "type' c \<noteq> MOCK" and f: "\<not> healthCheckRunning rs"
  shows "fst (checkBackendHealth env now False rs X) = False"
    and "cfg (snd (checkBackendHealth env now False rs X)) X = Some (failureStep (c\<lparr>lastChecked := Some now\<rparr>))"
    and "\<not> healthCheckRunning (snd (checkBackendHealth env now False rs X))"
proof -
  from c obtain b where b: "getBackend rs X = Some b" "config b = c" using cfg_getBackend by blast
  let ?rs1 = "modifyConfig X (\<lambda>c. c\<lparr>lastChecked := Some now\<rparr>) (rs\<lparr>healthCheckRunning := True\<rparr>)"
  have 1: "cfg ?rs1 X = Some (c\<lparr>lastChecked := Some now\<rparr>)" using c by (simp add: cfg_modifyConfig)
  have 2: "cfg (handleHealthCheckFailure env now ?rs1 X) X = Some (failureStep (c\<lparr>lastChecked := Some now\<rparr>))"
    using 1 t by (intro hhcf_self) auto
  show "fst (checkBackendHealth env now False rs X) = False"
    using b t f
    by (simp add: checkBackendHealth_def checkBackendHealthStart_def checkBackendHealthFinish_def Let_def)
  show "cfg (snd (checkBackendHealth env now False rs X)) X = Some (failureStep (c\<lparr>lastChecked := Some now\<rparr>))"
    using b t f 2
    by (simp add: checkBackendHealth_def checkBackendHealthStart_def checkBackendHealthFinish_def Let_def)
  show "\<not> healthCheckRunning (snd (checkBackendHealth env now False rs X))"
    using b t f
    by (simp add: checkBackendHealth_def checkBackendHealthStart_def checkBackendHealthFinish_def Let_def)
qed

lemma check_other:
  assumes c: "cfg rs X = Some c" and t: "type' c \<noteq> MOCK" and ne: "Y \<noteq> X"
  shows "cfg (snd (checkBackendHealth env now h rs Y)) X = Some c"
proof (cases "getBackend rs Y")
  case None
  then show ?thesis using c by (simp add: checkBackendHealth_def checkBackendHealthStart_def)
next
  case (Some b)
  let ?rs1 = "modifyConfig Y (\<lambda>c. c\<lparr>lastChecked := Some now\<rparr>) (rs\<lparr>healthCheckRunning := True\<rparr>)"
  have 1: "cfg ?rs1 X = Some c" using c ne by (simp add: cfg_modifyConfig)
  have 2: "cfg (handleHealthCheckFailure env now ?rs1 Y) X = Some c"
    using 1 t ne by (intro hhcf_other) auto
  have 3: "cfg (modifyConfig Y g ?rs1) X = Some c" if "\<And>c. id' (g c) = id' c" for g
    using 1 ne that by (simp add: cfg_modifyConfig)
  have 4: "cfg (modifyConfig Y g rs) X = Some c" if "\<And>c. id' (g c) = id' c" for g
    using c ne that by (simp add: cfg_modifyConfig)
  have 5: "cfg (updateBackendStatus (modifyConfig Y g ?rs1) Y st) X = Some c" if "\<And>c. id' (g c) = id' c" for g st
    using 3[OF that] ne by (simp add: cfg_updateBackendStatus)
  have g: "getBackend ?rs1 Y = Some (b\<lparr>config := (config b)\<lparr>lastChecked := Some now\<rparr>\<rparr>)"
    using Some by (simp add: modifyConfig_def getBackend_def find_modifyBackend)
  show ?thesis using Some c 1 2 3 4 5 g
    by (simp add: checkBackendHealth_def checkBackendHealthStart_def checkBackendHealthFinish_def Let_def)
qed

lemma check_flag:
  assumes "\<not> healthCheckRunning rs"
  shows "\<not> healthCheckRunning (snd (checkBackendHealth env now h rs Y))"
  using assms
  by (simp add: checkBackendHealth_def checkBackendHealthStart_def checkBackendHealthFinish_def Let_def
      split: option.splits)


lemma recordOutcomes_snoc:
  "recordOutcomes env rs (os @ [(now, Y, h)]) = snd (checkBackendHealth env now h (recordOutcomes env rs os) Y)"
  by (simp add: recordOutcomes_def)

lemma failures_invariant:
  assumes c: "cfg rs X = Some c" and t: "type' c \<noteq> MOCK" and f: "\<not> healthCheckRunning rs"
    and s: "status c = ONLINE" and z: "failureCount c = 0"
    and os: "\<forall>(now, backendId, healthy)\<in>set os. backendId = X \<longrightarrow> \<not> healthy"
  shows "\<not> healthCheckRunning (recordOutcomes env rs os) \<and>
    (\<exists>c'. cfg (recordOutcomes env rs os) X = Some c' \<and> type' c' = type' c \<and>
      maxFailures c' = maxFailures c \<and> failureCount c' = outcomesOn X os \<and>
      status c' = (if outcomesOn X os = 0 then ONLINE
                   else if maxFailures c \<le> outcomesOn X os then OFFLINE else DEGRADED))"
  using os
proof (induction os rule: rev_induct)
  case Nil
  then show ?case using c f s z by (simp add: recordOutcomes_def outcomesOn_def)
next
  case (snoc ev os)
  obtain now Y h where ev: "ev = (now, Y, h)" by (cases ev) auto
  let ?r = "recordOutcomes env rs os"
  from snoc obtain c' where fl: "\<not> healthCheckRunning ?r"
    and c': "cfg ?r X = Some c'" "type' c' = type' c" "maxFailures c' = maxFailures c"
      "failureCount c' = outcomesOn X os"
      "status c' = (if outcomesOn X os = 0 then ONLINE
                   else if maxFailures c \<le> outcomesOn X os then OFFLINE else DEGRADED)"
    by auto
  have t': "type' c' \<noteq> MOCK" using c' t by simp
  show ?case
  proof (cases "Y = X")
    case False
    then have n: "outcomesOn X (os @ [ev]) = outcomesOn X os" using ev by (simp add: outcomesOn_def)
    have "cfg (recordOutcomes env rs (os @ [ev])) X = Some c'"
      unfolding ev recordOutcomes_snoc using c'(1) t' False by (intro check_other) auto
    moreover have "\<not> healthCheckRunning (recordOutcomes env rs (os @ [ev]))"
      unfolding ev recordOutcomes_snoc using fl by (rule check_flag)
    ultimately show ?thesis using c' n by simp
  next
    case True
    then have h: "\<not> h" using snoc.prems ev by auto
    have n: "outcomesOn X (os @ [ev]) = outcomesOn X os + 1" using ev True by (simp add: outcomesOn_def)
    have 1: "cfg (recordOutcomes env rs (os @ [ev])) X = Some (failureStep (c'\<lparr>lastChecked := Some now\<rparr>))"
      unfolding ev recordOutcomes_snoc using True h check_failure_self(2)[OF c'(1) t' fl] by simp
    have 2: "\<not> healthCheckRunning (recordOutcomes env rs (os @ [ev]))"
      unfolding ev recordOutcomes_snoc using fl by (rule check_flag)
    show ?thesis using 1 2 c'(2-) n
      by (auto simp: failureStep_def Let_def)
  qed
qed

text \<open>
  C5, as amended, with the failed health checks of a store as its failure outcomes. A
  store that is not a mock store, ONLINE, with no recorded failure, no health check
  running: after any sequence of awaited health checks in which every check of this store
  fails, whatever the checks of the other stores answer in between, its failure counter
  is the number of its failed checks; it is ONLINE while that number is zero, OFFLINE
  once that number has reached \<open>maxFailures\<close>, and DEGRADED in between. So it goes OFFLINE
  at the failed check number \<open>maxFailures\<close> and not before, or at the first failed check
  when \<open>maxFailures\<close> is zero.
\<close>

theorem failures_reach_offline_at_threshold:
  assumes "getBackend rs X = Some b" and "type' (config b) \<noteq> MOCK"
    and "status (config b) = ONLINE" and "failureCount (config b) = 0"
    and "\<not> healthCheckRunning rs"
    and "\<forall>(now, backendId, healthy)\<in>set os. backendId = X \<longrightarrow> \<not> healthy"
  shows "\<exists>b'. getBackend (recordOutcomes env rs os) X = Some b' \<and>
           failureCount (config b') = outcomesOn X os \<and>
           status (config b') =
             (if outcomesOn X os = 0 then ONLINE
              else if maxFailures (config b) \<le> outcomesOn X os then OFFLINE else DEGRADED) \<and>
           (status (config b') = OFFLINE) = (max 1 (maxFailures (config b)) \<le> outcomesOn X os)"
proof -
  have c: "cfg rs X = Some (config b)" using assms(1) by (simp add: cfg_def)
  from failures_invariant[OF c assms(2) assms(5) assms(3) assms(4) assms(6), of env]
  obtain c' where c': "cfg (recordOutcomes env rs os) X = Some c'"
      "failureCount c' = outcomesOn X os"
      "status c' = (if outcomesOn X os = 0 then ONLINE
                   else if maxFailures (config b) \<le> outcomesOn X os then OFFLINE else DEGRADED)"
    by auto
  from c'(1) obtain b' where "getBackend (recordOutcomes env rs os) X = Some b'" "config b' = c'"
    using cfg_getBackend by blast
  with c' show ?thesis by auto
qed

text \<open>
  C5 as stated fails twice. With the threshold \<open>maxFailures = 0\<close> the ONLINE store is not
  OFFLINE after zero failures; it is after its first failed health check. And with failed
  queries as the failure outcomes: after four failed attempts of one query on \<open>primary\<close>,
  ONLINE with the threshold 3 and a pool, the store is DEGRADED and its failure counter
  is still zero.
\<close>

theorem failures_threshold_counterexample:
  "map_option (\<lambda>c. (status c, failureCount c, maxFailures c)) (cfg rsT0 ''primary'') = Some (ONLINE, 0, 0) \<and>
   map_option (\<lambda>c. (status c, failureCount c))
      (cfg (recordOutcomes env1 rsT0 [(1, ''primary'', False)]) ''primary'') = Some (OFFLINE, 1) \<and>
   map_option (\<lambda>c. (status c, failureCount c, maxFailures c)) (cfg rsC3 ''primary'') = Some (ONLINE, 0, 3) \<and>
   fst (snd (query env1 alwaysTimeout 5 0 0 rsC3)) =
      [Attempt ''primary'' 0, Delay 500, Attempt ''primary'' 1, Delay 1000,
       Attempt ''primary'' 2, Delay 2000, Attempt ''primary'' 3, Reselect (Some ''primary'')] \<and>
   map_option (\<lambda>c. (status c, failureCount c))
      (cfg (snd (snd (query env1 alwaysTimeout 5 0 0 rsC3))) ''primary'') = Some (DEGRADED, 0)"
  by (simp add: query.simps eval_defs rsC3_def rsT0_def env1_def timeoutError_transient alwaysTimeout_def
      message_timeoutError cfg_def recordOutcomes_def checkBackendHealth_def checkBackendHealthFinish_def
      handleHealthCheckFailure_def checkBackendHealthReentrant_def)

text \<open>
  The amended statement with the threshold 3: after two failed checks of \<open>primary\<close> it is
  DEGRADED, after the third it is OFFLINE, a passed check of \<open>backup\<close> between them each
  time.
\<close>

theorem failures_reach_offline_at_threshold_witness:
  "(\<exists>b'. getBackend (recordOutcomes env0 rsW5
            [(1, ''primary'', False), (2, ''backup'', True), (3, ''primary'', False)]) ''primary'' = Some b' \<and>
         failureCount (config b') = 2 \<and> status (config b') = DEGRADED) \<and>
   (\<exists>b'. getBackend (recordOutcomes env0 rsW5
            [(1, ''primary'', False), (2, ''backup'', True), (3, ''primary'', False),
             (4, ''backup'', True), (5, ''primary'', False)]) ''primary'' = Some b' \<and>
         failureCount (config b') = 3 \<and> status (config b') = OFFLINE)"
proof -
  let ?b = "store ''primary'' POSTGRES 1 ONLINE 0 2"
  have g: "getBackend rsW5 ''primary'' = Some ?b"
    by (simp add: rsW5_def registry_def store_def getBackend_def)
  have t: "type' (config ?b) \<noteq> MOCK" and s: "status (config ?b) = ONLINE"
    and z: "failureCount (config ?b) = 0"
    and mx: "maxFailures (config ?b) = 3"
    by (simp_all add: store_def)
  have f: "\<not> healthCheckRunning rsW5" by (simp add: rsW5_def registry_def)
  let ?os1 = "[(1::nat, ''primary'', False), (2, ''backup'', True), (3, ''primary'', False)]"
  let ?os2 = "[(1::nat, ''primary'', False), (2, ''backup'', True), (3, ''primary'', False),
             (4, ''backup'', True), (5, ''primary'', False)]"
  have o1: "\<forall>(now, backendId, healthy)\<in>set ?os1. backendId = ''primary'' \<longrightarrow> \<not> healthy" by simp
  have o2: "\<forall>(now, backendId, healthy)\<in>set ?os2. backendId = ''primary'' \<longrightarrow> \<not> healthy" by simp
  have n1: "outcomesOn ''primary'' ?os1 = 2" by (simp add: outcomesOn_def)
  have n2: "outcomesOn ''primary'' ?os2 = 3" by (simp add: outcomesOn_def)
  show ?thesis
    using failures_reach_offline_at_threshold [OF g t s z f o1, of env0]
          failures_reach_offline_at_threshold [OF g t s z f o2, of env0]
    unfolding n1 n2 mx by auto
qed

section \<open>Properties of the management operations\<close>

lemma current_simps [simp]:
  "currentBackendId (modifyConfig k f rs) = currentBackendId rs"
  "currentBackendId (updateBackendStatus rs k st) = currentBackendId rs"
  "currentBackendId (setLastUsed k now rs) = currentBackendId rs"
  by (simp_all add: modifyConfig_def updateBackendStatus_def setLastUsed_def)

lemma getBackend_modifyConfig:
  assumes "\<And>c. id' (f c) = id' c"
  shows "getBackend (modifyConfig k f rs) k' =
     (if k' = k then map_option (\<lambda>b. b\<lparr>config := f (config b)\<rparr>) (getBackend rs k) else getBackend rs k')"
  using assms by (simp add: modifyConfig_def getBackend_def find_modifyBackend)

lemma getBackend_flag [simp]: "getBackend (rs\<lparr>healthCheckRunning := f\<rparr>) k = getBackend rs k"
  by (simp add: getBackend_def)

lemma hhcf_current:
  assumes "getBackend rs k = Some b"
  shows "currentBackendId (handleHealthCheckFailure env now rs k) = currentBackendId rs \<or>
         (currentBackendId rs = Some k \<and> status (config b) \<noteq> OFFLINE \<and>
          maxFailures (config b) \<le> failureCount (config b) + 1)"
  using assms by (simp add: handleHealthCheckFailure_def Let_def)

text \<open>
  C7, as amended. When \<open>switchBackend\<close> is called for a registered store that is not a mock
  store and the health check it awaits runs its probe and the probe fails, the call
  returns \<open>false\<close>, and it leaves \<open>currentBackendId\<close> as it was unless the store is itself
  the current store and this failure takes it OFFLINE: then the failure handler selects
  again.
\<close>

theorem switchBackend_probe_fails:
  assumes "getBackend rs k = Some b" and "type' (config b) \<noteq> MOCK" and "\<not> healthCheckRunning rs"
  shows "fst (switchBackend env now False rs k) = False \<and>
         (currentBackendId (snd (switchBackend env now False rs k)) = currentBackendId rs \<or>
          (currentBackendId rs = Some k \<and> status (config b) \<noteq> OFFLINE \<and>
           maxFailures (config b) \<le> failureCount (config b) + 1))"
proof (cases "enabled (config b)")
  case False
  with assms show ?thesis by (simp add: switchBackend_def)
next
  case True
  let ?rs1 = "modifyConfig k (\<lambda>c. c\<lparr>lastChecked := Some now\<rparr>) (rs\<lparr>healthCheckRunning := True\<rparr>)"
  let ?b1 = "b\<lparr>config := (config b)\<lparr>lastChecked := Some now\<rparr>\<rparr>"
  have g: "getBackend ?rs1 k = Some ?b1" using assms(1) by (simp add: getBackend_modifyConfig)
  have c: "checkBackendHealth env now False rs k =
        (False, (handleHealthCheckFailure env now ?rs1 k)\<lparr>healthCheckRunning := False\<rparr>)"
    using assms
    by (simp add: checkBackendHealth_def checkBackendHealthStart_def checkBackendHealthFinish_def Let_def)
  have "switchBackend env now False rs k =
        (False, (handleHealthCheckFailure env now ?rs1 k)\<lparr>healthCheckRunning := False\<rparr>)"
    using assms True c by (simp add: switchBackend_def)
  then show ?thesis using hhcf_current[OF g, of env now] by auto
qed

text \<open>
  C7 as stated fails: \<open>primary\<close> is the current store, DEGRADED with two failures out of
  three; \<open>switchBackend('primary')\<close> with a failing probe returns \<open>false\<close> and leaves the
  mock store current.
\<close>

theorem switchBackend_probe_fails_counterexample:
  "fst (switchBackend env0 5 False rsC7 ''primary'') = False \<and>
   currentBackendId rsC7 = Some ''primary'' \<and>
   currentBackendId (snd (switchBackend env0 5 False rsC7 ''primary'')) = Some ''mock''"
  by (simp add: rsC7_def registry_def store_def switchBackend_def getBackend_def
      checkBackendHealth_def checkBackendHealthStart_def checkBackendHealthFinish_def
      handleHealthCheckFailure_def modifyConfig_def updateBackendStatus_def setLastUsed_def
      selectBackend_def selectByPriority_def withStatus_def isPrimaryPostgres_def byPriority_def
      checkBackendHealthReentrant_def env0_def Let_def)

text \<open>
  The amended statement for \<open>switchBackend('backup')\<close> while \<open>primary\<close> is current and the
  probe of \<open>backup\<close> fails: the call returns \<open>false\<close> and \<open>primary\<close> stays current.
\<close>

theorem switchBackend_probe_fails_witness:
  "fst (switchBackend env0 5 False rsW7 ''backup'') = False \<and>
   currentBackendId (snd (switchBackend env0 5 False rsW7 ''backup'')) = Some ''primary''"
proof -
  have g: "getBackend rsW7 ''backup'' = Some (store ''backup'' POSTGRES 2 OFFLINE 3 0)"
    by (simp add: rsW7_def registry_def store_def getBackend_def)
  have t: "type' (config (store ''backup'' POSTGRES 2 OFFLINE 3 0)) \<noteq> MOCK" by (simp add: store_def)
  have f: "\<not> healthCheckRunning rsW7" by (simp add: rsW7_def registry_def)
  have c: "currentBackendId rsW7 = Some ''primary''" by (simp add: rsW7_def registry_def)
  show ?thesis using switchBackend_probe_fails [OF g t f, of env0 5] c by simp
qed

section \<open>Properties of the queries\<close>

lemma queryEnter_current:
  assumes "currentBackendId rs = Some k" "k \<noteq> []" "getBackend rs k = Some b"
  shows "queryEnter env now rs = (Inr b, setLastUsed k now rs)"
  using assms getBackend_id[OF assms(3)] by (simp add: queryEnter_def truthy_def)

lemma getBackend_setLastUsed:
  "getBackend (setLastUsed k now rs) k' =
     (if k' = k then map_option (\<lambda>b. b\<lparr>lastUsed := now\<rparr>) (getBackend rs k) else getBackend rs k')"
  by (simp add: setLastUsed_def getBackend_def find_modifyBackend)

lemma getBackend_updateBackendStatus:
  "getBackend (updateBackendStatus rs k st) k' =
     (if k' = k then map_option (\<lambda>b. b\<lparr>config := (config b)\<lparr>status := st\<rparr>\<rparr>) (getBackend rs k) else getBackend rs k')"
  by (simp add: updateBackendStatus_def getBackend_modifyConfig)

lemma serving_setLastUsed: "serving k rs \<Longrightarrow> serving k (setLastUsed k now rs)"
  by (auto simp: serving_def getBackend_setLastUsed hasDriver_def split: option.splits)

lemma serving_queryFailed:
  assumes "serving k rs" "getBackend rs k = Some b"
  shows "serving k (queryFailed env now rs b)"
proof -
  have k: "id' (config b) = k" using assms(2) by (rule getBackend_id)
  have h: "hasDriver b" using assms by (simp add: serving_def)
  have c: "currentBackendId rs = Some k" using assms by (simp add: serving_def)
  let ?rs1 = "updateBackendStatus rs k DEGRADED"
  have g1: "getBackend ?rs1 k = Some (b\<lparr>config := (config b)\<lparr>status := DEGRADED\<rparr>\<rparr>)"
    using assms(2) by (simp add: getBackend_updateBackendStatus)
  show ?thesis
    using k h c g1 assms(2)
    by (auto simp: queryFailed_def triggerHealthCheck_def checkBackendHealthStart_def Let_def
        serving_def hasDriver_def getBackend_modifyConfig getBackend_updateBackendStatus)
qed

lemma query_retry_step:
  assumes "currentBackendId rs = Some k" "k \<noteq> []" "getBackend rs k = Some b" "hasDriver b"
    and "driver w n k = Threw e" "isTransientError e" "retryCount < MAX_RETRIES"
  shows "query env w fuel retryCount n rs =
    (case query env w fuel (retryCount + 1) (n + 2)
            (interfere w (n + 1) (queryFailed env (clock w (n + 1)) (interfere w n (setLastUsed k (clock w n) rs)) b)) of
       (res, acts, rs') \<Rightarrow> (res, [Attempt k retryCount, Delay (RETRY_DELAY_MS * 2 ^ retryCount)] @ acts, rs'))"
  using assms getBackend_id[OF assms(3)]
  by (subst query.simps) (simp add: queryEnter_current Let_def)

lemma query_last_step:
  assumes "currentBackendId rs = Some k" "k \<noteq> []" "getBackend rs k = Some b" "hasDriver b"
    and "driver w n k = Threw e" "\<not> (isTransientError e \<and> retryCount < MAX_RETRIES)"
  shows "\<exists>x rest. fst (snd (query env w fuel retryCount n rs)) = [Attempt k retryCount, Reselect x] @ rest"
  using assms getBackend_id[OF assms(3)]
  by (subst query.simps)
     (auto simp add: queryEnter_current Let_def split: prod.splits CatchDecision.splits nat.splits DriverOutcome.splits)


lemma trace_retry:
  assumes s: "serving k rs" and ne: "k \<noteq> []"
    and d: "\<forall>n. \<exists>e. driver w n k = Threw e \<and> isTransientError e"
    and i: "\<forall>n r. serving k r \<longrightarrow> serving k (interfere w n r)"
    and r: "retryCount < MAX_RETRIES"
  shows "\<exists>rs'. serving k rs' \<and>
     fst (snd (query env w fuel retryCount n rs)) =
       [Attempt k retryCount, Delay (RETRY_DELAY_MS * 2 ^ retryCount)] @
       fst (snd (query env w fuel (retryCount + 1) (n + 2) rs'))"
proof -
  from s obtain b where b: "currentBackendId rs = Some k" "getBackend rs k = Some b" "hasDriver b"
    by (auto simp: serving_def split: option.splits)
  from d obtain e where e: "driver w n k = Threw e" "isTransientError e" by blast
  let ?rs1 = "interfere w n (setLastUsed k (clock w n) rs)"
  let ?rs2 = "interfere w (n + 1) (queryFailed env (clock w (n + 1)) ?rs1 b)"
  have q: "query env w fuel retryCount n rs =
    (case query env w fuel (retryCount + 1) (n + 2) ?rs2 of
       (res, acts, rs') \<Rightarrow> (res, [Attempt k retryCount, Delay (RETRY_DELAY_MS * 2 ^ retryCount)] @ acts, rs'))"
    by (rule query_retry_step[OF b(1) ne b(2) b(3) e r])
  have s1: "serving k ?rs1" using s i serving_setLastUsed by blast
  have kb: "id' (config b) = k" using b(2) by (rule getBackend_id)
  have s2: "serving k (queryFailed env (clock w (n + 1)) ?rs1 b)"
  proof -
    from s1 obtain b1 where b1: "getBackend ?rs1 k = Some b1" "hasDriver b1" "currentBackendId ?rs1 = Some k"
      by (auto simp: serving_def split: option.splits)
    have k1: "id' (config b1) = k" using b1(1) by (rule getBackend_id)
    have "queryFailed env (clock w (n + 1)) ?rs1 b = queryFailed env (clock w (n + 1)) ?rs1 b1"
      using kb k1 by (simp add: queryFailed_def)
    then show ?thesis using serving_queryFailed[OF s1 b1(1)] by simp
  qed
  then have s3: "serving k ?rs2" using i by blast
  show ?thesis using q s3 by (auto split: prod.splits)
qed

lemma trace_last:
  assumes s: "serving k rs" and ne: "k \<noteq> []"
    and d: "\<forall>n. \<exists>e. driver w n k = Threw e \<and> isTransientError e"
  shows "\<exists>x rest. fst (snd (query env w fuel MAX_RETRIES n rs)) = [Attempt k MAX_RETRIES, Reselect x] @ rest"
proof -
  from s obtain b where b: "currentBackendId rs = Some k" "getBackend rs k = Some b" "hasDriver b"
    by (auto simp: serving_def split: option.splits)
  from d obtain e where e: "driver w n k = Threw e" by blast
  have "\<not> (isTransientError e \<and> MAX_RETRIES < MAX_RETRIES)" by simp
  then show ?thesis by (rule query_last_step[OF b(1) ne b(2) b(3) e])
qed

text \<open>
  The trace of one call of \<open>query\<close>, one step at a time: what the call appends before it
  returns, retries on the same store, or selects again. From these, by induction on the
  fuel and the retries left: whatever the driver answers and whatever the rest of the
  process does between the steps, no leg of a call has more than \<open>MAX_RETRIES + 1\<close> attempts.
\<close>

lemma query_trace_no_backend:
  fixes w :: "'r World"
  assumes "queryEnter env (clock w n) rs = (Inl err, rs1)"
  shows "traceOf (query env w fuel retryCount n rs) = []"
  using assms by (subst query.simps) (simp add: traceOf_def)

lemma query_trace_returned:
  fixes w :: "'r World"
  assumes "queryEnter env (clock w n) rs = (Inr backend, rs1)"
   and "(if hasDriver backend then driver w n (id' (config backend))
         else Threw \<lparr>message = ''Unsupported backend type: '' @ typeName (type' (config backend)), code = None\<rparr>) = Returned r"
  shows "traceOf (query env w fuel retryCount n rs) = (if hasDriver backend then [Attempt (id' (config backend)) retryCount] else [])"
  using assms by (subst query.simps) (simp add: traceOf_def Let_def)

lemma query_trace_retry:
  fixes w :: "'r World"
  assumes "queryEnter env (clock w n) rs = (Inr backend, rs1)"
   and "(if hasDriver backend then driver w n (id' (config backend))
         else Threw \<lparr>message = ''Unsupported backend type: '' @ typeName (type' (config backend)), code = None\<rparr>) = Threw error"
   and "isTransientError error \<and> retryCount < MAX_RETRIES"
  shows "traceOf (query env w fuel retryCount n rs) =
     (if hasDriver backend then [Attempt (id' (config backend)) retryCount] else []) @ [Delay (RETRY_DELAY_MS * 2 ^ retryCount)] @
     traceOf (query env w fuel (retryCount + 1) (n + 2)
       (interfere w (n + 1) (queryFailed env (clock w (n + 1)) (if hasDriver backend then interfere w n rs1 else rs1) backend)))"
  using assms by (subst query.simps) (simp add: traceOf_def Let_def split_beta)

lemma query_trace_reselect_last:
  fixes w :: "'r World"
  assumes "queryEnter env (clock w n) rs = (Inr backend, rs1)"
   and "(if hasDriver backend then driver w n (id' (config backend))
         else Threw \<lparr>message = ''Unsupported backend type: '' @ typeName (type' (config backend)), code = None\<rparr>) = Threw error"
   and "\<not> (isTransientError error \<and> retryCount < MAX_RETRIES)"
   and "queryReselect env (clock w (n + 1))
          (queryFailed env (clock w (n + 1)) (if hasDriver backend then interfere w n rs1 else rs1) backend)
          backend error retryCount = (RetryNew x, rs4)"
   and "fuel = 0"
  shows "traceOf (query env w fuel retryCount n rs) =
     (if hasDriver backend then [Attempt (id' (config backend)) retryCount] else []) @ [Reselect x]"
proof (cases "hasDriver backend")
  case True
  with assms show ?thesis
    by (subst query.simps) (auto simp add: traceOf_def Let_def)
next
  case False
  with assms show ?thesis
    by (subst query.simps) (auto simp add: traceOf_def Let_def)
qed

lemma query_trace_reselect:
  fixes w :: "'r World"
  assumes "queryEnter env (clock w n) rs = (Inr backend, rs1)"
   and "(if hasDriver backend then driver w n (id' (config backend))
         else Threw \<lparr>message = ''Unsupported backend type: '' @ typeName (type' (config backend)), code = None\<rparr>) = Threw error"
   and "\<not> (isTransientError error \<and> retryCount < MAX_RETRIES)"
   and "queryReselect env (clock w (n + 1))
          (queryFailed env (clock w (n + 1)) (if hasDriver backend then interfere w n rs1 else rs1) backend)
          backend error retryCount = (RetryNew x, rs4)"
   and "fuel = Suc fuel'"
  shows "traceOf (query env w fuel retryCount n rs) =
     (if hasDriver backend then [Attempt (id' (config backend)) retryCount] else []) @ [Reselect x] @ traceOf (query env w fuel' 0 (n + 1) rs4)"
proof (cases "hasDriver backend")
  case True
  with assms show ?thesis
    by (subst query.simps) (auto simp add: traceOf_def Let_def split_beta)
next
  case False
  with assms show ?thesis
    by (subst query.simps) (auto simp add: traceOf_def Let_def split_beta)
qed

lemma query_trace_mock:
  fixes w :: "'r World"
  assumes "queryEnter env (clock w n) rs = (Inr backend, rs1)"
   and "(if hasDriver backend then driver w n (id' (config backend))
         else Threw \<lparr>message = ''Unsupported backend type: '' @ typeName (type' (config backend)), code = None\<rparr>) = Threw error"
   and "\<not> (isTransientError error \<and> retryCount < MAX_RETRIES)"
   and "queryReselect env (clock w (n + 1))
          (queryFailed env (clock w (n + 1)) (if hasDriver backend then interfere w n rs1 else rs1) backend)
          backend error retryCount = (UseMock x m, rs4)"
  shows "traceOf (query env w fuel retryCount n rs) =
     (if hasDriver backend then [Attempt (id' (config backend)) retryCount] else []) @ [Reselect x, Fallback m]"
proof (cases "hasDriver backend")
  case True
  with assms show ?thesis
    by (subst query.simps) (auto simp add: traceOf_def Let_def split_beta split: DriverOutcome.splits)
next
  case False
  with assms show ?thesis
    by (subst query.simps) (auto simp add: traceOf_def Let_def split_beta split: DriverOutcome.splits)
qed

lemma query_trace_give_up:
  fixes w :: "'r World"
  assumes "queryEnter env (clock w n) rs = (Inr backend, rs1)"
   and "(if hasDriver backend then driver w n (id' (config backend))
         else Threw \<lparr>message = ''Unsupported backend type: '' @ typeName (type' (config backend)), code = None\<rparr>) = Threw error"
   and "\<not> (isTransientError error \<and> retryCount < MAX_RETRIES)"
   and "queryReselect env (clock w (n + 1))
          (queryFailed env (clock w (n + 1)) (if hasDriver backend then interfere w n rs1 else rs1) backend)
          backend error retryCount = (GiveUp x err, rs4)"
  shows "traceOf (query env w fuel retryCount n rs) =
     (if hasDriver backend then [Attempt (id' (config backend)) retryCount] else []) @ [Reselect x]"
proof (cases "hasDriver backend")
  case True
  with assms show ?thesis
    by (subst query.simps) (auto simp add: traceOf_def Let_def)
next
  case False
  with assms show ?thesis
    by (subst query.simps) (auto simp add: traceOf_def Let_def)
qed

lemma attemptsWithin_mono: "attemptsWithin n as \<Longrightarrow> n \<le> m \<Longrightarrow> attemptsWithin m as"
  by (induction n as arbitrary: m rule: attemptsWithin.induct) auto

lemma attemptsWithin_leg:
  assumes "attemptsWithin (b - 1) rest" and "0 < b"
  shows "attemptsWithin b ((if c then [Attempt k r] else []) @ rest)"
  using assms by (auto intro: attemptsWithin_mono)

lemma query_legs_bounded:
  fixes w :: "'r World"
  shows "attemptsWithin (max 1 (MAX_RETRIES + 1 - retryCount)) (traceOf (query env w fuel retryCount n rs))"
proof (induction "fuel * (MAX_RETRIES + 1) + (MAX_RETRIES - retryCount)" arbitrary: fuel retryCount n rs rule: less_induct)
  case less
  define b where "b = max 1 (MAX_RETRIES + 1 - retryCount)"
  have b0: "0 < b" by (simp add: b_def)
  show ?case unfolding b_def[symmetric]
  proof (cases "queryEnter env (clock w n) rs")
    case (Pair a rs1)
    show "attemptsWithin b (traceOf (query env w fuel retryCount n rs))"
    proof (cases a)
      case (Inl err)
      with Pair have "traceOf (query env w fuel retryCount n rs) = []" by (simp add: query_trace_no_backend)
      then show ?thesis by simp
    next
      case (Inr backend)
      have e: "queryEnter env (clock w n) rs = (Inr backend, rs1)" using Pair Inr by simp
      define outcome where "outcome = (if hasDriver backend then driver w n (id' (config backend))
         else Threw \<lparr>message = ''Unsupported backend type: '' @ typeName (type' (config backend)), code = None\<rparr>)"
      define rs3 where "rs3 = queryFailed env (clock w (n + 1)) (if hasDriver backend then interfere w n rs1 else rs1) backend"
      show ?thesis
      proof (cases outcome)
        case (Returned r)
        note query_trace_returned[OF e Returned[unfolded outcome_def]]
        moreover have "attemptsWithin b ((if hasDriver backend then [Attempt (id' (config backend)) retryCount] else []) @ [])"
          using b0 by (intro attemptsWithin_leg) simp_all
        ultimately show ?thesis by simp
      next
        case (Threw error)
        note th = Threw[unfolded outcome_def]
        show ?thesis
        proof (cases "isTransientError error \<and> retryCount < MAX_RETRIES")
          case True
          have ih: "attemptsWithin (max 1 (MAX_RETRIES + 1 - (retryCount + 1)))
              (traceOf (query env w fuel (retryCount + 1) (n + 2) (interfere w (n + 1) rs3)))"
            using True by (intro less) (auto simp add: MAX_RETRIES_def)
          have eq: "max 1 (MAX_RETRIES + 1 - (retryCount + 1)) = b - 1" using True by (auto simp add: b_def max_def)
          have "attemptsWithin b ((if hasDriver backend then [Attempt (id' (config backend)) retryCount] else []) @
              ([Delay (RETRY_DELAY_MS * 2 ^ retryCount)] @
               traceOf (query env w fuel (retryCount + 1) (n + 2) (interfere w (n + 1) rs3))))"
            using ih b0 unfolding eq by (intro attemptsWithin_leg) simp_all
          then show ?thesis unfolding query_trace_retry[OF e th True] rs3_def by simp
        next
          case False
          obtain dec rs4 where q: "queryReselect env (clock w (n + 1)) rs3 backend error retryCount = (dec, rs4)"
            by (cases "queryReselect env (clock w (n + 1)) rs3 backend error retryCount") auto
          note q' = q[unfolded rs3_def]
          show ?thesis
          proof (cases dec)
            case (RetryNew x)
            show ?thesis
            proof (cases fuel)
              case 0
              have "attemptsWithin b ((if hasDriver backend then [Attempt (id' (config backend)) retryCount] else []) @ [Reselect x])"
                using b0 by (intro attemptsWithin_leg) simp_all
              then show ?thesis unfolding query_trace_reselect_last[OF e th False q'[unfolded RetryNew] 0] by simp
            next
              case (Suc fuel')
              have ih: "attemptsWithin (max 1 (MAX_RETRIES + 1 - 0)) (traceOf (query env w fuel' 0 (n + 1) rs4))"
                using Suc by (intro less) (simp add: MAX_RETRIES_def)
              have "attemptsWithin b ((if hasDriver backend then [Attempt (id' (config backend)) retryCount] else []) @
                  ([Reselect x] @ traceOf (query env w fuel' 0 (n + 1) rs4)))"
                using ih b0 by (intro attemptsWithin_leg) simp_all
              then show ?thesis unfolding query_trace_reselect[OF e th False q'[unfolded RetryNew] Suc] by simp
            qed
          next
            case (UseMock x m)
            have "attemptsWithin b ((if hasDriver backend then [Attempt (id' (config backend)) retryCount] else []) @ [Reselect x, Fallback m])"
              using b0 by (intro attemptsWithin_leg) simp_all
            then show ?thesis unfolding query_trace_mock[OF e th False q'[unfolded UseMock]] by simp
          next
            case (GiveUp x err)
            have "attemptsWithin b ((if hasDriver backend then [Attempt (id' (config backend)) retryCount] else []) @ [Reselect x])"
              using b0 by (intro attemptsWithin_leg) simp_all
            then show ?thesis unfolding query_trace_give_up[OF e th False q'[unfolded GiveUp]] by simp
          qed
        qed
      qed
    qed
  qed
qed

text \<open>
  C3, as amended. While store \<open>k\<close> is the current store and stays so (the rest of the
  process leaves it current, registered and with its driver), and its driver always fails
  with an error classified as transient, \<open>query\<close> makes four attempts against it, the first
  one and \<open>MAX_RETRIES = 3\<close> retries, waiting 500 ms times 2 to the retry count (500, 1000,
  2000 ms) between consecutive attempts, before it selects again. And whatever the driver
  and the rest of the process do, no leg of the call (the attempts between two
  selections) has more than \<open>MAX_RETRIES + 1 = 4\<close> attempts.
\<close>

theorem query_transient_leg:
  assumes s: "serving k rs" and ne: "k \<noteq> []"
    and d: "\<forall>n. \<exists>e. driver w n k = Threw e \<and> isTransientError e"
    and i: "\<forall>n r. serving k r \<longrightarrow> serving k (interfere w n r)"
  shows "(\<exists>x rest. fst (snd (query env w fuel 0 n rs)) =
           [Attempt k 0, Delay 500, Attempt k 1, Delay 1000, Attempt k 2, Delay 2000,
            Attempt k 3, Reselect x] @ rest) \<and>
         attemptsWithin (MAX_RETRIES + 1) (fst (snd (query env w fuel 0 n rs)))"
proof -
  have r0: "(0::nat) < MAX_RETRIES" and r1: "(0::nat) + 1 < MAX_RETRIES"
    and r2: "(0::nat) + 1 + 1 < MAX_RETRIES" and r3: "(0::nat) + 1 + 1 + 1 = MAX_RETRIES"
    by (simp_all add: MAX_RETRIES_def)
  from trace_retry[OF s ne d i r0, of env fuel n]
  obtain rs1 where 1: "serving k rs1"
    "fst (snd (query env w fuel 0 n rs)) =
       [Attempt k 0, Delay (RETRY_DELAY_MS * 2 ^ 0)] @ fst (snd (query env w fuel (0 + 1) (n + 2) rs1))"
    by blast
  from trace_retry[OF 1(1) ne d i r1, of env fuel "n + 2"]
  obtain rs2 where 2: "serving k rs2"
    "fst (snd (query env w fuel (0 + 1) (n + 2) rs1)) =
       [Attempt k (0 + 1), Delay (RETRY_DELAY_MS * 2 ^ (0 + 1))] @
       fst (snd (query env w fuel (0 + 1 + 1) (n + 2 + 2) rs2))"
    by blast
  from trace_retry[OF 2(1) ne d i r2, of env fuel "n + 2 + 2"]
  obtain rs3 where 3: "serving k rs3"
    "fst (snd (query env w fuel (0 + 1 + 1) (n + 2 + 2) rs2)) =
       [Attempt k (0 + 1 + 1), Delay (RETRY_DELAY_MS * 2 ^ (0 + 1 + 1))] @
       fst (snd (query env w fuel (0 + 1 + 1 + 1) (n + 2 + 2 + 2) rs3))"
    by blast
  from trace_last[OF 3(1) ne d, of env fuel "n + 2 + 2 + 2"]
  obtain x rest where 4:
    "fst (snd (query env w fuel (0 + 1 + 1 + 1) (n + 2 + 2 + 2) rs3)) = [Attempt k (0 + 1 + 1 + 1), Reselect x] @ rest"
    unfolding r3 by blast
  have "fst (snd (query env w fuel 0 n rs)) =
      [Attempt k 0, Delay (RETRY_DELAY_MS * 2 ^ 0), Attempt k (0 + 1), Delay (RETRY_DELAY_MS * 2 ^ (0 + 1)),
       Attempt k (0 + 1 + 1), Delay (RETRY_DELAY_MS * 2 ^ (0 + 1 + 1)), Attempt k (0 + 1 + 1 + 1), Reselect x] @ rest"
    unfolding 1(2) 2(2) 3(2) 4 by simp
  then have "fst (snd (query env w fuel 0 n rs)) =
      [Attempt k 0, Delay 500, Attempt k 1, Delay 1000, Attempt k 2, Delay 2000, Attempt k 3, Reselect x] @ rest"
    by (simp add: RETRY_DELAY_MS_def)
  then have first: "\<exists>x rest. fst (snd (query env w fuel 0 n rs)) =
      [Attempt k 0, Delay 500, Attempt k 1, Delay 1000, Attempt k 2, Delay 2000, Attempt k 3, Reselect x] @ rest"
    by blast
  have "attemptsWithin (MAX_RETRIES + 1) (fst (snd (query env w fuel 0 n rs)))"
    using query_legs_bounded[of 0 env w fuel n rs] by (simp add: traceOf_def)
  with first show ?thesis by (rule conjI)
qed

text \<open>
  C3 as stated fails: against a store whose driver always times out, with nothing else
  going on, \<open>query\<close> makes four attempts in one leg, not three.
\<close>

theorem query_transient_counterexample:
  "fst (query env1 alwaysTimeout 5 0 0 rsC3) = Some (Inl (QueryFailed 3 ''Query timeout after 10000ms'')) \<and>
   fst (snd (query env1 alwaysTimeout 5 0 0 rsC3)) =
      [Attempt ''primary'' 0, Delay 500, Attempt ''primary'' 1, Delay 1000,
       Attempt ''primary'' 2, Delay 2000, Attempt ''primary'' 3, Reselect (Some ''primary'')] \<and>
   length (filter (\<lambda>a. case a of Attempt i n \<Rightarrow> i = ''primary'' | _ \<Rightarrow> False)
      (fst (snd (query env1 alwaysTimeout 5 0 0 rsC3)))) = 4"
  by (simp add: query.simps eval_defs rsC3_def env1_def timeoutError_transient alwaysTimeout_def
      message_timeoutError)

text \<open>
  The amended statement for the store \<open>primary\<close> with a driver that always times out.
\<close>

theorem query_transient_leg_witness:
  "serving ''primary'' rsW2 \<and>
   (\<exists>x rest. fst (snd (query env0 alwaysTimeout 5 0 0 rsW2)) =
      [Attempt ''primary'' 0, Delay 500, Attempt ''primary'' 1, Delay 1000,
       Attempt ''primary'' 2, Delay 2000, Attempt ''primary'' 3, Reselect x] @ rest) \<and>
   attemptsWithin (MAX_RETRIES + 1) (fst (snd (query env0 alwaysTimeout 5 0 0 rsW2)))"
proof -
  have s: "serving ''primary'' rsW2"
    by (simp add: serving_def rsW2_def registry_def store_def getBackend_def hasDriver_def)
  have ne: "''primary'' \<noteq> []" by simp
  have d: "\<forall>n. \<exists>e. driver alwaysTimeout n ''primary'' = Threw e \<and> isTransientError e"
    by (simp add: alwaysTimeout_def quiet_def timeoutError_transient)
  have i: "\<forall>n r. serving ''primary'' r \<longrightarrow> serving ''primary'' (interfere alwaysTimeout n r)"
    by (simp add: alwaysTimeout_def quiet_def)
  show ?thesis using s query_transient_leg [OF s ne d i, of env0 5 0] by blast
qed

text \<open>
  While a health check is running no other one starts, so the counters of a store that is
  not a mock store do not move until the probe answers: every event of the registry but
  the answer of the probe leaves such a store, once DEGRADED, with its configuration, up
  to \<open>enabled\<close>.
\<close>

lemma probePending_iff:
  "probePending k c rs = (healthCheckRunning rs \<and> (\<exists>en. cfg rs k = Some (c\<lparr>enabled := en\<rparr>)))"
  unfolding probePending_def by (metis (full_types))

lemma flag_setLastUsed [simp]: "healthCheckRunning (setLastUsed j now rs) = healthCheckRunning rs"
  by (simp add: setLastUsed_def)

lemma pp_fields [simp]:
  "probePending k c (rs\<lparr>currentBackendId := x\<rparr>) = probePending k c rs"
  "probePending k c (rs\<lparr>roundRobinIndex := i\<rparr>) = probePending k c rs"
  "probePending k c (rs\<lparr>selectionStrategy := s\<rparr>) = probePending k c rs"
  "probePending k c (setLastUsed j now rs) = probePending k c rs"
  by (simp_all add: probePending_def)

lemma pp_type: "probePending k c rs \<Longrightarrow> \<exists>c'. cfg rs k = Some c' \<and> type' c' = type' c \<and> status c' = status c"
  by (auto simp: probePending_def)

lemma pp_status:
  assumes "probePending k c rs" "status c = DEGRADED"
  shows "probePending k c (updateBackendStatus rs j DEGRADED)"
proof -
  from assms obtain en where c': "cfg rs k = Some (c\<lparr>enabled := en\<rparr>)" "healthCheckRunning rs"
    by (auto simp: probePending_iff)
  have "(c\<lparr>enabled := en\<rparr>)\<lparr>status := DEGRADED\<rparr> = c\<lparr>enabled := en\<rparr>" using assms(2) by simp
  then have "cfg (updateBackendStatus rs j DEGRADED) k = Some (c\<lparr>enabled := en\<rparr>)"
    using c'(1) by (auto simp add: cfg_updateBackendStatus)
  then show ?thesis using c'(2) unfolding probePending_iff by (auto simp: updateBackendStatus_def)
qed

lemma pp_trigger:
  assumes "probePending k c rs" "type' c \<noteq> MOCK"
  shows "probePending k c (triggerHealthCheck env now rs j)"
proof (cases "getBackend rs j")
  case None
  then show ?thesis using assms by (simp add: triggerHealthCheck_def checkBackendHealthStart_def)
next
  case (Some b)
  from pp_type[OF assms(1)] obtain c' where c': "cfg rs k = Some c'" "type' c' = type' c" by blast
  have f: "healthCheckRunning rs" using assms by (simp add: probePending_def)
  show ?thesis
  proof (cases "type' (config b) = MOCK")
    case True
    then have "j \<noteq> k" using Some c' assms(2) by (auto simp: cfg_def)
    then have "cfg (modifyConfig j (\<lambda>c. c\<lparr>status := ONLINE\<rparr>) rs) k = cfg rs k"
      by (simp add: cfg_modifyConfig)
    then show ?thesis using Some True assms(1)
      by (simp add: triggerHealthCheck_def checkBackendHealthStart_def probePending_def)
  next
    case False
    then show ?thesis using Some f assms(1)
      by (simp add: triggerHealthCheck_def checkBackendHealthStart_def)
  qed
qed

lemma pp_sbp:
  assumes "\<And>r j. probePending k c r \<Longrightarrow> probePending k c (chk r j)" "probePending k c rs"
  shows "probePending k c (snd (selectByPriority chk env rs bs))"
  using sbp_snd_cases[of chk env rs bs] assms by auto

lemma pp_srr:
  assumes "\<And>r j. probePending k c r \<Longrightarrow> probePending k c (chk r j)" "probePending k c rs"
  shows "probePending k c (snd (selectByRoundRobin chk env rs bs))"
  using assms pp_sbp[of k c chk rs env bs] by (simp add: selectByRoundRobin_def Let_def)

lemma pp_selectBackend:
  assumes "\<And>r j. probePending k c r \<Longrightarrow> probePending k c (chk r j)" "probePending k c rs"
  shows "probePending k c (snd (selectBackend chk env now rs))"
proof -
  let ?bs = "filter (\<lambda>b. enabled (config b)) (backends rs)"
  have 1: "probePending k c (snd (selectByPriority chk env rs ?bs))" using assms by (rule pp_sbp)
  have 2: "probePending k c (snd (selectByRoundRobin chk env rs ?bs))" using assms by (rule pp_srr)
  show ?thesis using 1 2 assms(2)
    by (auto simp: selectBackend_def Let_def
        split: prod.splits option.splits SelectionStrategy.splits if_splits)
qed

lemma pp_select:
  assumes "probePending k c rs" "type' c \<noteq> MOCK"
  shows "probePending k c (snd (selectBackend (triggerHealthCheck env t) env now rs))"
  by (rule pp_selectBackend) (use assms in \<open>auto intro: pp_trigger\<close>)

lemma pp_queryEnter:
  assumes "probePending k c rs" "type' c \<noteq> MOCK"
  shows "probePending k c (snd (queryEnter env now rs))"
  using assms pp_select[OF assms, of env now now]
  by (auto simp: queryEnter_def Let_def split: option.splits)

lemma pp_queryFailed:
  assumes "probePending k c rs" "type' c \<noteq> MOCK" "status c = DEGRADED"
  shows "probePending k c (queryFailed env now rs b)"
  using assms by (simp add: queryFailed_def pp_trigger pp_status)

lemma pp_queryReselect:
  assumes "probePending k c rs" "type' c \<noteq> MOCK"
  shows "probePending k c (snd (queryReselect env now rs b e n))"
  using assms pp_select[OF assms, of env now now]
  by (auto simp: queryReselect_def Let_def split: prod.splits option.splits)

lemma pp_enabled:
  assumes "probePending k c rs"
  shows "probePending k c (modifyConfig j (\<lambda>c. c\<lparr>enabled := en\<rparr>) rs)"
  using assms unfolding probePending_iff by (auto simp: cfg_modifyConfig)

lemma pp_setBackendEnabled:
  assumes "probePending k c rs" "type' c \<noteq> MOCK"
  shows "probePending k c (snd (setBackendEnabled env now rs j en))"
  using assms pp_enabled[OF assms(1), of j en]
    pp_select[OF pp_enabled[OF assms(1), of j en] assms(2), of env now now]
  by (auto simp add: setBackendEnabled_def Let_def split: option.splits)

lemma pp_step:
  assumes "probePending k c rs" "type' c \<noteq> MOCK" "status c = DEGRADED"
    and "\<And>now i h. ev \<noteq> ProbeAnswered now i h"
  shows "probePending k c (step env rs ev)"
  using assms
  by (cases ev)
     (auto simp: pp_trigger pp_status pp_queryEnter pp_queryFailed pp_queryReselect
        setSelectionStrategy_def pp_select pp_setBackendEnabled split: option.splits)

lemma pp_run:
  assumes "probePending k c rs" "type' c \<noteq> MOCK" "status c = DEGRADED"
    and "\<And>now i h. ProbeAnswered now i h \<notin> set evs"
  shows "probePending k c (run env rs evs)"
  using assms unfolding run_def
proof (induction evs arbitrary: rs)
  case Nil
  then show ?case by simp
next
  case (Cons ev evs)
  have "probePending k c (step env rs ev)"
    using Cons.prems(1-3) by (rule pp_step) (use Cons.prems(4) in auto)
  then show ?case using Cons by simp
qed

lemma finish_unhealthy:
  assumes "cfg rs k = Some c" "type' c \<noteq> MOCK"
  shows "cfg (snd (checkBackendHealthFinish env now False rs k)) k = Some (failureStep c)"
  using hhcf_self[OF assms, of env now] by (simp add: checkBackendHealthFinish_def)

lemma finish_healthy_cfg:
  assumes "cfg rs k = Some c"
  shows "cfg (snd (checkBackendHealthFinish env now True rs k)) k =
     Some (c\<lparr>successCount := successCount c + 1, failureCount := 0,
             status := (if recoveryThreshold c \<le> successCount c + 1 \<and> status c \<noteq> ONLINE then ONLINE else status c)\<rparr>)"
proof -
  from assms obtain b where b: "getBackend rs k = Some b" "config b = c" using cfg_getBackend by blast
  show ?thesis using b assms
    by (simp add: checkBackendHealthFinish_def Let_def cfg_modifyConfig cfg_updateBackendStatus)
qed

lemma trigger_cases:
  assumes g: "getBackend rs k = Some b"
  shows "triggerHealthCheck env now rs k =
    (if type' (config b) = MOCK then modifyConfig k (\<lambda>c. c\<lparr>status := ONLINE\<rparr>) rs
     else if healthCheckRunning rs then rs
     else if type' (config b) = POSTGRES \<and> pool b
          then modifyConfig k (\<lambda>c. c\<lparr>lastChecked := Some now\<rparr>) (rs\<lparr>healthCheckRunning := True\<rparr>)
          else (handleHealthCheckFailure env now
                  (modifyConfig k (\<lambda>c. c\<lparr>lastChecked := Some now\<rparr>) (rs\<lparr>healthCheckRunning := True\<rparr>)) k)
               \<lparr>healthCheckRunning := False\<rparr>)"
  using g by (simp add: triggerHealthCheck_def checkBackendHealthStart_def Let_def)

lemma query_catch:
  fixes w :: "'r World"
  assumes "queryEnter env (clock w n) rs = (Inr backend, rs1)"
   and "(if hasDriver backend then driver w n (id' (config backend))
         else Threw \<lparr>message = ''Unsupported backend type: '' @ typeName (type' (config backend)), code = None\<rparr>) = Threw error"
  shows "query env w fuel retryCount n rs =
     queryCatch env w fuel retryCount n backend error
       (queryFailed env (clock w (n + 1)) (if hasDriver backend then interfere w n rs1 else rs1) backend)"
proof (cases "hasDriver backend")
  case True
  with assms show ?thesis
    by (subst query.simps) (simp add: queryCatch_def Let_def)
next
  case False
  with assms show ?thesis
    by (subst query.simps) (simp add: queryCatch_def Let_def)
qed

text \<open>
  C2, as amended. A call of \<open>query\<close> enters with the store \<open>backend\<close>, registered under
  \<open>k\<close>, and its attempt throws; \<open>b\<close> is the store registered under \<open>k\<close> when the \<open>catch\<close>
  block starts, in the registry \<open>rs2\<close>. The block marks the store DEGRADED whatever its
  status was, calls the health check of the store without awaiting it, and goes on (retry,
  re-selection, fallback or error) from the registry \<open>rs3\<close> that these two statements
  leave. The failed query itself is not counted; what \<open>rs3\<close> holds for the store depends
  on the health check:
  \<^item> a mock store is ONLINE again at once, its counters as they were;
  \<^item> when a health check is already running, nothing but the status changes and no probe
    starts;
  \<^item> a PostgreSQL store with a pool, no health check running: the store is DEGRADED, its
    counters are as they were, and a probe is in flight, and this stays so whatever the
    registry does until a probe answers. A failed answer then increments \<open>failureCount\<close>,
    resets \<open>successCount\<close> and takes the store OFFLINE once the failures have reached
    \<open>maxFailures\<close>; a passed answer increments \<open>successCount\<close>, resets \<open>failureCount\<close> and
    brings the store ONLINE once the successes have reached \<open>recoveryThreshold\<close>;
  \<^item> any other store (a PostgreSQL store without a pool, or a store of type \<open>fallback\<close>),
    no health check running: the health check fails at once, so \<open>failureCount\<close> is
    incremented, \<open>successCount\<close> reset, and the store is OFFLINE when the failures have
    reached \<open>maxFailures\<close>, DEGRADED otherwise.
\<close>

theorem query_failure_marks_degraded:
  fixes w :: "'r World"
  assumes e: "queryEnter env (clock w n) rs = (Inr backend, rs1)"
    and t: "(if hasDriver backend then driver w n (id' (config backend))
             else Threw \<lparr>message = ''Unsupported backend type: '' @ typeName (type' (config backend)),
                         code = None\<rparr>) = Threw error"
    and k: "k = id' (config backend)"
    and r2: "rs2 = (if hasDriver backend then interfere w n rs1 else rs1)"
    and g: "getBackend rs2 k = Some b"
    and r3: "rs3 = queryFailed env (clock w (n + 1)) rs2 backend"
    and c3: "c3 = (config b)\<lparr>status := DEGRADED, lastChecked := Some (clock w (n + 1))\<rparr>"
  shows "query env w fuel retryCount n rs = queryCatch env w fuel retryCount n backend error rs3 \<and>
    (type' (config b) = MOCK \<longrightarrow>
       cfg rs3 k = Some ((config b)\<lparr>status := ONLINE\<rparr>) \<and>
       healthCheckRunning rs3 = healthCheckRunning rs2) \<and>
    (type' (config b) \<noteq> MOCK \<and> healthCheckRunning rs2 \<longrightarrow>
       rs3 = updateBackendStatus rs2 k DEGRADED \<and>
       cfg rs3 k = Some ((config b)\<lparr>status := DEGRADED\<rparr>)) \<and>
    (type' (config b) = POSTGRES \<and> pool b \<and> \<not> healthCheckRunning rs2 \<longrightarrow>
       cfg rs3 k = Some c3 \<and> healthCheckRunning rs3 \<and>
       (\<forall>evs. (\<forall>now i healthy. ProbeAnswered now i healthy \<notin> set evs) \<longrightarrow>
          healthCheckRunning (run env rs3 evs) \<and>
          (\<exists>en. cfg (run env rs3 evs) k = Some (c3\<lparr>enabled := en\<rparr>) \<and>
             cfg (snd (checkBackendHealthFinish env later False (run env rs3 evs) k)) k =
               Some (c3\<lparr>enabled := en,
                       status := (if maxFailures (config b) \<le> failureCount (config b) + 1
                                  then OFFLINE else DEGRADED),
                       failureCount := failureCount (config b) + 1, successCount := 0\<rparr>) \<and>
             cfg (snd (checkBackendHealthFinish env later True (run env rs3 evs) k)) k =
               Some (c3\<lparr>enabled := en,
                       status := (if recoveryThreshold (config b) \<le> successCount (config b) + 1
                                  then ONLINE else DEGRADED),
                       successCount := successCount (config b) + 1, failureCount := 0\<rparr>)))) \<and>
    (type' (config b) \<noteq> MOCK \<and> \<not> (type' (config b) = POSTGRES \<and> pool b) \<and> \<not> healthCheckRunning rs2 \<longrightarrow>
       cfg rs3 k =
         Some (c3\<lparr>status := (if maxFailures (config b) \<le> failureCount (config b) + 1
                               then OFFLINE else DEGRADED),
                 failureCount := failureCount (config b) + 1, successCount := 0\<rparr>) \<and>
       \<not> healthCheckRunning rs3)"
proof -
  let ?now = "clock w (n + 1)"
  let ?d = "updateBackendStatus rs2 k DEGRADED"
  let ?bd = "b\<lparr>config := (config b)\<lparr>status := DEGRADED\<rparr>\<rparr>"
  let ?cd = "(config b)\<lparr>status := DEGRADED\<rparr>"
  have c3': "c3 = ?cd\<lparr>lastChecked := Some ?now\<rparr>" unfolding c3 by simp
  have link: "query env w fuel retryCount n rs = queryCatch env w fuel retryCount n backend error rs3"
    unfolding r3 r2 by (rule query_catch[OF e t])
  have gd: "getBackend ?d k = Some ?bd" using g by (simp add: getBackend_updateBackendStatus)
  have cd: "cfg ?d k = Some ?cd" using g by (simp add: cfg_def getBackend_updateBackendStatus)
  have fd: "healthCheckRunning ?d = healthCheckRunning rs2" by (simp add: updateBackendStatus_def)
  have q: "rs3 = triggerHealthCheck env ?now ?d k" unfolding r3 k by (simp add: queryFailed_def)
  note tc = trigger_cases[OF gd, of env ?now, folded q]
  have mock: "cfg rs3 k = Some ((config b)\<lparr>status := ONLINE\<rparr>) \<and> healthCheckRunning rs3 = healthCheckRunning rs2"
    if "type' (config b) = MOCK"
    using that tc cd fd by (simp add: cfg_modifyConfig)
  have flagged: "rs3 = ?d \<and> cfg rs3 k = Some ?cd"
    if "type' (config b) \<noteq> MOCK \<and> healthCheckRunning rs2"
    using that tc cd fd by simp
  have pooled: "cfg rs3 k = Some c3 \<and> healthCheckRunning rs3"
    if "type' (config b) = POSTGRES \<and> pool b \<and> \<not> healthCheckRunning rs2"
    using that tc cd fd unfolding c3' by (simp add: cfg_modifyConfig)
  have later: "healthCheckRunning (run env rs3 evs) \<and>
          (\<exists>en. cfg (run env rs3 evs) k = Some (c3\<lparr>enabled := en\<rparr>) \<and>
             cfg (snd (checkBackendHealthFinish env later False (run env rs3 evs) k)) k =
               Some (c3\<lparr>enabled := en,
                       status := (if maxFailures (config b) \<le> failureCount (config b) + 1
                                  then OFFLINE else DEGRADED),
                       failureCount := failureCount (config b) + 1, successCount := 0\<rparr>) \<and>
             cfg (snd (checkBackendHealthFinish env later True (run env rs3 evs) k)) k =
               Some (c3\<lparr>enabled := en,
                       status := (if recoveryThreshold (config b) \<le> successCount (config b) + 1
                                  then ONLINE else DEGRADED),
                       successCount := successCount (config b) + 1, failureCount := 0\<rparr>))"
    if p: "type' (config b) = POSTGRES \<and> pool b \<and> \<not> healthCheckRunning rs2"
      and evs: "\<forall>now i healthy. ProbeAnswered now i healthy \<notin> set evs" for evs
  proof -
    have ty: "type' c3 \<noteq> MOCK" and st: "status c3 = DEGRADED" using p unfolding c3 by simp_all
    have "c3\<lparr>enabled := enabled c3\<rparr> = c3" by simp
    then have "probePending k c3 rs3" using pooled[OF p] unfolding probePending_iff by metis
    then have "probePending k c3 (run env rs3 evs)"
      using ty st by (rule pp_run) (use evs in simp)
    then obtain en where f: "healthCheckRunning (run env rs3 evs)"
      and en: "cfg (run env rs3 evs) k = Some (c3\<lparr>enabled := en\<rparr>)"
      unfolding probePending_iff by blast
    have 1: "cfg (snd (checkBackendHealthFinish env later False (run env rs3 evs) k)) k =
        Some (failureStep (c3\<lparr>enabled := en\<rparr>))"
      using en ty by (intro finish_unhealthy) auto
    have 2: "cfg (snd (checkBackendHealthFinish env later True (run env rs3 evs) k)) k =
        Some ((c3\<lparr>enabled := en\<rparr>)\<lparr>successCount := successCount (c3\<lparr>enabled := en\<rparr>) + 1, failureCount := 0,
             status := (if recoveryThreshold (c3\<lparr>enabled := en\<rparr>) \<le> successCount (c3\<lparr>enabled := en\<rparr>) + 1
                           \<and> status (c3\<lparr>enabled := en\<rparr>) \<noteq> ONLINE then ONLINE else status (c3\<lparr>enabled := en\<rparr>))\<rparr>)"
      using en by (rule finish_healthy_cfg)
    show ?thesis using f en 1 2 unfolding c3 by (auto simp add: failureStep_def Let_def)
  qed
  have poolless: "cfg rs3 k =
         Some (c3\<lparr>status := (if maxFailures (config b) \<le> failureCount (config b) + 1
                               then OFFLINE else DEGRADED),
                 failureCount := failureCount (config b) + 1, successCount := 0\<rparr>) \<and>
       \<not> healthCheckRunning rs3"
    if p: "type' (config b) \<noteq> MOCK \<and> \<not> (type' (config b) = POSTGRES \<and> pool b) \<and> \<not> healthCheckRunning rs2"
  proof -
    let ?r = "modifyConfig k (\<lambda>c. c\<lparr>lastChecked := Some ?now\<rparr>) (?d\<lparr>healthCheckRunning := True\<rparr>)"
    have 1: "cfg ?r k = Some c3" using cd unfolding c3' by (simp add: cfg_modifyConfig)
    have 2: "cfg (handleHealthCheckFailure env ?now ?r k) k = Some (failureStep c3)"
      using 1 p by (intro hhcf_self) (auto simp: c3)
    have 3: "rs3 = (handleHealthCheckFailure env ?now ?r k)\<lparr>healthCheckRunning := False\<rparr>"
      using p tc fd by auto
    show ?thesis unfolding 3 using 2 by (simp add: failureStep_def Let_def c3)
  qed
  show ?thesis using link mock flagged pooled later poolless by blast
qed

text \<open>
  C2 as stated fails: the only store is OFFLINE with three failures out of three; a query
  fails on it with an error that is not transient. The store is then DEGRADED, and its
  failure counter is still three.
\<close>

theorem query_failure_counterexample:
  "map_option status (cfg rsC2 ''primary'') = Some OFFLINE \<and>
   map_option failureCount (cfg rsC2 ''primary'') = Some 3 \<and>
   fst (query env1 alwaysSyntaxError 5 0 0 rsC2) = Some (Inl (QueryFailed 0 ''syntax error'')) \<and>
   map_option status (cfg (snd (snd (query env1 alwaysSyntaxError 5 0 0 rsC2))) ''primary'') = Some DEGRADED \<and>
   map_option failureCount (cfg (snd (snd (query env1 alwaysSyntaxError 5 0 0 rsC2))) ''primary'') = Some 3 \<and>
   map_option successCount (cfg (snd (snd (query env1 alwaysSyntaxError 5 0 0 rsC2))) ''primary'') = Some 0"
  by (simp add: query.simps eval_defs rsC2_def env1_def syntaxError_not_transient alwaysSyntaxError_def cfg_def
      message_syntaxError)

text \<open>
  The amended statement for a timeout on the ONLINE store \<open>primary\<close> with two successes:
  the failed query leaves it DEGRADED with the same counters and a probe in flight, and
  so do a second failed query and a pool error after it; a failed answer of the probe
  then records the first failure, a passed one the third success. And for the same store
  without a pool: the failed query leaves it DEGRADED with one failure and no success.
\<close>

theorem query_failure_marks_degraded_witness:
  "queryEnter env0 (clock alwaysTimeout 0) rsW2 =
     (Inr (store ''primary'' POSTGRES 1 ONLINE 0 2), setLastUsed ''primary'' 100 rsW2) \<and>
   driver alwaysTimeout 0 ''primary'' = Threw timeoutError \<and>
   query env0 alwaysTimeout 5 0 0 rsW2 =
     queryCatch env0 alwaysTimeout 5 0 0 (store ''primary'' POSTGRES 1 ONLINE 0 2) timeoutError
       (queryFailed env0 101 (setLastUsed ''primary'' 100 rsW2) (store ''primary'' POSTGRES 1 ONLINE 0 2)) \<and>
   map_option (\<lambda>c. (status c, failureCount c, successCount c))
     (cfg (queryFailed env0 101 (setLastUsed ''primary'' 100 rsW2) (store ''primary'' POSTGRES 1 ONLINE 0 2))
        ''primary'') = Some (DEGRADED, 0, 2) \<and>
   healthCheckRunning
     (queryFailed env0 101 (setLastUsed ''primary'' 100 rsW2) (store ''primary'' POSTGRES 1 ONLINE 0 2)) \<and>
   map_option (\<lambda>c. (status c, failureCount c, successCount c))
     (cfg (run env0
             (queryFailed env0 101 (setLastUsed ''primary'' 100 rsW2) (store ''primary'' POSTGRES 1 ONLINE 0 2))
             [QueryFailedOn 150 ''primary'', PoolError ''primary''])
        ''primary'') = Some (DEGRADED, 0, 2) \<and>
   map_option (\<lambda>c. (status c, failureCount c, successCount c))
     (cfg (snd (checkBackendHealthFinish env0 200 False
                 (run env0
                    (queryFailed env0 101 (setLastUsed ''primary'' 100 rsW2) (store ''primary'' POSTGRES 1 ONLINE 0 2))
                    [QueryFailedOn 150 ''primary'', PoolError ''primary''])
                 ''primary'')) ''primary'') = Some (DEGRADED, 1, 0) \<and>
   map_option (\<lambda>c. (status c, failureCount c, successCount c))
     (cfg (snd (checkBackendHealthFinish env0 200 True
                 (run env0
                    (queryFailed env0 101 (setLastUsed ''primary'' 100 rsW2) (store ''primary'' POSTGRES 1 ONLINE 0 2))
                    [QueryFailedOn 150 ''primary'', PoolError ''primary''])
                 ''primary'')) ''primary'') = Some (ONLINE, 0, 3) \<and>
   map_option (\<lambda>b. (pool b, status (config b), failureCount (config b), successCount (config b)))
     (getBackend rsP ''primary'') = Some (False, ONLINE, 0, 2) \<and>
   (\<exists>b. queryEnter env0 (clock alwaysTimeout 0) rsP = (Inr b, setLastUsed ''primary'' 100 rsP) \<and>
        \<not> hasDriver b \<and>
        map_option (\<lambda>c. (status c, failureCount c, successCount c))
          (cfg (queryFailed env0 101 (setLastUsed ''primary'' 100 rsP) b) ''primary'') = Some (DEGRADED, 1, 0))"
proof -
  let ?b = "store ''primary'' POSTGRES 1 ONLINE 0 2"
  let ?rs1 = "setLastUsed ''primary'' 100 rsW2"
  let ?evs = "[QueryFailedOn 150 ''primary'', PoolError ''primary'']"
  have e: "queryEnter env0 (clock alwaysTimeout 0) rsW2 = (Inr ?b, ?rs1)"
    by (simp add: queryEnter_def truthy_def rsW2_def registry_def store_def getBackend_def
        alwaysTimeout_def quiet_def)
  have h: "hasDriver ?b" by (simp add: hasDriver_def store_def)
  have d: "driver alwaysTimeout 0 ''primary'' = Threw timeoutError" by (simp add: alwaysTimeout_def quiet_def)
  have t: "(if hasDriver ?b then driver alwaysTimeout 0 (id' (config ?b))
            else Threw \<lparr>message = ''Unsupported backend type: '' @ typeName (type' (config ?b)),
                        code = None\<rparr>) = Threw timeoutError"
    using h d by (simp add: store_def)
  have i: "(if hasDriver ?b then interfere alwaysTimeout 0 ?rs1 else ?rs1) = ?rs1"
    by (simp add: alwaysTimeout_def quiet_def)
  have g: "getBackend (if hasDriver ?b then interfere alwaysTimeout 0 ?rs1 else ?rs1) ''primary'' = Some (?b\<lparr>lastUsed := 100\<rparr>)"
    unfolding i by (simp add: rsW2_def registry_def store_def getBackend_def setLastUsed_def)
  have k: "''primary'' = id' (config ?b)" by (simp add: store_def)
  have c: "clock alwaysTimeout (0 + 1) = 101" by (simp add: alwaysTimeout_def quiet_def)
  have v: "type' (config (?b\<lparr>lastUsed := 100\<rparr>)) = POSTGRES" "pool (?b\<lparr>lastUsed := 100\<rparr>)"
    "\<not> healthCheckRunning ?rs1"
    "failureCount (config (?b\<lparr>lastUsed := 100\<rparr>)) = 0" "successCount (config (?b\<lparr>lastUsed := 100\<rparr>)) = 2"
    "maxFailures (config (?b\<lparr>lastUsed := 100\<rparr>)) = 3" "recoveryThreshold (config (?b\<lparr>lastUsed := 100\<rparr>)) = 2"
    by (simp_all add: store_def rsW2_def registry_def setLastUsed_def)
  have n: "ProbeAnswered now i healthy \<notin> set ?evs" for now i healthy by simp
  let ?p = "(store ''primary'' POSTGRES 1 ONLINE 0 2)
              \<lparr>config := (config (store ''primary'' POSTGRES 1 ONLINE 0 2))\<lparr>connectionString := None\<rparr>,
               pool := False\<rparr>"
  let ?ps1 = "setLastUsed ''primary'' 100 rsP"
  have pg: "getBackend rsP ''primary'' = Some ?p" by (simp add: rsP_def registry_def store_def getBackend_def)
  have pe: "queryEnter env0 (clock alwaysTimeout 0) rsP = (Inr ?p, ?ps1)"
    by (simp add: queryEnter_def truthy_def rsP_def registry_def store_def getBackend_def
        alwaysTimeout_def quiet_def)
  have ph: "\<not> hasDriver ?p" by (simp add: hasDriver_def store_def)
  have pt: "(if hasDriver ?p then driver alwaysTimeout 0 (id' (config ?p))
            else Threw \<lparr>message = ''Unsupported backend type: '' @ typeName (type' (config ?p)),
                        code = None\<rparr>) = Threw \<lparr>message = ''Unsupported backend type: postgres'', code = None\<rparr>"
    using ph by (simp add: store_def typeName_def)
  have pi: "(if hasDriver ?p then interfere alwaysTimeout 0 ?ps1 else ?ps1) = ?ps1"
    using ph by simp
  have pg1: "getBackend (if hasDriver ?p then interfere alwaysTimeout 0 ?ps1 else ?ps1) ''primary'' = Some (?p\<lparr>lastUsed := 100\<rparr>)"
    unfolding pi by (simp add: rsP_def registry_def store_def getBackend_def setLastUsed_def)
  have pk: "''primary'' = id' (config ?p)" by (simp add: store_def)
  have pv: "type' (config (?p\<lparr>lastUsed := 100\<rparr>)) = POSTGRES" "\<not> pool (?p\<lparr>lastUsed := 100\<rparr>)"
    "\<not> healthCheckRunning ?ps1"
    "failureCount (config (?p\<lparr>lastUsed := 100\<rparr>)) = 0" "successCount (config (?p\<lparr>lastUsed := 100\<rparr>)) = 2"
    "maxFailures (config (?p\<lparr>lastUsed := 100\<rparr>)) = 3"
    by (simp_all add: store_def rsP_def registry_def setLastUsed_def)
  have pooled: "query env0 alwaysTimeout 5 0 0 rsW2 =
     queryCatch env0 alwaysTimeout 5 0 0 ?b timeoutError (queryFailed env0 101 ?rs1 ?b) \<and>
   map_option (\<lambda>c. (status c, failureCount c, successCount c)) (cfg (queryFailed env0 101 ?rs1 ?b) ''primary'')
     = Some (DEGRADED, 0, 2) \<and>
   healthCheckRunning (queryFailed env0 101 ?rs1 ?b) \<and>
   map_option (\<lambda>c. (status c, failureCount c, successCount c))
     (cfg (run env0 (queryFailed env0 101 ?rs1 ?b) ?evs) ''primary'') = Some (DEGRADED, 0, 2) \<and>
   map_option (\<lambda>c. (status c, failureCount c, successCount c))
     (cfg (snd (checkBackendHealthFinish env0 200 False (run env0 (queryFailed env0 101 ?rs1 ?b) ?evs) ''primary'')) ''primary'')
     = Some (DEGRADED, 1, 0) \<and>
   map_option (\<lambda>c. (status c, failureCount c, successCount c))
     (cfg (snd (checkBackendHealthFinish env0 200 True (run env0 (queryFailed env0 101 ?rs1 ?b) ?evs) ''primary'')) ''primary'')
     = Some (ONLINE, 0, 3)"
  proof -
    note th = query_failure_marks_degraded [OF e t k refl g refl refl, of 5 0 200, unfolded i c]
    have p: "type' (config (?b\<lparr>lastUsed := 100\<rparr>)) = POSTGRES \<and> pool (?b\<lparr>lastUsed := 100\<rparr>) \<and>
        \<not> healthCheckRunning ?rs1"
      using v by simp
    note now = th [THEN conjunct2, THEN conjunct2, THEN conjunct2, THEN conjunct1, rule_format, OF p]
    note then' = now [THEN conjunct2, THEN conjunct2, rule_format, OF n]
    from then' obtain en where en:
      "cfg (run env0 (queryFailed env0 101 ?rs1 ?b) ?evs) ''primary'' =
         Some ((config (?b\<lparr>lastUsed := 100\<rparr>))\<lparr>status := DEGRADED, lastChecked := Some 101, enabled := en\<rparr>)"
      "cfg (snd (checkBackendHealthFinish env0 200 False (run env0 (queryFailed env0 101 ?rs1 ?b) ?evs) ''primary'')) ''primary'' =
         Some ((config (?b\<lparr>lastUsed := 100\<rparr>))\<lparr>status := DEGRADED, lastChecked := Some 101, enabled := en,
                 status := (if maxFailures (config (?b\<lparr>lastUsed := 100\<rparr>)) \<le> failureCount (config (?b\<lparr>lastUsed := 100\<rparr>)) + 1
                            then OFFLINE else DEGRADED),
                 failureCount := failureCount (config (?b\<lparr>lastUsed := 100\<rparr>)) + 1, successCount := 0\<rparr>)"
      "cfg (snd (checkBackendHealthFinish env0 200 True (run env0 (queryFailed env0 101 ?rs1 ?b) ?evs) ''primary'')) ''primary'' =
         Some ((config (?b\<lparr>lastUsed := 100\<rparr>))\<lparr>status := DEGRADED, lastChecked := Some 101, enabled := en,
                 status := (if recoveryThreshold (config (?b\<lparr>lastUsed := 100\<rparr>)) \<le> successCount (config (?b\<lparr>lastUsed := 100\<rparr>)) + 1
                            then ONLINE else DEGRADED),
                 successCount := successCount (config (?b\<lparr>lastUsed := 100\<rparr>)) + 1, failureCount := 0\<rparr>)"
      by blast
    show ?thesis
      using th [THEN conjunct1] now [THEN conjunct1] now [THEN conjunct2, THEN conjunct1] en v
      by simp
  qed
  have poolless: "map_option (\<lambda>c. (status c, failureCount c, successCount c))
          (cfg (queryFailed env0 101 ?ps1 ?p) ''primary'') = Some (DEGRADED, 1, 0)"
    using query_failure_marks_degraded [OF pe pt pk refl pg1 refl refl, of 5 0 200]
    unfolding pi c using pv by simp
  have pgv: "map_option (\<lambda>b. (pool b, status (config b), failureCount (config b), successCount (config b)))
     (getBackend rsP ''primary'') = Some (False, ONLINE, 0, 2)"
    unfolding pg by (simp add: store_def)
  have ex: "\<exists>b. queryEnter env0 (clock alwaysTimeout 0) rsP = (Inr b, setLastUsed ''primary'' 100 rsP) \<and>
        \<not> hasDriver b \<and>
        map_option (\<lambda>c. (status c, failureCount c, successCount c))
          (cfg (queryFailed env0 101 (setLastUsed ''primary'' 100 rsP) b) ''primary'') = Some (DEGRADED, 1, 0)"
    using pe ph poolless by blast
  show ?thesis using e d pooled pgv ex by simp
qed

text \<open>
  C8, as amended. When the operation succeeds on the current store, \<open>query\<close> returns the
  result of the driver after this one attempt and sets \<open>lastUsed\<close> of the store; it
  records no success outcome: the configuration of every store, with its counters and its
  status, is left as it was.
\<close>

theorem query_success:
  assumes "currentBackendId rs = Some k" and "k \<noteq> []" and "getBackend rs k = Some b"
    and "hasDriver b" and "driver w n k = Returned r"
  shows "query env w fuel retryCount n rs =
           (Some (Inr r), [Attempt k retryCount], interfere w n (setLastUsed k (clock w n) rs)) \<and>
         getBackend (setLastUsed k (clock w n) rs) k = Some (b\<lparr>lastUsed := clock w n\<rparr>) \<and>
         (\<forall>j. cfg (setLastUsed k (clock w n) rs) j = cfg rs j)"
proof -
  have "query env w fuel retryCount n rs =
           (Some (Inr r), [Attempt k retryCount], interfere w n (setLastUsed k (clock w n) rs))"
    using assms getBackend_id[OF assms(3)]
    by (subst query.simps) (simp add: queryEnter_current Let_def)
  moreover have "getBackend (setLastUsed k (clock w n) rs) k = Some (b\<lparr>lastUsed := clock w n\<rparr>)"
    using assms(3) by (simp add: getBackend_setLastUsed)
  ultimately show ?thesis by simp
qed

text \<open>
  C8 as stated fails: the query succeeds on a DEGRADED store with two failures; afterwards
  the store is still DEGRADED, with two failures and no success.
\<close>

theorem query_success_counterexample:
  "map_option status (cfg rsC8 ''primary'') = Some DEGRADED \<and>
   map_option failureCount (cfg rsC8 ''primary'') = Some 2 \<and>
   map_option successCount (cfg rsC8 ''primary'') = Some 0 \<and>
   fst (query env1 alwaysRows 5 0 0 rsC8) = Some (Inr 42) \<and>
   map_option status (cfg (snd (snd (query env1 alwaysRows 5 0 0 rsC8))) ''primary'') = Some DEGRADED \<and>
   map_option failureCount (cfg (snd (snd (query env1 alwaysRows 5 0 0 rsC8))) ''primary'') = Some 2 \<and>
   map_option successCount (cfg (snd (snd (query env1 alwaysRows 5 0 0 rsC8))) ''primary'') = Some 0"
  by (simp add: query.simps eval_defs rsC8_def env1_def alwaysRows_def cfg_def)

text \<open>
  The amended statement for a query that succeeds on \<open>primary\<close> at time 100.
\<close>

theorem query_success_witness:
  "fst (query env1 alwaysRows 5 0 0 rsC3) = Some (Inr 42) \<and>
   fst (snd (query env1 alwaysRows 5 0 0 rsC3)) = [Attempt ''primary'' 0] \<and>
   getBackend (snd (snd (query env1 alwaysRows 5 0 0 rsC3))) ''primary'' =
     Some ((store ''primary'' POSTGRES 1 ONLINE 0 2)\<lparr>lastUsed := 100\<rparr>)"
proof -
  have c: "currentBackendId rsC3 = Some ''primary''" and ne: "''primary'' \<noteq> []"
    and g: "getBackend rsC3 ''primary'' = Some (store ''primary'' POSTGRES 1 ONLINE 0 2)"
    and h: "hasDriver (store ''primary'' POSTGRES 1 ONLINE 0 2)"
    and d: "driver alwaysRows 0 ''primary'' = Returned 42"
    by (simp_all add: rsC3_def registry_def store_def getBackend_def hasDriver_def alwaysRows_def quiet_def)
  show ?thesis
    using query_success [OF c ne g h d, of env1 5 0]
    by (simp add: alwaysRows_def quiet_def)
qed

text \<open>
  With no store current and no store enabled, \<open>query\<close> throws
  \<open>No backend available for query\<close> at once, without calling a driver or waiting.
\<close>

lemma query_no_backend:
  assumes "\<not> truthy (currentBackendId rs)" "enabledBackends rs = []"
  shows "query env w fuel retryCount n rs = (Some (Inl NoBackendAvailable), [], rs)"
  using assms
  by (subst query.simps) (simp add: queryEnter_def selectBackend_def enabledBackends_def)

lemma rsC4_eq:
  "rsC4 = registry [(store ''primary'' POSTGRES 1 ONLINE 0 2)\<lparr>config := (config (store ''primary'' POSTGRES 1 ONLINE 0 2))\<lparr>enabled := False\<rparr>\<rparr>]
            (Some ''primary'') PRIORITY"
  by (simp add: rsC4_def setBackendEnabled_def rsC3_def eval_defs)

text \<open>
  C4 fails on the code. The only store, \<open>primary\<close>, is current and is then disabled:
  \<open>setBackendEnabled\<close> selects again, \<open>selectBackend\<close> returns \<open>null\<close> without clearing
  \<open>currentBackendId\<close>, and \<open>query\<close> goes on using the disabled store. With a driver that
  always times out it makes four attempts with three delays and throws
  \<open>Database query failed after 3 retries\<close>, where the claim promises the error
  \<open>No backend available\<close> after a single attempt.
\<close>

theorem query_all_disabled_retries:
  "enabledBackends rsC4 = [] \<and> currentBackendId rsC4 = Some ''primary'' \<and>
   fst (query env1 alwaysTimeout 5 0 0 rsC4) = Some (Inl (QueryFailed 3 ''Query timeout after 10000ms'')) \<and>
   fst (snd (query env1 alwaysTimeout 5 0 0 rsC4)) =
      [Attempt ''primary'' 0, Delay 500, Attempt ''primary'' 1, Delay 1000,
       Attempt ''primary'' 2, Delay 2000, Attempt ''primary'' 3, Reselect None]"
  by (simp add: rsC4_eq enabledBackends_def query.simps eval_defs env1_def timeoutError_transient alwaysTimeout_def
      message_timeoutError)

section \<open>The counters in every reachable state\<close>

lemma set_modifyBackend:
  assumes "\<forall>b\<in>set bs. P b" "\<And>b. P b \<Longrightarrow> P (g b)"
  shows "\<forall>b\<in>set (modifyBackend k g bs). P b"
  using assms by (induction bs) auto

lemma ce_modifyConfig:
  assumes "countersExclusive rs" "\<And>c. exclusive c \<Longrightarrow> exclusive (f c)"
  shows "countersExclusive (modifyConfig k f rs)"
  using assms set_modifyBackend[of "backends rs" "\<lambda>b. exclusive (config b)" "\<lambda>b. b\<lparr>config := f (config b)\<rparr>" k]
  by (simp add: countersExclusive_def modifyConfig_def)

lemma ce_setLastUsed: "countersExclusive rs \<Longrightarrow> countersExclusive (setLastUsed k now rs)"
  using set_modifyBackend[of "backends rs" "\<lambda>b. exclusive (config b)" "\<lambda>b. b\<lparr>lastUsed := now\<rparr>" k]
  by (simp add: countersExclusive_def setLastUsed_def)

lemma ce_fields [simp]:
  "countersExclusive (rs\<lparr>currentBackendId := x\<rparr>) = countersExclusive rs"
  "countersExclusive (rs\<lparr>roundRobinIndex := i\<rparr>) = countersExclusive rs"
  "countersExclusive (rs\<lparr>healthCheckRunning := f\<rparr>) = countersExclusive rs"
  "countersExclusive (rs\<lparr>selectionStrategy := s\<rparr>) = countersExclusive rs"
  by (simp_all add: countersExclusive_def)

lemma ce_updateBackendStatus: "countersExclusive rs \<Longrightarrow> countersExclusive (updateBackendStatus rs k st)"
  unfolding updateBackendStatus_def by (rule ce_modifyConfig) (auto simp: exclusive_def)

lemma ce_reentrant: "countersExclusive rs \<Longrightarrow> countersExclusive (checkBackendHealthReentrant rs k)"
  by (auto simp: checkBackendHealthReentrant_def exclusive_def intro!: ce_modifyConfig split: option.splits)

lemma ce_sbp:
  assumes "\<And>r j. countersExclusive r \<Longrightarrow> countersExclusive (chk r j)" "countersExclusive rs"
  shows "countersExclusive (snd (selectByPriority chk env rs bs))"
  using sbp_snd_cases[of chk env rs bs] assms by auto

lemma ce_srr:
  assumes "\<And>r j. countersExclusive r \<Longrightarrow> countersExclusive (chk r j)" "countersExclusive rs"
  shows "countersExclusive (snd (selectByRoundRobin chk env rs bs))"
  using assms ce_sbp[of chk rs env bs] by (simp add: selectByRoundRobin_def Let_def)

lemma ce_selectBackend:
  assumes "\<And>r j. countersExclusive r \<Longrightarrow> countersExclusive (chk r j)" "countersExclusive rs"
  shows "countersExclusive (snd (selectBackend chk env now rs))"
proof -
  let ?bs = "filter (\<lambda>b. enabled (config b)) (backends rs)"
  have 1: "countersExclusive (snd (selectByPriority chk env rs ?bs))" using assms by (rule ce_sbp)
  have 2: "countersExclusive (snd (selectByRoundRobin chk env rs ?bs))" using assms by (rule ce_srr)
  show ?thesis using 1 2 assms(2)
    by (auto simp: selectBackend_def Let_def ce_setLastUsed
        split: prod.splits option.splits SelectionStrategy.splits if_splits)
qed

lemma ce_hhcf: "countersExclusive rs \<Longrightarrow> countersExclusive (handleHealthCheckFailure env now rs k)"
proof -
  assume a: "countersExclusive rs"
  let ?rs1 = "modifyConfig k (\<lambda>c. c\<lparr>failureCount := failureCount c + 1, successCount := 0\<rparr>) rs"
  have 1: "countersExclusive ?rs1" using a by (rule ce_modifyConfig) (simp add: exclusive_def)
  have 2: "countersExclusive (updateBackendStatus ?rs1 k st)" for st using 1 by (rule ce_updateBackendStatus)
  have 3: "countersExclusive (snd (selectBackend checkBackendHealthReentrant env now (updateBackendStatus ?rs1 k OFFLINE)))"
    by (rule ce_selectBackend) (use 2 in \<open>auto intro: ce_reentrant\<close>)
  show ?thesis using a 1 2 3
    by (simp add: handleHealthCheckFailure_def Let_def split: option.splits)
qed

lemma ce_trigger: "countersExclusive rs \<Longrightarrow> countersExclusive (triggerHealthCheck env now rs k)"
proof -
  assume a: "countersExclusive rs"
  have 1: "countersExclusive (modifyConfig k (\<lambda>c. c\<lparr>status := ONLINE\<rparr>) rs)"
    using a by (rule ce_modifyConfig) (simp add: exclusive_def)
  have 2: "countersExclusive (modifyConfig k (\<lambda>c. c\<lparr>lastChecked := Some now\<rparr>) (rs\<lparr>healthCheckRunning := True\<rparr>))"
    by (rule ce_modifyConfig) (use a in \<open>simp_all add: exclusive_def\<close>)
  have 3: "countersExclusive (handleHealthCheckFailure env now
             (modifyConfig k (\<lambda>c. c\<lparr>lastChecked := Some now\<rparr>) (rs\<lparr>healthCheckRunning := True\<rparr>)) k)"
    using 2 by (rule ce_hhcf)
  show ?thesis using a 1 2 3
    by (simp add: triggerHealthCheck_def checkBackendHealthStart_def Let_def split: option.splits)
qed

lemma ce_finish: "countersExclusive rs \<Longrightarrow> countersExclusive (snd (checkBackendHealthFinish env now h rs k))"
proof -
  assume a: "countersExclusive rs"
  let ?rs1 = "modifyConfig k (\<lambda>c. c\<lparr>successCount := successCount c + 1, failureCount := 0\<rparr>) rs"
  have 1: "countersExclusive ?rs1" using a by (rule ce_modifyConfig) (simp add: exclusive_def)
  have 2: "countersExclusive (updateBackendStatus ?rs1 k ONLINE)" using 1 by (rule ce_updateBackendStatus)
  have 3: "countersExclusive (handleHealthCheckFailure env now rs k)" using a by (rule ce_hhcf)
  show ?thesis using a 1 2 3
    by (simp add: checkBackendHealthFinish_def Let_def split: option.splits)
qed

lemma ce_select: "countersExclusive rs \<Longrightarrow> countersExclusive (snd (selectBackend (triggerHealthCheck env t) env now rs))"
  by (rule ce_selectBackend) (auto intro: ce_trigger)

lemma ce_queryEnter: "countersExclusive rs \<Longrightarrow> countersExclusive (snd (queryEnter env now rs))"
  using ce_select[of rs env now now]
  by (auto simp: queryEnter_def Let_def ce_setLastUsed split: option.splits)

lemma ce_queryFailed: "countersExclusive rs \<Longrightarrow> countersExclusive (queryFailed env now rs b)"
  by (simp add: queryFailed_def ce_trigger ce_updateBackendStatus)

lemma ce_queryReselect: "countersExclusive rs \<Longrightarrow> countersExclusive (snd (queryReselect env now rs b e n))"
  using ce_select[of rs env now now]
  by (auto simp: queryReselect_def Let_def split: prod.splits option.splits)

lemma ce_setBackendEnabled: "countersExclusive rs \<Longrightarrow> countersExclusive (snd (setBackendEnabled env now rs k en))"
proof -
  assume a: "countersExclusive rs"
  have 1: "countersExclusive (modifyConfig k (\<lambda>c. c\<lparr>enabled := en\<rparr>) rs)"
    using a by (rule ce_modifyConfig) (simp add: exclusive_def)
  show ?thesis using a 1 ce_select[OF 1, of env now now]
    by (auto simp add: setBackendEnabled_def Let_def split: option.splits)
qed

lemma ce_step: "countersExclusive rs \<Longrightarrow> countersExclusive (step env rs ev)"
  by (cases ev)
     (auto simp: ce_trigger ce_finish ce_updateBackendStatus ce_queryEnter ce_queryFailed ce_queryReselect
        ce_setLastUsed setSelectionStrategy_def ce_select ce_setBackendEnabled split: option.splits)

lemma ce_run: "countersExclusive rs \<Longrightarrow> countersExclusive (run env rs evs)"
  unfolding run_def by (induction evs arbitrary: rs) (auto simp: ce_step)

lemma set_setBackend: "set (setBackend x bs) \<subseteq> insert x (set bs)"
  by (induction bs) auto

lemma ce_init_list:
  assumes "\<forall>c\<in>set cs. exclusive c" "\<forall>b\<in>set acc. exclusive (config b)"
  shows "\<forall>b\<in>set (foldl (\<lambda>acc c. if \<not> enabled c then acc
                else setBackend \<lparr>config = c, pool = (type' c = POSTGRES \<and> truthy (connectionString c)),
                                 lastUsed = now\<rparr> acc) acc cs). exclusive (config b)"
  using assms
proof (induction cs arbitrary: acc)
  case Nil
  then show ?case by simp
next
  case (Cons c cs)
  let ?x = "\<lparr>config = c, pool = (type' c = POSTGRES \<and> truthy (connectionString c)), lastUsed = now\<rparr>"
  have "\<forall>b\<in>set (setBackend ?x acc). exclusive (config b)"
    using set_setBackend[of ?x acc] Cons.prems by auto
  with Cons show ?case by simp
qed

lemma ce_initializeBackends:
  assumes "\<forall>c\<in>set (configuredBackends env). exclusive c"
  shows "countersExclusive (initializeBackends env strategy now)"
  unfolding initializeBackends_def Let_def
  by (rule ce_select) (use ce_init_list[OF assms, of "[]" now] in \<open>simp add: countersExclusive_def\<close>)

lemma init_env0:
  "initializeBackends env0 PRIORITY 0 =
     \<lparr>backends = [\<lparr>config = (defaultBackends (Some ''postgres://neon'') None False) ! 0, pool = True, lastUsed = 0\<rparr>,
                  \<lparr>config = (defaultBackends (Some ''postgres://neon'') None False) ! 2, pool = False, lastUsed = 0\<rparr>],
      currentBackendId = Some ''mock'', selectionStrategy = PRIORITY, roundRobinIndex = 0,
      initialized = True, healthCheckRunning = False\<rparr>"
  by (simp add: initializeBackends_def env0_def defaultBackends_def truthy_def selectBackend_def
      selectByPriority_def withStatus_def isPrimaryPostgres_def byPriority_def setLastUsed_def Let_def)

text \<open>
  C9, as amended. When no configured store starts with both counters nonzero (the default
  configuration starts \<open>primary\<close> and \<open>backup\<close> with both at zero), then in every state
  the registry reaches from its construction, by any sequence of events, no store has both
  \<open>failureCount\<close> and \<open>successCount\<close> nonzero.
\<close>

theorem counters_never_both_nonzero:
  assumes "\<forall>c\<in>set (configuredBackends env). failureCount c = 0 \<or> successCount c = 0"
  shows "\<forall>b\<in>set (backends (run env (initializeBackends env strategy now) evs)).
           failureCount (config b) = 0 \<or> successCount (config b) = 0"
proof -
  have "\<forall>c\<in>set (configuredBackends env). exclusive c" using assms by (simp add: exclusive_def)
  then have "countersExclusive (initializeBackends env strategy now)" by (rule ce_initializeBackends)
  then have "countersExclusive (run env (initializeBackends env strategy now) evs)" by (rule ce_run)
  then show ?thesis by (simp add: countersExclusive_def exclusive_def)
qed

text \<open>
  C9 as stated fails in the first state: the registry built from the default
  configuration holds \<open>primary\<close> with both counters at zero.
\<close>

theorem counters_exactly_one_counterexample:
  "map_option failureCount (cfg (initializeBackends env0 PRIORITY 0) ''primary'') = Some 0 \<and>
   map_option successCount (cfg (initializeBackends env0 PRIORITY 0) ''primary'') = Some 0"
  by (simp add: init_env0 cfg_def getBackend_def defaultBackends_def)

text \<open>
  The amended statement for the default configuration and a query, a failed and a passed
  health check of \<open>primary\<close>.
\<close>

theorem counters_never_both_nonzero_witness:
  "list_all (\<lambda>b. failureCount (config b) = 0 \<or> successCount (config b) = 0)
     (backends (run env0 (initializeBackends env0 PRIORITY 0)
        [QueryEntered 1, HealthCheckStarted 2 ''primary'', ProbeAnswered 3 ''primary'' False,
         HealthCheckStarted 4 ''primary'', ProbeAnswered 5 ''primary'' True]))"
proof -
  have h: "\<forall>c\<in>set (configuredBackends env0). failureCount c = 0 \<or> successCount c = 0"
    by (simp add: env0_def defaultBackends_def)
  show ?thesis
    using counters_never_both_nonzero [OF h, of PRIORITY 0
      "[QueryEntered 1, HealthCheckStarted 2 ''primary'', ProbeAnswered 3 ''primary'' False,
        HealthCheckStarted 4 ''primary'', ProbeAnswered 5 ''primary'' True]"]
    by (simp add: list_all_iff)
qed

section \<open>Properties of the mock database\<close>

lemma select_keeps_data:
  assumes "includes' (toLowerCase text) ''select''"
  shows "snd (mockQuery co h now text params sd) = sd"
  using assms by (simp add: mockQuery_def Let_def)

lemma employees_read_timeless:
  assumes "includes' (toLowerCase text) ''select''" "includes' (toLowerCase text) ''employees''"
  shows "fst (mockQuery co h now text params sd) = handleEmployeeQuery co sd text params"
  using assms by (simp add: mockQuery_def Let_def)

lemma selects_keep_data:
  assumes "\<forall>(now, text, params)\<in>set qs. includes' (toLowerCase text) ''select''"
  shows "runQueries co h sd qs = sd"
  using assms unfolding runQueries_def
  by (induction qs arbitrary: sd) (auto simp: select_keeps_data)

text \<open>
  C10. A query whose text contains \<open>select\<close> and \<open>employees\<close> is answered by
  \<open>handleEmployeeQuery\<close>. Run it, then any sequence of queries whose text contains
  \<open>select\<close> (no INSERT, UPDATE or DELETE handler runs), then run it again: the second
  result, or error, is the first one, whatever the times of the calls and whatever the
  write handlers would do.
\<close>

theorem mock_reads_repeat:
  assumes "includes' (toLowerCase text) ''select''" and "includes' (toLowerCase text) ''employees''"
    and "\<forall>(now, text, params)\<in>set between. includes' (toLowerCase text) ''select''"
  shows "fst (mockQuery co h later text params
                (runQueries co h (snd (mockQuery co h now text params sd)) between)) =
         fst (mockQuery co h now text params sd)"
  using assms by (simp add: select_keeps_data selects_keep_data employees_read_timeless)

lemma lower_getAll:
  "toLowerCase getAllText = ''select e.*, c.name as company_name from employees e left join companies c on e.company_id = c.id order by e.name asc limit $1 offset $2''"
  by (simp add: getAllText_def toLowerCase_def lowerChar_ascii)

lemma getAll_is_read:
  "includes' (toLowerCase getAllText) ''select''" "includes' (toLowerCase getAllText) ''employees''"
  unfolding lower_getAll by simp_all

lemma getAll_plain:
  "\<not> includes' (toLowerCase getAllText) ''where''" "\<not> includes' (toLowerCase getAllText) ''count(*)''"
  unfolding lower_getAll by simp_all

lemma getAll_limit: "match (spaceParam ''limit'') getAllText = Some ''1''"
  by (simp add: getAllText_def spaceParam_def capture_def toLowerCase_def lowerChar_ascii isSpace_def isDigit_def)

lemma getAll_offset: "match (spaceParam ''offset'') getAllText = Some ''2''"
  by (simp add: getAllText_def spaceParam_def capture_def toLowerCase_def lowerChar_ascii isSpace_def isDigit_def)

lemma getAll_result:
  "fst (mockQuery co idleHandlers 1 getAllText (Some [JsNumber 1000, JsNumber 0]) (sampleData 0)) =
     Inr (selected (map EmployeeRow (employees (sampleData 0))))"
  unfolding employees_read_timeless[OF getAll_is_read]
  by (simp add: handleEmployeeQuery_def Let_def getAll_plain getAll_limit getAll_offset
      paginate_def getQueryLimit_def getQueryOffset_def toInteger_def plusToInteger_def relativeIndex_def
      paramAt_def parseInt_def jsTruthy_def slice_def sampleData_def)

text \<open>
  The query of \<open>getAll\<close> with limit 1000 and offset 0, a count in between: both times the
  three employees of the sample data, whatever the conversions, which numbers do not go
  through.
\<close>

theorem mock_reads_repeat_witness:
  "\<forall>co. includes' (toLowerCase getAllText) ''select'' \<and> includes' (toLowerCase getAllText) ''employees'' \<and>
   fst (mockQuery co idleHandlers 9 getAllText (Some [JsNumber 1000, JsNumber 0])
          (runQueries co idleHandlers
             (snd (mockQuery co idleHandlers 1 getAllText (Some [JsNumber 1000, JsNumber 0]) (sampleData 0)))
             [(5, ''SELECT COUNT(*) FROM employees'', None)])) =
     Inr (selected (map EmployeeRow (employees (sampleData 0))))"
proof (intro allI)
  fix co
  have b: "\<forall>(now, text, params)\<in>set [(5::nat, ''SELECT COUNT(*) FROM employees'', None :: JsValue list option)].
             includes' (toLowerCase text) ''select''"
    by (simp add: toLowerCase_def lowerChar_ascii)
  show "includes' (toLowerCase getAllText) ''select'' \<and> includes' (toLowerCase getAllText) ''employees'' \<and>
   fst (mockQuery co idleHandlers 9 getAllText (Some [JsNumber 1000, JsNumber 0])
          (runQueries co idleHandlers
             (snd (mockQuery co idleHandlers 1 getAllText (Some [JsNumber 1000, JsNumber 0]) (sampleData 0)))
             [(5, ''SELECT COUNT(*) FROM employees'', None)])) =
     Inr (selected (map EmployeeRow (employees (sampleData 0))))"
    using getAll_is_read getAll_result [of co]
      mock_reads_repeat [OF getAll_is_read b, of co idleHandlers 9 "Some [JsNumber 1000, JsNumber 0]" 1 "sampleData 0"]
    by simp
qed

end
